(* ===== verification/Persea_Prelude.thy ===== *)
theory Persea_Prelude
  imports Main "HOL-Library.AList" "HOL-Library.Word" "HOL-Library.Code_Target_Numeral"
begin

text \<open>
  Shared ground of the development: what the components use of Rust's standard library.

  A Rust \<open>str\<close> is a sequence of UTF-8 bytes, so it is modelled as a HOL \<open>string\<close>, whose
  characters are bytes; \<open>chars\<close> splits it into code points the way the \<open>Chars\<close> iterator
  does (by the lead byte) and \<open>utf8_valid\<close> is \<open>std::str::from_utf8\<close>. Integer parsing and
  printing, \<open>split_once\<close>, \<open>rsplit_once\<close>, \<open>split\<close>, \<open>trim_end_matches\<close> and the other
  helpers follow the documented behaviour of the standard library. Machine integers whose
  overflow is visible are words; the others are \<open>nat\<close> or \<open>int\<close> with the bound written out.
  A \<open>HashMap\<close> that is iterated is an association list with distinct keys.
\<close>

section \<open>Collections of rewrite rules\<close>

named_theorems byte_simps \<open>reading characters as bytes\<close>
named_theorems str_simps \<open>facts on the string helpers\<close>

section \<open>Results\<close>

text \<open>\<open>Result<T, E>\<close> is the sum \<open>'e + 'a\<close>: \<open>Inl\<close> is \<open>Err\<close>, \<open>Inr\<close> is \<open>Ok\<close>.\<close>

type_synonym ('a, 'e) result = "'e + 'a"

definition is_ok :: "('a, 'e) result \<Rightarrow> bool" where
  "is_ok r = (case r of Inl _ \<Rightarrow> False | Inr _ \<Rightarrow> True)"

lemma is_ok_simps [simp]: "is_ok (Inr x)" "\<not> is_ok (Inl e)"
  by (simp_all add: is_ok_def)

text \<open>\<open>iter.flatten()\<close> over results keeps the \<open>Ok\<close> values.\<close>

fun oks :: "('a, 'e) result list \<Rightarrow> 'a list" where
  "oks [] = []"
| "oks (Inl _ # rs) = oks rs"
| "oks (Inr x # rs) = x # oks rs"

lemma oks_map_Inr [simp]: "oks (map Inr xs) = xs"
  by (induction xs) auto

lemma oks_append [simp]: "oks (xs @ ys) = oks xs @ oks ys"
  by (induction xs rule: oks.induct) auto

lemma in_set_oks: "x \<in> set (oks rs) \<longleftrightarrow> Inr x \<in> set rs"
  by (induction rs rule: oks.induct) auto

section \<open>Bytes\<close>

definition byte :: "char \<Rightarrow> nat" where
  "byte c = of_char c"

lemma byte_less [simp]: "byte c < 256"
  by (simp add: byte_def)

lemma byte_eq_iff [simp]: "byte c = byte d \<longleftrightarrow> c = d"
  by (simp add: byte_def)

lemma byte_char_of [byte_simps]: "n < 256 \<Longrightarrow> byte (char_of n) = n"
  by (simp add: byte_def)

definition is_ascii_digit :: "char \<Rightarrow> bool" where
  "is_ascii_digit c \<longleftrightarrow> 48 \<le> byte c \<and> byte c \<le> 57"

definition is_ascii :: "string \<Rightarrow> bool" where
  "is_ascii s = list_all (\<lambda>c. byte c < 128) s"

lemma is_ascii_simps [simp]:
  "is_ascii []" "is_ascii (c # s) \<longleftrightarrow> byte c < 128 \<and> is_ascii s"
  "is_ascii (s @ t) \<longleftrightarrow> is_ascii s \<and> is_ascii t"
  by (auto simp: is_ascii_def)

lemma is_ascii_drop: "is_ascii s \<Longrightarrow> is_ascii (drop n s)"
  by (auto simp: is_ascii_def list_all_iff dest: in_set_dropD)

lemma is_ascii_take: "is_ascii s \<Longrightarrow> is_ascii (take n s)"
  by (auto simp: is_ascii_def list_all_iff dest: in_set_takeD)

lemma byte_digit_literals [byte_simps]:
  "byte (CHR ''.'') = 46" "byte (CHR '','') = 44" "byte (CHR '';'') = 59"
  "byte (CHR ''+'') = 43" "byte (CHR ''-'') = 45" "byte (CHR ''/'') = 47"
  "byte (CHR '':'') = 58" "byte (CHR ''='') = 61" "byte (CHR ''@'') = 64"
  by (simp_all add: byte_def)

lemma digit_not_separator:
  assumes "is_ascii_digit c"
  shows "c \<noteq> CHR ''.''" "c \<noteq> CHR '';''" "c \<noteq> CHR '',''" "c \<noteq> CHR ''+''" "c \<noteq> CHR ''-''"
  using assms by (auto simp: is_ascii_digit_def byte_simps)

section \<open>Integers as text\<close>

text \<open>\<open>to_string\<close> on unsigned integers: decimal digits, no leading zero.\<close>

definition digit_char :: "nat \<Rightarrow> char" where
  "digit_char d = char_of (48 + d)"

lemma byte_digit_char: "d < 10 \<Longrightarrow> byte (digit_char d) = 48 + d"
  by (simp add: digit_char_def byte_char_of)

fun show_nat :: "nat \<Rightarrow> string" where
  "show_nat n = (if n < 10 then [digit_char n] else show_nat (n div 10) @ [digit_char (n mod 10)])"

declare show_nat.simps [simp del]

lemma show_nat_nonempty [simp]: "show_nat n \<noteq> []"
  by (subst show_nat.simps) simp

lemma show_nat_digits: "list_all is_ascii_digit (show_nat n)"
proof (induction n rule: show_nat.induct)
  case (1 n)
  show ?case
  proof (cases "n < 10")
    case True
    then show ?thesis
      by (subst show_nat.simps) (simp add: is_ascii_digit_def byte_digit_char)
  next
    case False
    with 1 have "list_all is_ascii_digit (show_nat (n div 10))" by simp
    with False show ?thesis
      by (subst show_nat.simps) (simp add: is_ascii_digit_def byte_digit_char)
  qed
qed

text \<open>The value of a run of decimal digits, accumulated from the left.\<close>

fun dec_val :: "nat \<Rightarrow> string \<Rightarrow> nat" where
  "dec_val acc [] = acc"
| "dec_val acc (c # s) = dec_val (10 * acc + (byte c - 48)) s"

lemma dec_val_append [simp]: "dec_val acc (s @ t) = dec_val (dec_val acc s) t"
  by (induction s arbitrary: acc) auto

lemma dec_val_show_nat: "dec_val 0 (show_nat n) = n"
proof (induction n rule: show_nat.induct)
  case (1 n)
  show ?case
  proof (cases "n < 10")
    case True
    then show ?thesis by (subst show_nat.simps) (simp add: byte_digit_char)
  next
    case False
    with 1 have "dec_val 0 (show_nat (n div 10)) = n div 10" by simp
    with False show ?thesis by (subst show_nat.simps) (simp add: byte_digit_char)
  qed
qed

text \<open>
  \<open>str::parse\<close> for an unsigned type with largest value \<open>hi\<close>: an optional plus sign, at
  least one digit, digits only, no overflow.
\<close>

definition parse_digits :: "nat \<Rightarrow> string \<Rightarrow> nat option" where
  "parse_digits hi s =
     (if s \<noteq> [] \<and> list_all is_ascii_digit s \<and> dec_val 0 s \<le> hi then Some (dec_val 0 s) else None)"

definition parse_unsigned :: "nat \<Rightarrow> string \<Rightarrow> nat option" where
  "parse_unsigned hi s =
     (case s of
        [] \<Rightarrow> None
      | c # r \<Rightarrow> if c = CHR ''+'' then parse_digits hi r else parse_digits hi s)"

text \<open>\<open>str::parse\<close> for a signed type of \<open>w\<close> bits.\<close>

definition parse_signed :: "nat \<Rightarrow> string \<Rightarrow> int option" where
  "parse_signed w s =
     (case s of
        [] \<Rightarrow> None
      | c # r \<Rightarrow>
          if c = CHR ''+'' then map_option int (parse_digits (2 ^ (w - 1) - 1) r)
          else if c = CHR ''-'' then map_option (\<lambda>n. - int n) (parse_digits (2 ^ (w - 1)) r)
          else map_option int (parse_digits (2 ^ (w - 1) - 1) s))"

definition usize_max :: nat where
  "usize_max = 2 ^ 64 - 1"

lemma parse_digits_show_nat: "n \<le> hi \<Longrightarrow> parse_digits hi (show_nat n) = Some n"
  by (simp add: parse_digits_def show_nat_digits dec_val_show_nat)

lemma parse_unsigned_digits:
  assumes "list_all is_ascii_digit s"
  shows "parse_unsigned hi s = parse_digits hi s"
  using assms
  by (cases s) (auto simp: parse_unsigned_def parse_digits_def dest: digit_not_separator)

lemma parse_unsigned_show_nat: "n \<le> hi \<Longrightarrow> parse_unsigned hi (show_nat n) = Some n"
  by (simp add: parse_unsigned_digits show_nat_digits parse_digits_show_nat)

lemma parse_unsigned_le: "parse_unsigned hi s = Some n \<Longrightarrow> n \<le> hi"
  by (auto simp: parse_unsigned_def parse_digits_def split: list.splits if_splits)

section \<open>Splitting strings\<close>

text \<open>\<open>split_once(c)\<close>: the text before and after the first occurrence.\<close>

fun split_once :: "char \<Rightarrow> string \<Rightarrow> (string \<times> string) option" where
  "split_once c [] = None"
| "split_once c (x # s) =
     (if x = c then Some ([], s)
      else map_option (\<lambda>(a, b). (x # a, b)) (split_once c s))"

lemma split_once_None: "split_once c s = None \<longleftrightarrow> c \<notin> set s"
  by (induction s) auto

lemma split_once_append: "c \<notin> set a \<Longrightarrow> split_once c (a @ c # b) = Some (a, b)"
  by (induction a) auto

lemma split_once_SomeD: "split_once c s = Some (a, b) \<Longrightarrow> s = a @ c # b \<and> c \<notin> set a"
  by (induction s arbitrary: a) (auto split: if_splits)

lemma split_once_Some: "split_once c s = Some (a, b) \<longleftrightarrow> s = a @ c # b \<and> c \<notin> set a"
  using split_once_SomeD split_once_append by blast

lemma split_once_length: "split_once c s = Some (a, b) \<Longrightarrow> length b < length s"
  by (simp add: split_once_Some)

text \<open>\<open>rsplit_once(c)\<close>: the text before and after the last occurrence.\<close>

definition rsplit_once :: "char \<Rightarrow> string \<Rightarrow> (string \<times> string) option" where
  "rsplit_once c s = map_option (\<lambda>(a, b). (rev b, rev a)) (split_once c (rev s))"

lemma rsplit_once_None: "rsplit_once c s = None \<longleftrightarrow> c \<notin> set s"
  by (simp add: rsplit_once_def split_once_None)

lemma rsplit_once_Some: "rsplit_once c s = Some (a, b) \<longleftrightarrow> s = a @ c # b \<and> c \<notin> set b"
proof (cases "split_once c (rev s)")
  case None
  then have "c \<notin> set s" by (simp add: split_once_None)
  with None show ?thesis by (auto simp: rsplit_once_def)
next
  case (Some p)
  obtain x y where p: "p = (x, y)" by force
  with Some have "rev s = x @ c # y" and x: "c \<notin> set x"
    by (simp_all add: split_once_Some)
  then have s: "s = rev y @ c # rev x" using rev_swap [of s "x @ c # y"] by simp
  have "rsplit_once c s = Some (rev y, rev x)"
    using Some p by (simp add: rsplit_once_def)
  moreover have "s = a @ c # b \<and> c \<notin> set b \<longleftrightarrow> a = rev y \<and> b = rev x"
  proof
    assume eq: "s = a @ c # b \<and> c \<notin> set b"
    then have "split_once c (rev s) = Some (rev b, rev a)" by (simp add: split_once_Some)
    with Some p show "a = rev y \<and> b = rev x" by auto
  next
    assume "a = rev y \<and> b = rev x"
    with s x show "s = a @ c # b \<and> c \<notin> set b" by simp
  qed
  ultimately show ?thesis by auto
qed

text \<open>\<open>split(c)\<close>: the pieces between all occurrences; never empty.\<close>

fun split_on :: "char \<Rightarrow> string \<Rightarrow> string list" where
  "split_on c [] = [[]]"
| "split_on c (x # s) =
     (if x = c then [] # split_on c s
      else (case split_on c s of [] \<Rightarrow> [[x]] | p # ps \<Rightarrow> (x # p) # ps))"

lemma split_on_nonempty [simp]: "split_on c s \<noteq> []"
  by (induction s) (auto split: list.splits)

text \<open>\<open>join(sep)\<close>.\<close>

fun join :: "string \<Rightarrow> string list \<Rightarrow> string" where
  "join sep [] = []"
| "join sep [p] = p"
| "join sep (p # q # ps) = p @ sep @ join sep (q # ps)"

lemma join_Cons: "ps \<noteq> [] \<Longrightarrow> join sep (p # ps) = p @ sep @ join sep ps"
  by (cases ps) auto

lemma join_split_on: "join [c] (split_on c s) = s"
proof (induction s)
  case Nil
  then show ?case by simp
next
  case (Cons x s)
  obtain p ps where sp: "split_on c s = p # ps"
    by (metis list.exhaust split_on_nonempty)
  with Cons show ?case
    by (cases ps) auto
qed

lemma split_on_no_sep: "p \<in> set (split_on c s) \<Longrightarrow> c \<notin> set p"
proof (induction s arbitrary: p)
  case Nil
  then show ?case by simp
next
  case (Cons x s)
  obtain q qs where sp: "split_on c s = q # qs"
    by (metis list.exhaust split_on_nonempty)
  have IH: "c \<notin> set r" if "r = q \<or> r \<in> set qs" for r
    using Cons.IH [of r] that by (simp add: sp)
  from Cons.prems have "x = c \<and> (p = [] \<or> p = q \<or> p \<in> set qs) \<or> x \<noteq> c \<and> (p = x # q \<or> p \<in> set qs)"
    by (simp add: sp split: if_splits)
  then consider "p = []" | "p = x # q" "x \<noteq> c" | "p = q" | "p \<in> set qs" by blast
  then show ?case
    by cases (use IH [of q] IH [of p] in simp_all)
qed

lemma split_on_free [simp]: "c \<notin> set p \<Longrightarrow> split_on c p = [p]"
  by (induction p) auto

lemma split_on_append_sep: "c \<notin> set p \<Longrightarrow> split_on c (p @ c # s) = p # split_on c s"
  by (induction p) auto

lemma split_on_join: "ps \<noteq> [] \<Longrightarrow> list_all (\<lambda>p. c \<notin> set p) ps \<Longrightarrow> split_on c (join [c] ps) = ps"
proof (induction ps)
  case Nil
  then show ?case by simp
next
  case (Cons p ps)
  then show ?case
    by (cases ps) (simp_all add: split_on_append_sep)
qed

text \<open>\<open>trim_end_matches(c)\<close> and \<open>trim_start_matches\<close> for one character.\<close>

definition trim_end_char :: "char \<Rightarrow> string \<Rightarrow> string" where
  "trim_end_char c s = rev (dropWhile (\<lambda>x. x = c) (rev s))"

lemma trim_end_char_id: "s = [] \<or> last s \<noteq> c \<Longrightarrow> trim_end_char c s = s"
  by (cases s rule: rev_cases) (auto simp: trim_end_char_def)

lemma trim_end_char_snoc [simp]: "trim_end_char c (s @ [c]) = trim_end_char c s"
  by (simp add: trim_end_char_def)

lemma trim_end_char_other: "x \<noteq> c \<Longrightarrow> trim_end_char c (s @ [x]) = s @ [x]"
  by (simp add: trim_end_char_def)

lemma trim_end_char_decomp: "\<exists>n. s = trim_end_char c s @ replicate n c"
proof (induction s rule: rev_induct)
  case Nil
  then show ?case by (simp add: trim_end_char_def)
next
  case (snoc x s)
  show ?case
  proof (cases "x = c")
    case True
    from snoc obtain n where n: "s = trim_end_char c s @ replicate n c" ..
    have "replicate n c @ [c] = replicate (Suc n) c" by (simp add: replicate_append_same)
    with n have "s @ [c] = trim_end_char c (s @ [c]) @ replicate (Suc n) c"
      by (metis append.assoc trim_end_char_snoc)
    with True show ?thesis by blast
  next
    case False
    then have "s @ [x] = trim_end_char c (s @ [x]) @ replicate 0 c"
      by (simp add: trim_end_char_other)
    then show ?thesis by blast
  qed
qed

text \<open>\<open>strip_prefix\<close>.\<close>

fun strip_prefix :: "string \<Rightarrow> string \<Rightarrow> string option" where
  "strip_prefix [] s = Some s"
| "strip_prefix (p # ps) [] = None"
| "strip_prefix (p # ps) (x # s) = (if p = x then strip_prefix ps s else None)"

lemma strip_prefix_Some: "strip_prefix p s = Some r \<longleftrightarrow> s = p @ r"
  by (induction p s rule: strip_prefix.induct) auto

section \<open>Framed streams\<close>

text \<open>
  The contract of a streaming reader: frames end at a separator, a frame is decoded when its
  separator has arrived, and a partial frame stays in the buffer. What a reader promises
  follows from the two laws of its loop.
\<close>

locale framed_stream =
  fixes sep :: char
    and decode :: "string \<Rightarrow> 'r"
    and loop :: "string \<Rightarrow> 'r list \<times> string"
  assumes loop_partial: "sep \<notin> set s \<Longrightarrow> loop s = ([], s)"
    and loop_frame: "sep \<notin> set f \<Longrightarrow> loop (f @ sep # r) = (decode f # fst (loop r), snd (loop r))"
begin

lemma frame_induct [case_names partial frame]:
  assumes "\<And>s. sep \<notin> set s \<Longrightarrow> P s"
    and "\<And>f r. sep \<notin> set f \<Longrightarrow> P r \<Longrightarrow> P (f @ sep # r)"
  shows "P s"
proof (induction s rule: length_induct)
  case (1 s)
  show ?case
  proof (cases "sep \<in> set s")
    case True
    then obtain f r where s: "s = f @ sep # r" "sep \<notin> set f"
      using split_list_first by fastforce
    then have "length r < length s" by simp
    with 1 s assms(2) show ?thesis by blast
  next
    case False
    then show ?thesis by (rule assms(1))
  qed
qed

lemma loop_rest_no_sep: "sep \<notin> set (snd (loop s))"
  by (induction s rule: frame_induct) (simp_all add: loop_partial loop_frame)

lemma loop_rest_suffix: "\<exists>pre. s = pre @ snd (loop s)"
proof (induction s rule: frame_induct)
  case (partial s)
  then show ?case by (simp add: loop_partial)
next
  case (frame f r)
  then obtain pre where "r = pre @ snd (loop r)" by blast
  then have "f @ sep # r = (f @ sep # pre) @ snd (loop r)" by simp
  with frame(1) show ?case by (metis loop_frame snd_conv)
qed

lemma loop_rest_length: "length (snd (loop s)) \<le> length s"
  using loop_rest_suffix [of s] by (metis le_add2 length_append)

text \<open>Reading in two chunks is reading the whole.\<close>

lemma loop_append:
  "loop (s @ t) =
     (fst (loop s) @ fst (loop (snd (loop s) @ t)), snd (loop (snd (loop s) @ t)))"
  by (induction s rule: frame_induct) (simp_all add: loop_partial loop_frame)

lemma loop_frames:
  "list_all (\<lambda>f. sep \<notin> set f) fs \<Longrightarrow> loop (concat (map (\<lambda>f. f @ [sep]) fs)) = (map decode fs, [])"
  by (induction fs) (simp_all add: loop_partial loop_frame)

lemma loop_results_decoded:
  "x \<in> set (fst (loop s)) \<Longrightarrow> \<exists>f. x = decode f \<and> sep \<notin> set f"
  by (induction s rule: frame_induct) (auto simp: loop_partial loop_frame)

end

end
