(* ===== verification/Utf8.thy ===== *)
theory Utf8
  imports Persea_Prelude
begin

text \<open>
  UTF-8 as the standard library reads it. \<open>chars\<close> cuts a byte sequence at the widths the
  lead bytes announce, which is what \<open>str::chars\<close> does on a \<open>str\<close>; \<open>utf8_valid\<close> accepts
  exactly the well-formed sequences of RFC 3629 (no overlong forms, no surrogates, nothing
  above U+10FFFF), which is what \<open>std::str::from_utf8\<close> accepts.
\<close>

section \<open>Cutting a byte sequence into characters\<close>

definition utf8_width :: "nat \<Rightarrow> nat" where
  "utf8_width b = (if b < 0x80 then 1 else if b < 0xE0 then 2 else if b < 0xF0 then 3 else 4)"

lemma utf8_width_pos [simp]: "0 < utf8_width b"
  by (simp add: utf8_width_def)

lemma utf8_width_le: "utf8_width b \<le> 4"
  by (simp add: utf8_width_def)

definition next_char :: "string \<Rightarrow> (string \<times> string) option" where
  "next_char s =
     (case s of
        [] \<Rightarrow> None
      | c # _ \<Rightarrow> Some (take (utf8_width (byte c)) s, drop (utf8_width (byte c)) s))"

function chars :: "string \<Rightarrow> string list" where
  "chars [] = []"
| "chars (c # s) =
     take (utf8_width (byte c)) (c # s) # chars (drop (utf8_width (byte c)) (c # s))"
  by pat_completeness auto
termination
  by (relation "measure length") (auto simp: utf8_width_def)

lemma chars_unfold:
  "chars s = (case next_char s of None \<Rightarrow> [] | Some (c, r) \<Rightarrow> c # chars r)"
  by (cases s) (simp_all add: next_char_def)

lemma concat_chars [simp]: "concat (chars s) = s"
proof (induction s rule: chars.induct)
  case (2 c s)
  then show ?case by (metis append_take_drop_id chars.simps(2) concat.simps(2))
qed simp

lemma chars_eq_Nil [simp]: "chars s = [] \<longleftrightarrow> s = []"
  by (cases s) auto

lemma chars_nonempty_elem: "c \<in> set (chars s) \<Longrightarrow> c \<noteq> []"
proof (induction s rule: chars.induct)
  case (2 x s)
  then show ?case by (auto simp: utf8_width_def split: if_splits)
qed simp

section \<open>Well-formed characters\<close>

definition is_cont :: "char \<Rightarrow> bool" where
  "is_cont c \<longleftrightarrow> 0x80 \<le> byte c \<and> byte c < 0xC0"

fun utf8_char :: "string \<Rightarrow> bool" where
  "utf8_char [a] = (byte a < 0x80)"
| "utf8_char [a, b] = (0xC2 \<le> byte a \<and> byte a < 0xE0 \<and> is_cont b)"
| "utf8_char [a, b, c] =
     (is_cont b \<and> is_cont c \<and>
      (byte a = 0xE0 \<and> 0xA0 \<le> byte b \<or> byte a = 0xED \<and> byte b < 0xA0 \<or>
       0xE1 \<le> byte a \<and> byte a < 0xF0 \<and> byte a \<noteq> 0xED))"
| "utf8_char [a, b, c, d] =
     (is_cont b \<and> is_cont c \<and> is_cont d \<and>
      (byte a = 0xF0 \<and> 0x90 \<le> byte b \<or> byte a = 0xF4 \<and> byte b < 0x90 \<or>
       0xF1 \<le> byte a \<and> byte a < 0xF4))"
| "utf8_char _ = False"

definition utf8_valid :: "string \<Rightarrow> bool" where
  "utf8_valid s = list_all utf8_char (chars s)"

lemma utf8_char_cases:
  assumes "utf8_char c"
  obtains (one) a where "c = [a]" "byte a < 0x80"
    | (two) a b where "c = [a, b]" "0xC2 \<le> byte a" "byte a < 0xE0" "is_cont b"
    | (three) a b d where "c = [a, b, d]" "0xE0 \<le> byte a" "byte a < 0xF0" "is_cont b" "is_cont d"
    | (four) a b d e where "c = [a, b, d, e]" "0xF0 \<le> byte a" "byte a < 0xF5"
        "is_cont b" "is_cont d" "is_cont e"
  using assms by (cases c rule: utf8_char.cases) auto

lemma utf8_char_head:
  assumes "utf8_char c"
  shows "c \<noteq> []" "\<not> is_cont (hd c)" "length c = utf8_width (byte (hd c))"
  using assms by (cases rule: utf8_char_cases; simp add: is_cont_def utf8_width_def)+

lemma utf8_char_ascii: "byte a < 0x80 \<Longrightarrow> utf8_char [a]"
  by simp

text \<open>An ASCII byte inside a well-formed character is the whole character.\<close>

lemma utf8_char_ascii_mem:
  assumes "utf8_char c" "x \<in> set c" "byte x < 0x80"
  shows "c = [x]"
  using assms by (cases rule: utf8_char_cases) (auto simp: is_cont_def)

lemma next_char_append:
  assumes "utf8_char c"
  shows "next_char (c @ r) = Some (c, r)"
proof -
  from utf8_char_head [OF assms] obtain x xs
    where c: "c = x # xs" and w: "length c = utf8_width (byte x)"
    by (cases c) auto
  have "next_char (c @ r) = Some (take (length c) (c @ r), drop (length c) (c @ r))"
    by (simp add: next_char_def c flip: w)
  then show ?thesis by simp
qed

lemma chars_append_char: "utf8_char c \<Longrightarrow> chars (c @ r) = c # chars r"
  by (subst chars_unfold) (simp add: next_char_append)

lemma chars_concat: "list_all utf8_char cs \<Longrightarrow> chars (concat cs @ r) = cs @ chars r"
  by (induction cs) (auto simp: chars_append_char)

lemma chars_append: "utf8_valid s \<Longrightarrow> chars (s @ r) = chars s @ chars r"
  using chars_concat [of "chars s" r] by (simp add: utf8_valid_def)

lemma utf8_valid_Nil [simp]: "utf8_valid []"
  by (simp add: utf8_valid_def)

lemma utf8_valid_append: "utf8_valid s \<Longrightarrow> utf8_valid (s @ t) \<longleftrightarrow> utf8_valid t"
  by (simp add: utf8_valid_def chars_append)

lemma utf8_valid_Cons_ascii: "byte a < 0x80 \<Longrightarrow> utf8_valid (a # s) \<longleftrightarrow> utf8_valid s"
  using chars_append_char [OF utf8_char_ascii, of a s] by (simp add: utf8_valid_def)

lemma utf8_valid_ascii: "is_ascii s \<Longrightarrow> utf8_valid s"
  by (induction s) (auto simp: utf8_valid_Cons_ascii)

lemma utf8_valid_concat: "list_all utf8_char cs \<Longrightarrow> utf8_valid (concat cs)"
  using chars_concat [of cs "[]"] by (simp add: utf8_valid_def)

lemma chars_ascii: "is_ascii s \<Longrightarrow> chars s = map (\<lambda>c. [c]) s"
proof (induction s)
  case (Cons a s)
  then show ?case using chars_append_char [OF utf8_char_ascii, of a s] by simp
qed simp

text \<open>Cutting a valid string at an ASCII byte leaves two valid strings.\<close>

lemma utf8_valid_split_ascii:
  assumes "utf8_valid (s @ x # t)" and x: "byte x < 0x80"
  shows "utf8_valid s \<and> utf8_valid t"
  using assms(1)
proof (induction s rule: length_induct)
  case (1 s)
  show ?case
  proof (cases s)
    case Nil
    with 1(2) x show ?thesis by (simp add: utf8_valid_Cons_ascii)
  next
    case (Cons a s')
    obtain c cs where cs: "chars (s @ x # t) = c # cs"
      using Cons by (cases "chars (s @ x # t)") auto
    then have c: "utf8_char c" and ccs: "list_all utf8_char cs"
      using 1(2) by (simp_all add: utf8_valid_def)
    have eq: "s @ x # t = c @ concat cs"
      using concat_chars [of "s @ x # t"] cs by simp
    have "length c \<le> length s"
    proof (rule ccontr)
      assume "\<not> length c \<le> length s"
      then have "x \<in> set c"
        using arg_cong [OF eq, of "\<lambda>l. l ! length s"]
        by (simp add: nth_append)
      with c x have "c = [x]" by (intro utf8_char_ascii_mem) auto
      with \<open>\<not> length c \<le> length s\<close> Cons show False by simp
    qed
    then obtain u where s: "s = c @ u" and rest: "u @ x # t = concat cs"
      using eq by (auto simp: append_eq_append_conv2)
    have "utf8_valid (u @ x # t)" using ccs rest by (simp add: utf8_valid_concat)
    moreover have "length u < length s" using utf8_char_head(1) [OF c] s by simp
    ultimately have "utf8_valid u \<and> utf8_valid t" using 1(1) by blast
    moreover have "utf8_valid c" using utf8_valid_concat [of "[c]"] c by simp
    ultimately show ?thesis using s by (simp add: utf8_valid_append)
  qed
qed

section \<open>Taking a number of characters\<close>

fun take_chars :: "nat \<Rightarrow> string \<Rightarrow> (string \<times> string) option" where
  "take_chars 0 s = Some ([], s)"
| "take_chars (Suc n) s =
     (case next_char s of
        None \<Rightarrow> None
      | Some (c, r) \<Rightarrow> map_option (\<lambda>(e, r'). (c @ e, r')) (take_chars n r))"

text \<open>The loop over character steps, in one equation over the list of characters.\<close>

lemma take_chars_chars:
  "take_chars n s =
     (if n \<le> length (chars s)
      then Some (concat (take n (chars s)), concat (drop n (chars s))) else None)"
proof (induction n arbitrary: s)
  case 0
  then show ?case by simp
next
  case (Suc n)
  show ?case
  proof (cases "next_char s")
    case None
    then have "s = []" by (simp add: next_char_def split: list.splits)
    then show ?thesis by (simp add: next_char_def)
  next
    case (Some p)
    obtain c r where p: "p = (c, r)" by force
    with Some have "chars s = c # chars r" by (subst chars_unfold) simp
    with Some p Suc show ?thesis by simp
  qed
qed

lemma take_chars_append:
  assumes "utf8_valid s"
  shows "take_chars (length (chars s)) (s @ r) = Some (s, r)"
  using assms by (simp add: take_chars_chars chars_append)

lemma take_chars_decomp: "take_chars n s = Some (e, r) \<Longrightarrow> s = e @ r"
  by (auto simp: take_chars_chars split: if_splits) (metis append_take_drop_id concat_append concat_chars)

lemma take_chars_short: "length (chars s) < n \<Longrightarrow> take_chars n s = None"
  by (simp add: take_chars_chars)

end
