(* ===== verification/Protocol.thy ===== *)
theory Protocol
  imports Utf8
begin

text \<open>
  The Guacamole wire protocol (\<^verbatim>\<open>src/src/protocol.rs\<close>): instructions, their encoding
  \<^verbatim>\<open>LENGTH.ELEMENT,LENGTH.ELEMENT,...;\<close>, the one-instruction parser, the boundary scanner
  with its fast path, and the streaming parser. Lengths count characters, not bytes.
\<close>

section \<open>Instructions\<close>

record Instruction =
  opcode :: string
  args :: "string list"

datatype ParseError = Empty | MalformedElement | InvalidLength | Truncated | UnexpectedChar

definition instruction_new :: "string \<Rightarrow> string list \<Rightarrow> Instruction" where
  "instruction_new op as = \<lparr>opcode = op, args = as\<rparr>"

definition encode_element :: "string \<Rightarrow> string" where
  "encode_element s = show_nat (length (chars s)) @ ''.'' @ s"

definition encode :: "Instruction \<Rightarrow> string" where
  "encode i =
     encode_element (opcode i) @ concat (map (\<lambda>a. '','' @ encode_element a) (args i)) @ '';''"

text \<open>The loop of \<open>Instruction::parse\<close>; \<open>remaining\<close> is the text not consumed yet.\<close>

function parse_elements :: "string \<Rightarrow> (string list, ParseError) result" where
  "parse_elements remaining =
     (case split_once (CHR ''.'') remaining of
        None \<Rightarrow> Inl MalformedElement
      | Some (pre, rest) \<Rightarrow>
          (case parse_unsigned usize_max pre of
             None \<Rightarrow> Inl InvalidLength
           | Some len \<Rightarrow>
               (case take_chars len rest of
                  None \<Rightarrow> Inl Truncated
                | Some (element, rest') \<Rightarrow>
                    (case rest' of
                       [] \<Rightarrow> Inr [element]
                     | c # rest'' \<Rightarrow>
                         if c = CHR '',''
                         then (case parse_elements rest'' of
                                 Inl e \<Rightarrow> Inl e
                               | Inr es \<Rightarrow> Inr (element # es))
                         else Inl UnexpectedChar))))"
  by pat_completeness auto
termination
  by (relation "measure length") (auto dest!: split_once_length take_chars_decomp)

declare parse_elements.simps [simp del]

definition parse :: "string \<Rightarrow> (Instruction, ParseError) result" where
  "parse data =
     (let data' = trim_end_char (CHR '';'') data
      in if data' = [] then Inl Empty
         else (case parse_elements data' of
                 Inl e \<Rightarrow> Inl e
               | Inr [] \<Rightarrow> Inl Empty
               | Inr (op # as) \<Rightarrow> Inr \<lparr>opcode = op, args = as\<rparr>))"

section \<open>Instruction boundaries\<close>

definition BOUNDARY_FAST_PATH_MAX :: nat where
  "BOUNDARY_FAST_PATH_MAX = 1024"

text \<open>Skip \<open>n\<close> characters by their lead bytes; the number of bytes skipped and the rest.\<close>

fun skip_chars :: "nat \<Rightarrow> string \<Rightarrow> (nat \<times> string) option" where
  "skip_chars 0 s = Some (0, s)"
| "skip_chars (Suc n) s =
     (case s of
        [] \<Rightarrow> None
      | c # _ \<Rightarrow>
          if 0x80 \<le> byte c \<and> byte c < 0xC0 then None
          else if length s < utf8_width (byte c) then None
          else map_option (\<lambda>(k, r). (utf8_width (byte c) + k, r))
                 (skip_chars n (drop (utf8_width (byte c)) s)))"

text \<open>One element of the scan: its byte length, its terminator and the text after it.\<close>

definition scan_element :: "string \<Rightarrow> (nat \<times> char \<times> string) option" where
  "scan_element s =
     (let ds = takeWhile is_ascii_digit s; r = dropWhile is_ascii_digit s
      in if ds = [] \<or> r = [] \<or> hd r \<noteq> CHR ''.'' then None
         else (case parse_unsigned usize_max ds of
                 None \<Rightarrow> None
               | Some len \<Rightarrow>
                   (case skip_chars len (tl r) of
                      None \<Rightarrow> None
                    | Some (k, r') \<Rightarrow>
                        (case r' of
                           [] \<Rightarrow> None
                         | c # r'' \<Rightarrow>
                             if c = CHR '','' \<or> c = CHR '';''
                             then Some (length ds + 1 + k, c, r'') else None))))"

lemma skip_chars_SucE:
  assumes "skip_chars (Suc n) s = Some (k, r)"
  obtains c s' k' where "s = c # s'" "\<not> is_cont c" "utf8_width (byte c) \<le> length s"
    "skip_chars n (drop (utf8_width (byte c)) s) = Some (k', r)" "k = utf8_width (byte c) + k'"
  using assms by (auto simp: is_cont_def split: list.splits if_splits)

lemma skip_chars_decomp: "skip_chars n s = Some (k, r) \<Longrightarrow> k \<le> length s \<and> r = drop k s"
proof (induction n arbitrary: s k r)
  case (Suc n)
  from Suc.prems show ?case
  proof (rule skip_chars_SucE)
    fix c s' k'
    assume len: "utf8_width (byte c) \<le> length s"
      and sk: "skip_chars n (drop (utf8_width (byte c)) s) = Some (k', r)"
      and k: "k = utf8_width (byte c) + k'"
    from Suc.IH [OF sk] have "k' + utf8_width (byte c) \<le> length s" using len by auto
    with Suc.IH [OF sk] k show ?thesis by (simp add: add.commute)
  qed
qed simp

lemma scan_element_decomp:
  assumes "scan_element s = Some (k, c, r)"
  shows "k < length s \<and> s = take k s @ c # r \<and> (c = CHR '','' \<or> c = CHR '';'')"
proof -
  let ?ds = "takeWhile is_ascii_digit s" and ?r = "dropWhile is_ascii_digit s"
  from assms obtain len k' r' where ne: "?r \<noteq> []"
    and sk: "skip_chars len (tl ?r) = Some (k', c # r)" and k: "k = length ?ds + 1 + k'"
    and c: "c = CHR '','' \<or> c = CHR '';''"
    by (auto simp: scan_element_def Let_def split: if_splits option.splits list.splits)
  from skip_chars_decomp [OF sk] have k': "k' \<le> length (tl ?r)" and dr: "c # r = drop k' (tl ?r)"
    by auto
  have s: "s = ?ds @ hd ?r # tl ?r"
    using ne by (metis list.collapse takeWhile_dropWhile_id)
  have "drop k s = c # r"
    by (subst s) (simp add: k dr)
  moreover from this have "k < length s"
    by (metis drop_eq_Nil list.distinct(1) not_le)
  ultimately show ?thesis using c by (metis append_take_drop_id)
qed

lemma scan_element_length: "scan_element s = Some (k, c, r) \<Longrightarrow> length r < length s"
  by (frule scan_element_decomp) (metis add_Suc_right length_Cons length_append less_add_Suc2)

text \<open>
  The full scan of \<open>last_instruction_boundary\<close>: the two nested loops (elements of an
  instruction, instructions of the buffer) as one recursion over the unread suffix, with
  the current offset \<open>pos\<close> and the last boundary found.
\<close>

function full_scan :: "nat \<Rightarrow> nat option \<Rightarrow> string \<Rightarrow> nat option" where
  "full_scan pos last_end s =
     (case scan_element s of
        None \<Rightarrow> last_end
      | Some (k, c, r) \<Rightarrow>
          if c = CHR '','' then full_scan (pos + k + 1) last_end r
          else if r = [] then Some (pos + k + 1)
          else full_scan (pos + k + 1) (Some (pos + k + 1)) r)"
  by pat_completeness auto
termination
  by (relation "measure (\<lambda>(_, _, s). length s)") (auto dest: scan_element_length)

declare full_scan.simps [simp del]

lemma drop_dropWhile_length:
  assumes "drop n (tl (dropWhile P s)) = c # r"
  shows "length r < length s"
proof -
  have "length (c # r) \<le> length (tl (dropWhile P s))"
    using arg_cong [OF assms, of length] by simp
  also have "\<dots> \<le> length s"
    using length_dropWhile_le [of P s] by simp
  finally show ?thesis by simp
qed

text \<open>
  The structural walk of the fast path: the declared length is skipped in one step. \<open>tot\<close>
  is the buffer's length, \<open>pos\<close> the offset of the unread suffix \<open>s\<close>.
\<close>

function fast_scan :: "nat \<Rightarrow> nat \<Rightarrow> string \<Rightarrow> nat option" where
  "fast_scan tot pos s =
     (let ds = takeWhile is_ascii_digit s; r = dropWhile is_ascii_digit s
      in if ds = [] \<or> r = [] \<or> hd r \<noteq> CHR ''.'' then None
         else (case parse_unsigned usize_max ds of
                 None \<Rightarrow> None
               | Some len \<Rightarrow>
                   let p = pos + length ds + 1
                   in if usize_max < p + len then None
                      else if tot \<le> p + len then None
                      else (case drop len (tl r) of
                              [] \<Rightarrow> None
                            | c # r' \<Rightarrow>
                                if c = CHR '','' then fast_scan tot (p + len + 1) r'
                                else if c = CHR '';'' then
                                  (if p + len + 1 = tot then Some tot
                                   else fast_scan tot (p + len + 1) r')
                                else None)))"
  by pat_completeness auto
termination
  by (relation "measure (\<lambda>(_, _, s). length s)") (auto dest!: drop_dropWhile_length)

declare fast_scan.simps [simp del]

definition fast_instruction_boundary :: "string \<Rightarrow> nat option" where
  "fast_instruction_boundary buf = fast_scan (length buf) 0 buf"

definition last_instruction_boundary :: "string \<Rightarrow> nat option" where
  "last_instruction_boundary buf =
     (if length buf < BOUNDARY_FAST_PATH_MAX \<and> buf \<noteq> [] \<and> last buf = CHR '';'' \<and>
         is_ascii buf \<and> fast_instruction_boundary buf \<noteq> None
      then Some (length buf)
      else full_scan 0 None buf)"

section \<open>The streaming parser\<close>

definition MAX_PROTOCOL_BUFFER_LEN :: nat where
  "MAX_PROTOCOL_BUFFER_LEN = 1048576"

record InstructionParser =
  buffer :: string

definition parser_new :: InstructionParser where
  "parser_new = \<lparr>buffer = []\<rparr>"

text \<open>The \<open>while let\<close> loop of \<open>receive\<close>: the results, and what stays in the buffer.\<close>

function receive_loop :: "string \<Rightarrow> (Instruction, ParseError) result list \<times> string" where
  "receive_loop buf =
     (case split_once (CHR '';'') buf of
        None \<Rightarrow> ([], buf)
      | Some (instr, rest) \<Rightarrow>
          let r = (if utf8_valid instr then parse instr else Inl MalformedElement);
              (rs, b) = receive_loop rest
          in (r # rs, b))"
  by pat_completeness auto
termination
  by (relation "measure length") (auto dest: split_once_length)

declare receive_loop.simps [simp del]

definition receive ::
  "InstructionParser \<Rightarrow> string \<Rightarrow> (Instruction, ParseError) result list \<times> InstructionParser" where
  "receive p data =
     (let buf = buffer p @ data
      in if MAX_PROTOCOL_BUFFER_LEN < length buf then ([], p\<lparr>buffer := []\<rparr>)
         else (let (rs, b) = receive_loop buf in (rs, p\<lparr>buffer := b\<rparr>)))"

section \<open>Encoding and parsing\<close>

text \<open>The elements a Rust \<open>Instruction\<close> can hold: valid UTF-8, and a count that fits \<open>usize\<close>.\<close>

definition wf_element :: "string \<Rightarrow> bool" where
  "wf_element e \<longleftrightarrow> utf8_valid e \<and> length (chars e) \<le> usize_max"

definition elements :: "Instruction \<Rightarrow> string list" where
  "elements i = opcode i # args i"

definition wf_instruction :: "Instruction \<Rightarrow> bool" where
  "wf_instruction i = list_all wf_element (elements i)"

lemma elements_nonempty [simp]: "elements i \<noteq> []"
  by (simp add: elements_def)

lemma encode_elements:
  "encode i = join '','' (map encode_element (elements i)) @ '';''"
proof -
  have "encode_element e @ concat (map (\<lambda>a. '','' @ encode_element a) as) =
      join '','' (map encode_element (e # as))" for e as
    by (induction as arbitrary: e) auto
  then show ?thesis by (simp add: encode_def elements_def)
qed

lemma join_encode_snoc:
  "join '','' (map encode_element (es @ [e])) =
     concat (map (\<lambda>e. encode_element e @ '','') es) @ encode_element e"
  by (induction es) (simp_all add: join_Cons)

lemma show_nat_free:
  "CHR ''.'' \<notin> set (show_nat n)" "CHR '';'' \<notin> set (show_nat n)" "CHR '','' \<notin> set (show_nat n)"
  using show_nat_digits [of n] by (auto simp: list_all_iff dest: digit_not_separator)

text \<open>One turn of the parse loop on an encoded element with any tail.\<close>

lemma parse_elements_step:
  assumes "n \<le> usize_max"
  shows "parse_elements (show_nat n @ ''.'' @ rest) =
     (case take_chars n rest of
        None \<Rightarrow> Inl Truncated
      | Some (element, rest') \<Rightarrow>
          (case rest' of
             [] \<Rightarrow> Inr [element]
           | c # rest'' \<Rightarrow>
               if c = CHR '',''
               then (case parse_elements rest'' of Inl e \<Rightarrow> Inl e | Inr es \<Rightarrow> Inr (element # es))
               else Inl UnexpectedChar))"
  using assms
  by (subst parse_elements.simps)
    (simp add: split_once_append show_nat_free parse_unsigned_show_nat)

lemma parse_elements_last:
  assumes "wf_element e"
  shows "parse_elements (encode_element e) = Inr [e]"
  using assms parse_elements_step [of "length (chars e)" e] take_chars_append [of e "[]"]
  by (simp add: encode_element_def wf_element_def)

lemma parse_elements_more:
  assumes "wf_element e"
  shows "parse_elements (encode_element e @ '','' @ rest) =
     (case parse_elements rest of Inl err \<Rightarrow> Inl err | Inr es \<Rightarrow> Inr (e # es))"
  using assms parse_elements_step [of "length (chars e)" "e @ '','' @ rest"]
    take_chars_append [of e "'','' @ rest"]
  by (simp add: encode_element_def wf_element_def)

lemma parse_elements_prefix:
  assumes "list_all wf_element es"
  shows "parse_elements (concat (map (\<lambda>e. encode_element e @ '','') es) @ rest) =
     (case parse_elements rest of Inl err \<Rightarrow> Inl err | Inr xs \<Rightarrow> Inr (es @ xs))"
  using assms
proof (induction es)
  case Nil
  then show ?case by (simp split: sum.splits)
next
  case (Cons e es)
  then show ?case
    using parse_elements_more [of e "concat (map (\<lambda>e. encode_element e @ '','') es) @ rest"]
    by (simp split: sum.splits)
qed

definition ends_with_semi :: "string \<Rightarrow> bool" where
  "ends_with_semi s \<longleftrightarrow> s \<noteq> [] \<and> last s = CHR '';''"

lemma trim_encoded:
  "trim_end_char (CHR '';'') (p @ ''.'' @ e) = p @ ''.'' @ trim_end_char (CHR '';'') e"
proof (induction e rule: rev_induct)
  case Nil
  then show ?case using trim_end_char_other [of "CHR ''.''" "CHR '';''" p]
    by (simp add: trim_end_char_def)
next
  case (snoc x e)
  show ?case
  proof (cases "x = CHR '';''")
    case True
    with snoc show ?thesis
      using trim_end_char_snoc [of "CHR '';''" "p @ ''.'' @ e"] by simp
  next
    case False
    then show ?thesis
      using trim_end_char_other [of x "CHR '';''" "p @ ''.'' @ e"]
        trim_end_char_other [of x "CHR '';''" e] by simp
  qed
qed

text \<open>What the parser sees of an encoded instruction: the last element loses its final semicolons.\<close>

lemma trim_encode:
  assumes "elements i = es @ [e]"
  shows "trim_end_char (CHR '';'') (encode i) =
     concat (map (\<lambda>e. encode_element e @ '','') es) @
     show_nat (length (chars e)) @ ''.'' @ trim_end_char (CHR '';'') e"
proof -
  let ?p = "concat (map (\<lambda>e. encode_element e @ '','') es) @ show_nat (length (chars e))"
  have "encode i = (?p @ ''.'' @ e) @ [CHR '';'']"
    unfolding encode_elements assms join_encode_snoc by (simp add: encode_element_def)
  then have "trim_end_char (CHR '';'') (encode i) = ?p @ ''.'' @ trim_end_char (CHR '';'') e"
    by (simp only: trim_end_char_snoc trim_encoded)
  then show ?thesis by simp
qed

lemma trim_end_shorter:
  assumes "utf8_valid e" "ends_with_semi e"
  shows "length (chars (trim_end_char (CHR '';'') e)) < length (chars e)"
proof -
  let ?t = "trim_end_char (CHR '';'') e"
  obtain n where n: "e = ?t @ replicate n (CHR '';'')" using trim_end_char_decomp by blast
  have "n \<noteq> 0"
  proof
    assume "n = 0"
    with n have "e = ?t" by simp
    moreover obtain e' where "e = e' @ [CHR '';'']"
      using assms(2) by (metis append_butlast_last_id ends_with_semi_def)
    ultimately have "e' @ [CHR '';''] = trim_end_char (CHR '';'') e'"
      by (metis trim_end_char_snoc)
    moreover obtain m where "e' = trim_end_char (CHR '';'') e' @ replicate m (CHR '';'')"
      using trim_end_char_decomp by blast
    ultimately have "length e' = length (e' @ [CHR '';'']) + m"
      by (metis length_append length_replicate)
    then show False by simp
  qed
  then obtain m where "e = ?t @ CHR '';'' # replicate m (CHR '';'')"
    using n by (metis not0_implies_Suc replicate_Suc)
  then have "utf8_valid ?t"
    using utf8_valid_split_ascii [of ?t "CHR '';''" "replicate m (CHR '';'')"] assms(1)
    by (simp add: byte_simps)
  then have "chars e = chars ?t @ chars (replicate n (CHR '';''))"
    using n chars_append by metis
  moreover have "chars (replicate n (CHR '';'')) \<noteq> []" using \<open>n \<noteq> 0\<close> by simp
  ultimately show ?thesis by simp
qed

lemma parse_encode_cases:
  assumes "wf_instruction i"
  shows "parse (encode i) =
     (if ends_with_semi (last (elements i)) then Inl Truncated else Inr i)"
proof -
  obtain es e where els: "elements i = es @ [e]"
    by (metis elements_nonempty rev_exhaust)
  with assms have es: "list_all wf_element es" and e: "wf_element e"
    by (simp_all add: wf_instruction_def)
  let ?t = "trim_end_char (CHR '';'') e" and ?n = "length (chars e)"
  have n: "?n \<le> usize_max" and val: "utf8_valid e" using e by (simp_all add: wf_element_def)
  have parse: "parse (encode i) =
      (case parse_elements (show_nat ?n @ ''.'' @ ?t) of
         Inl err \<Rightarrow> Inl err
       | Inr xs \<Rightarrow> Inr \<lparr>opcode = hd (es @ xs), args = tl (es @ xs)\<rparr>)"
    if "parse_elements (show_nat ?n @ ''.'' @ ?t) \<noteq> Inr []"
    using that es
    by (auto simp: parse_def Let_def trim_encode [OF els] parse_elements_prefix
        split: sum.splits list.splits)
  show ?thesis
  proof (cases "ends_with_semi e")
    case True
    then have "take_chars ?n ?t = None"
      using trim_end_shorter [OF val] by (simp add: take_chars_short)
    then have "parse_elements (show_nat ?n @ ''.'' @ ?t) = Inl Truncated"
      using parse_elements_step [OF n, of ?t] by simp
    with parse True els show ?thesis by simp
  next
    case False
    then have "?t = e" by (intro trim_end_char_id) (auto simp: ends_with_semi_def)
    then have "parse_elements (show_nat ?n @ ''.'' @ ?t) = Inr [e]"
      using parse_elements_last [OF e] by (simp add: encode_element_def)
    moreover have "hd (es @ [e]) = opcode i" "tl (es @ [e]) = args i"
      using els [symmetric] by (simp_all add: elements_def)
    ultimately show ?thesis using parse False els by simp
  qed
qed

lemma parse_snoc: "parse (s @ '';'') = parse s"
  using trim_end_char_snoc [of "CHR '';''" s] by (simp add: parse_def)

section \<open>The streaming parser reads frames\<close>

definition decode_frame :: "string \<Rightarrow> (Instruction, ParseError) result" where
  "decode_frame f = (if utf8_valid f then parse f else Inl MalformedElement)"

lemma receive_loop_partial: "CHR '';'' \<notin> set s \<Longrightarrow> receive_loop s = ([], s)"
  by (subst receive_loop.simps) (simp add: split_once_None [THEN iffD2])

lemma receive_loop_frame:
  "CHR '';'' \<notin> set f \<Longrightarrow>
     receive_loop (f @ CHR '';'' # r) = (decode_frame f # fst (receive_loop r), snd (receive_loop r))"
  by (subst receive_loop.simps) (simp add: split_once_append decode_frame_def split: prod.splits)

interpretation instr_stream: framed_stream "CHR '';''" decode_frame receive_loop
  by unfold_locales (simp_all add: receive_loop_partial receive_loop_frame)

text \<open>The parser's invariant: a bounded buffer that holds no complete frame.\<close>

definition parser_inv :: "InstructionParser \<Rightarrow> bool" where
  "parser_inv p \<longleftrightarrow> CHR '';'' \<notin> set (buffer p) \<and> length (buffer p) \<le> MAX_PROTOCOL_BUFFER_LEN"

lemma receive_eq:
  "length (buffer p @ data) \<le> MAX_PROTOCOL_BUFFER_LEN \<Longrightarrow>
     receive p data =
       (fst (receive_loop (buffer p @ data)), p\<lparr>buffer := snd (receive_loop (buffer p @ data))\<rparr>)"
  by (simp add: receive_def split: prod.splits)

lemma receive_overflow:
  "MAX_PROTOCOL_BUFFER_LEN < length (buffer p @ data) \<Longrightarrow> receive p data = ([], p\<lparr>buffer := []\<rparr>)"
  by (simp add: receive_def)

lemma receive_parser_inv: "parser_inv (snd (receive p data))"
proof (cases "length (buffer p @ data) \<le> MAX_PROTOCOL_BUFFER_LEN")
  case True
  then show ?thesis
    using instr_stream.loop_rest_no_sep instr_stream.loop_rest_length [of "buffer p @ data"]
    by (simp add: receive_eq parser_inv_def)
next
  case False
  then show ?thesis by (simp add: receive_overflow parser_inv_def)
qed

lemma receive_append:
  assumes "length (buffer p @ a @ b) \<le> MAX_PROTOCOL_BUFFER_LEN"
  shows "receive p (a @ b) =
     (fst (receive p a) @ fst (receive (snd (receive p a)) b),
      snd (receive (snd (receive p a)) b))"
proof -
  let ?l = "receive_loop (buffer p @ a)"
  have a: "receive p a = (fst ?l, p\<lparr>buffer := snd ?l\<rparr>)"
    using assms by (intro receive_eq) simp
  have "length (snd ?l @ b) \<le> MAX_PROTOCOL_BUFFER_LEN"
    using assms instr_stream.loop_rest_length [of "buffer p @ a"] by simp
  then have b: "receive (p\<lparr>buffer := snd ?l\<rparr>) b =
      (fst (receive_loop (snd ?l @ b)), p\<lparr>buffer := snd (receive_loop (snd ?l @ b))\<rparr>)"
    by (subst receive_eq) simp_all
  from assms show ?thesis
    using instr_stream.loop_append [of "buffer p @ a" b] by (simp add: receive_eq a b)
qed

section \<open>The grammar of the wire\<close>

text \<open>
  What the scanner is to find, stated on its own: a character is a lead byte with as many
  bytes as it announces, an element is a decimal count, a dot and that many characters, an
  instruction is elements with commas between and a semicolon after, a stream is
  instructions one after the other.
\<close>

definition wire_char :: "string \<Rightarrow> bool" where
  "wire_char c \<longleftrightarrow> c \<noteq> [] \<and> \<not> is_cont (hd c) \<and> length c = utf8_width (byte (hd c))"

definition wire_element :: "string \<Rightarrow> bool" where
  "wire_element e \<longleftrightarrow>
     (\<exists>ds cs. e = ds @ CHR ''.'' # concat cs \<and> ds \<noteq> [] \<and> list_all is_ascii_digit ds \<and>
        dec_val 0 ds = length cs \<and> length cs \<le> usize_max \<and> list_all wire_char cs)"

inductive wire_instr :: "string \<Rightarrow> bool" where
  last: "wire_element e \<Longrightarrow> wire_instr (e @ [CHR '';''])"
| more: "wire_element e \<Longrightarrow> wire_instr i \<Longrightarrow> wire_instr (e @ CHR '','' # i)"

inductive wire_stream :: "string \<Rightarrow> bool" where
  nil: "wire_stream []"
| instr: "wire_instr i \<Longrightarrow> wire_stream s \<Longrightarrow> wire_stream (i @ s)"

lemma wire_char_utf8: "utf8_char c \<Longrightarrow> wire_char c"
  using utf8_char_head by (simp add: wire_char_def)

lemma skip_chars_wire:
  "list_all wire_char cs \<Longrightarrow> skip_chars (length cs) (concat cs @ r) = Some (length (concat cs), r)"
proof (induction cs)
  case (Cons c cs)
  then obtain x xs where c: "c = x # xs" "\<not> is_cont x" and w: "length c = utf8_width (byte x)"
    by (cases c) (auto simp: wire_char_def)
  have "drop (utf8_width (byte x)) (c @ concat cs @ r) = concat cs @ r"
    by (simp flip: w)
  with Cons c w show ?case
    by (auto simp: is_cont_def)
qed simp

lemma skip_chars_wireD:
  "skip_chars n s = Some (k, r) \<Longrightarrow>
     \<exists>cs. length cs = n \<and> list_all wire_char cs \<and> s = concat cs @ r \<and> k = length (concat cs)"
proof (induction n arbitrary: s k r)
  case (Suc n)
  from Suc.prems obtain c s' k' where s: "s = c # s'" and c: "\<not> is_cont c"
    and len: "utf8_width (byte c) \<le> length s"
    and sk: "skip_chars n (drop (utf8_width (byte c)) s) = Some (k', r)"
    and k: "k = utf8_width (byte c) + k'"
    by (rule skip_chars_SucE)
  from Suc.IH [OF sk] obtain cs where cs: "length cs = n" "list_all wire_char cs"
    "drop (utf8_width (byte c)) s = concat cs @ r" "k' = length (concat cs)" by blast
  let ?c = "take (utf8_width (byte c)) s"
  have hd: "hd ?c = c" using s by (cases "utf8_width (byte c)") (auto simp: utf8_width_def split: if_splits)
  moreover have "?c \<noteq> []" using s utf8_width_pos [of "byte c"] by (metis list.distinct(1) less_numeral_extra(3) take_eq_Nil)
  ultimately have "wire_char ?c" using c len by (simp add: wire_char_def)
  moreover have "s = concat (?c # cs) @ r" using cs(3) by (metis append_assoc append_take_drop_id concat.simps(2))
  ultimately show ?case using cs k len
    by (intro exI [of _ "?c # cs"]) auto
qed simp

lemma scan_element_wire:
  assumes "wire_element e" "c = CHR '','' \<or> c = CHR '';''"
  shows "scan_element (e @ c # r) = Some (length e, c, r)"
proof -
  from assms(1) obtain ds cs where e: "e = ds @ CHR ''.'' # concat cs" and ds: "ds \<noteq> []"
    "list_all is_ascii_digit ds" and val: "dec_val 0 ds = length cs" "length cs \<le> usize_max"
    and cs: "list_all wire_char cs"
    by (auto simp: wire_element_def)
  have tw: "takeWhile is_ascii_digit (ds @ CHR ''.'' # t) = ds"
    and dw: "dropWhile is_ascii_digit (ds @ CHR ''.'' # t) = CHR ''.'' # t" for t
    using ds by (simp_all add: list_all_iff takeWhile_append2 dropWhile_append2
        is_ascii_digit_def byte_simps)
  have "parse_unsigned usize_max ds = Some (length cs)"
    using ds val by (simp add: parse_unsigned_digits parse_digits_def)
  then show ?thesis
    using ds(1) assms(2) by (auto simp: scan_element_def e tw dw skip_chars_wire [OF cs])
qed

lemma scan_element_wireD:
  assumes "scan_element s = Some (k, c, r)"
  obtains e where "wire_element e" "s = e @ c # r" "length e = k" "c = CHR '','' \<or> c = CHR '';''"
proof -
  let ?ds = "takeWhile is_ascii_digit s" and ?r = "dropWhile is_ascii_digit s"
  from assms obtain len k' where ds: "?ds \<noteq> []" and ne: "?r \<noteq> []" "hd ?r = CHR ''.''"
    and len: "parse_unsigned usize_max ?ds = Some len"
    and sk: "skip_chars len (tl ?r) = Some (k', c # r)" and k: "k = length ?ds + 1 + k'"
    and c: "c = CHR '','' \<or> c = CHR '';''"
    by (auto simp: scan_element_def Let_def split: if_splits option.splits list.splits)
  from skip_chars_wireD [OF sk] obtain cs where cs: "length cs = len" "list_all wire_char cs"
    "tl ?r = concat cs @ c # r" "k' = length (concat cs)" by blast
  have dig: "list_all is_ascii_digit ?ds" by (auto simp: list_all_iff dest: set_takeWhileD)
  have "dec_val 0 ?ds = length cs \<and> length cs \<le> usize_max"
    using len dig cs(1) by (auto simp: parse_unsigned_digits parse_digits_def split: if_splits)
  with ds dig cs(2) have "wire_element (?ds @ CHR ''.'' # concat cs)"
    unfolding wire_element_def by blast
  moreover have "s = (?ds @ CHR ''.'' # concat cs) @ c # r"
    using ne cs(3) by (metis append.assoc append_Cons list.collapse takeWhile_dropWhile_id)
  ultimately show ?thesis using that [of "?ds @ CHR ''.'' # concat cs"] k cs(4) c by simp
qed

inductive_simps wire_stream_Nil [simp]: "wire_stream []"

lemma wire_instr_nonempty: "wire_instr i \<Longrightarrow> i \<noteq> []"
  by (induction rule: wire_instr.induct) auto

lemma wire_stream_nonemptyE:
  assumes "wire_stream p" "p \<noteq> []"
  obtains (comma) e q where "wire_element e" "p = e @ CHR '','' # q" "wire_stream q" "q \<noteq> []"
    | (semi) e q where "wire_element e" "p = e @ CHR '';'' # q" "wire_stream q"
proof -
  from assms obtain i t where p: "p = i @ t" and i: "wire_instr i" and t: "wire_stream t"
    by (cases rule: wire_stream.cases) auto
  from i show thesis
  proof (cases rule: wire_instr.cases)
    case (last e)
    with p t semi show ?thesis by simp
  next
    case (more e i')
    with p t have "wire_stream (i' @ t)" by (blast intro: wire_stream.instr)
    with more p wire_instr_nonempty comma show ?thesis by force
  qed
qed

lemma wire_stream_comma:
  assumes "wire_element e" "wire_stream q" "q \<noteq> []"
  shows "wire_stream (e @ CHR '','' # q)"
proof -
  from assms(2,3) obtain i t where q: "q = i @ t" "wire_instr i" "wire_stream t"
    by (cases rule: wire_stream.cases) auto
  with assms(1) have "wire_instr (e @ CHR '','' # i)" by (blast intro: wire_instr.more)
  from wire_stream.instr [OF this q(3)] q(1) show ?thesis by simp
qed

lemma wire_stream_semi:
  assumes "wire_element e" "wire_stream q"
  shows "wire_stream (e @ CHR '';'' # q)"
  using wire_stream.instr [OF wire_instr.last [OF assms(1)] assms(2)] by simp

text \<open>A non-empty stream starts with an element the scan finds, and no other.\<close>

lemma wire_prefix_scan:
  assumes "wire_stream p" "p \<noteq> []"
  obtains k c q where "scan_element (p @ t) = Some (k, c, q @ t)" "p = take k (p @ t) @ c # q"
    "wire_stream q" "c = CHR '','' \<and> q \<noteq> [] \<or> c = CHR '';''"
  using assms
proof (cases rule: wire_stream_nonemptyE)
  case (comma e q)
  then show ?thesis
    using that [of "length e" "CHR '',''" q] scan_element_wire [of e "CHR '',''" "q @ t"] by simp
next
  case (semi e q)
  then show ?thesis
    using that [of "length e" "CHR '';''" q] scan_element_wire [of e "CHR '';''" "q @ t"] by simp
qed

definition is_boundary :: "string \<Rightarrow> nat \<Rightarrow> bool" where
  "is_boundary s k \<longleftrightarrow> 0 < k \<and> k \<le> length s \<and> wire_stream (take k s)"

text \<open>The result of a scan: the last boundary of the suffix, else the one found before.\<close>

definition scan_result :: "nat \<Rightarrow> nat option \<Rightarrow> string \<Rightarrow> nat option \<Rightarrow> bool" where
  "scan_result pos last_end s res \<longleftrightarrow>
     (\<exists>k. is_boundary s k \<and> (\<forall>j. is_boundary s j \<longrightarrow> j \<le> k) \<and> res = Some (pos + k)) \<or>
     (\<forall>j. \<not> is_boundary s j) \<and> res = last_end"

lemma is_boundary_None:
  assumes "scan_element s = None"
  shows "\<not> is_boundary s j"
proof
  assume "is_boundary s j"
  then have "wire_stream (take j s)" "take j s \<noteq> []" by (auto simp: is_boundary_def)
  then show False
    by (rule wire_prefix_scan [where t = "drop j s"]) (use assms in simp)
qed

lemma is_boundary_comma:
  assumes "scan_element s = Some (k, CHR '','', r)"
  shows "is_boundary s j \<longleftrightarrow> k + 1 < j \<and> is_boundary r (j - (k + 1))"
proof -
  from assms obtain e where e: "wire_element e" "s = e @ CHR '','' # r" "length e = k"
    by (rule scan_element_wireD)
  show ?thesis
  proof
    assume b: "is_boundary s j"
    then have "wire_stream (take j s)" "take j s \<noteq> []" by (auto simp: is_boundary_def)
    then show "k + 1 < j \<and> is_boundary r (j - (k + 1))"
    proof (rule wire_prefix_scan [where t = "drop j s"])
      fix k' c q
      assume sc: "scan_element (take j s @ drop j s) = Some (k', c, q @ drop j s)"
        and tk: "take j s = take k' (take j s @ drop j s) @ c # q" and q: "wire_stream q"
        "c = CHR '','' \<and> q \<noteq> [] \<or> c = CHR '';''"
      from sc assms have [simp]: "k' = k" "c = CHR '',''" and r: "r = q @ drop j s" by simp_all
      from e have "take k s = e" by simp
      with tk have tk': "take j s = e @ CHR '','' # q" by simp
      then have "length (take j s) = k + 1 + length q" using e by simp
      moreover have "length (take j s) = j" using b by (simp add: is_boundary_def)
      ultimately have j: "j = k + 1 + length q" by simp
      with r q show ?thesis by (auto simp: is_boundary_def)
    qed
  next
    assume b: "k + 1 < j \<and> is_boundary r (j - (k + 1))"
    define m where "m = j - (k + 1)"
    with b have m: "j = Suc (k + m)" "0 < m" by auto
    with b have "m \<le> length r" "wire_stream (take m r)" by (simp_all add: is_boundary_def)
    moreover have "take j s = e @ CHR '','' # take m r" using e m by simp
    moreover have "take m r \<noteq> []" using m \<open>m \<le> length r\<close> by auto
    ultimately show "is_boundary s j"
      using wire_stream_comma [OF e(1)] e m by (simp add: is_boundary_def)
  qed
qed

lemma is_boundary_semi:
  assumes "scan_element s = Some (k, CHR '';'', r)"
  shows "is_boundary s j \<longleftrightarrow> j = k + 1 \<or> k + 1 < j \<and> is_boundary r (j - (k + 1))"
proof -
  from assms obtain e where e: "wire_element e" "s = e @ CHR '';'' # r" "length e = k"
    by (rule scan_element_wireD)
  show ?thesis
  proof
    assume b: "is_boundary s j"
    then have "wire_stream (take j s)" "take j s \<noteq> []" by (auto simp: is_boundary_def)
    then show "j = k + 1 \<or> k + 1 < j \<and> is_boundary r (j - (k + 1))"
    proof (rule wire_prefix_scan [where t = "drop j s"])
      fix k' c q
      assume sc: "scan_element (take j s @ drop j s) = Some (k', c, q @ drop j s)"
        and tk: "take j s = take k' (take j s @ drop j s) @ c # q" and q: "wire_stream q"
      from sc assms have [simp]: "k' = k" "c = CHR '';''" and r: "r = q @ drop j s" by simp_all
      from e have "take k s = e" by simp
      with tk have tk': "take j s = e @ CHR '';'' # q" by simp
      then have "length (take j s) = k + 1 + length q" using e by simp
      moreover have "length (take j s) = j" using b by (simp add: is_boundary_def)
      ultimately have j: "j = k + 1 + length q" by simp
      with r q show ?thesis by (cases q) (auto simp: is_boundary_def)
    qed
  next
    assume b: "j = k + 1 \<or> k + 1 < j \<and> is_boundary r (j - (k + 1))"
    define m where "m = j - (k + 1)"
    with b have m: "j = Suc (k + m)" "m = 0 \<or> is_boundary r m" by auto
    then have "m \<le> length r" "wire_stream (take m r)" by (auto simp: is_boundary_def)
    moreover have "take j s = e @ CHR '';'' # take m r" using e m by simp
    ultimately show "is_boundary s j"
      using wire_stream_semi [OF e(1)] e m by (simp add: is_boundary_def)
  qed
qed

lemma scan_result_comma:
  assumes sc: "scan_element s = Some (k, CHR '','', r)"
    and res: "scan_result (pos + k + 1) last_end r res"
  shows "scan_result pos last_end s res"
  using res unfolding scan_result_def [of "pos + k + 1"]
proof (elim disjE exE conjE)
  fix m
  assume m: "is_boundary r m" "\<forall>j. is_boundary r j \<longrightarrow> j \<le> m" "res = Some (pos + k + 1 + m)"
  then have "is_boundary s (m + (k + 1))" "\<forall>j. is_boundary s j \<longrightarrow> j \<le> m + (k + 1)"
    by (auto simp: is_boundary_comma [OF sc] is_boundary_def [of r m])
  with m(3) show ?thesis unfolding scan_result_def
    by (intro disjI1 exI [of _ "m + (k + 1)"]) simp
next
  assume "\<forall>j. \<not> is_boundary r j" "res = last_end"
  then show ?thesis by (simp add: scan_result_def is_boundary_comma [OF sc])
qed

lemma scan_result_semi:
  assumes sc: "scan_element s = Some (k, CHR '';'', r)"
    and res: "scan_result (pos + k + 1) (Some (pos + k + 1)) r res"
  shows "scan_result pos last_end s res"
  using res unfolding scan_result_def [of "pos + k + 1"]
proof (elim disjE exE conjE)
  fix m
  assume m: "is_boundary r m" "\<forall>j. is_boundary r j \<longrightarrow> j \<le> m" "res = Some (pos + k + 1 + m)"
  then have "is_boundary s (m + (k + 1))" "\<forall>j. is_boundary s j \<longrightarrow> j \<le> m + (k + 1)"
    by (auto simp: is_boundary_semi [OF sc] is_boundary_def [of r m])
  with m(3) show ?thesis unfolding scan_result_def
    by (intro disjI1 exI [of _ "m + (k + 1)"]) simp
next
  assume "\<forall>j. \<not> is_boundary r j" "res = Some (pos + k + 1)"
  then show ?thesis
    unfolding scan_result_def by (intro disjI1 exI [of _ "k + 1"]) (simp add: is_boundary_semi [OF sc])
qed

lemma full_scan_result: "scan_result pos last_end s (full_scan pos last_end s)"
proof (induction pos last_end s rule: full_scan.induct)
  case (1 pos last_end s)
  show ?case
  proof (cases "scan_element s")
    case None
    then show ?thesis
      by (subst full_scan.simps) (simp add: scan_result_def is_boundary_None)
  next
    case (Some a)
    obtain k c r where "a = (k, c, r)" by (cases a)
    with Some have sc: "scan_element s = Some (k, c, r)" by simp
    from sc have "c = CHR '','' \<or> c = CHR '';''" by (rule scan_element_wireD)
    then consider (comma) "c = CHR '',''" | (fin) "c = CHR '';''" "r = []"
      | (semi) "c = CHR '';''" "c \<noteq> CHR '',''" "r \<noteq> []" by auto
    then show ?thesis
    proof cases
      case comma
      have "full_scan pos last_end s = full_scan (pos + k + 1) last_end r"
        by (subst full_scan.simps) (simp add: sc comma)
      with 1(1) [OF sc refl refl comma] show ?thesis
        using scan_result_comma sc comma by simp
    next
      case fin
      have "full_scan pos last_end s = Some (pos + k + 1)"
        by (subst full_scan.simps) (simp add: sc fin)
      moreover have "scan_result (pos + k + 1) (Some (pos + k + 1)) r (Some (pos + k + 1))"
        using fin by (auto simp: scan_result_def is_boundary_def)
      ultimately show ?thesis using scan_result_semi sc fin by simp
    next
      case semi
      have "full_scan pos last_end s = full_scan (pos + k + 1) (Some (pos + k + 1)) r"
        by (subst full_scan.simps) (simp add: sc semi)
      with 1(2) [OF sc refl refl semi(2,3)] show ?thesis
        using scan_result_semi sc semi(1) by simp
    qed
  qed
qed

section \<open>The fast path agrees with the full scan\<close>

lemma skip_chars_ascii:
  "is_ascii s \<Longrightarrow> n \<le> length s \<Longrightarrow> skip_chars n s = Some (n, drop n s)"
proof (induction n arbitrary: s)
  case (Suc n)
  then obtain c s' where "s = c # s'" by (cases s) auto
  with Suc show ?case by (simp add: utf8_width_def)
qed simp

lemma is_ascii_dropWhile: "is_ascii s \<Longrightarrow> is_ascii (dropWhile P s)"
  by (auto simp: is_ascii_def list_all_iff dest: set_dropWhileD)

lemma is_ascii_tl: "is_ascii s \<Longrightarrow> is_ascii (tl s)"
  by (cases s) auto

lemma fast_scan_SomeE:
  assumes "fast_scan tot pos s = Some t"
  obtains ds r len c r' where "ds = takeWhile is_ascii_digit s" "r = dropWhile is_ascii_digit s"
    "\<not> (ds = [] \<or> r = [] \<or> hd r \<noteq> CHR ''.'')" "parse_unsigned usize_max ds = Some len"
    "\<not> usize_max < pos + length ds + 1 + len" "\<not> tot \<le> pos + length ds + 1 + len"
    "drop len (tl r) = c # r'" "c = CHR '','' \<or> c = CHR '';''"
    "if c = CHR '';'' \<and> pos + length ds + 1 + len + 1 = tot then t = tot
     else fast_scan tot (pos + length ds + 1 + len + 1) r' = Some t"
  using assms
  by (simp add: fast_scan.simps [of tot pos s] Let_def split: if_splits option.splits list.splits)

lemma fast_scan_full:
  assumes "fast_scan tot pos s = Some t" "is_ascii s" "tot = pos + length s"
  shows "t = tot \<and> full_scan pos last_end s = Some tot"
  using assms
proof (induction tot pos s arbitrary: last_end rule: fast_scan.induct)
  case (1 tot pos s)
  from 1(3) show ?case
  proof (rule fast_scan_SomeE)
    fix ds r len c r'
    assume ds: "ds = takeWhile is_ascii_digit s" and r: "r = dropWhile is_ascii_digit s"
      and hdr: "\<not> (ds = [] \<or> r = [] \<or> hd r \<noteq> CHR ''.'')"
      and len: "parse_unsigned usize_max ds = Some len"
      and le: "\<not> usize_max < pos + length ds + 1 + len" "\<not> tot \<le> pos + length ds + 1 + len"
      and dr: "drop len (tl r) = c # r'" and c: "c = CHR '','' \<or> c = CHR '';''"
      and rec: "if c = CHR '';'' \<and> pos + length ds + 1 + len + 1 = tot then t = tot
         else fast_scan tot (pos + length ds + 1 + len + 1) r' = Some t"
    let ?k = "length ds + 1 + len"
    have "len \<le> length (tl r)" using dr by (metis drop_all list.distinct(1) nle_le)
    then have "skip_chars len (tl r) = Some (len, c # r')"
      using 1(4) dr r by (simp add: skip_chars_ascii is_ascii_dropWhile is_ascii_tl)
    then have sc: "scan_element s = Some (?k, c, r')"
      using hdr len c ds r by (auto simp: scan_element_def Let_def)
    from scan_element_decomp [OF sc] have s: "s = take ?k s @ c # r'" and k: "?k < length s"
      by auto
    have "length s = ?k + 1 + length r'"
      using arg_cong [OF s, of length] k by simp
    then have tot: "tot = (pos + ?k + 1) + length r'" using 1(5) by simp
    have asc: "is_ascii r'" using 1(4) by (subst (asm) s) simp
    consider (fin) "c = CHR '';''" "pos + ?k + 1 = tot" | (comma) "c = CHR '',''"
      | (semi) "c = CHR '';''" "c \<noteq> CHR '',''" "pos + ?k + 1 \<noteq> tot" using c by force
    then show ?thesis
    proof cases
      case fin
      then have "r' = []" using tot by simp
      with fin sc rec show ?thesis by (subst full_scan.simps) (simp add: add.assoc)
    next
      case comma
      then have fs: "fast_scan tot (pos + length ds + 1 + len + 1) r' = Some t" using rec by simp
      have "t = tot \<and> full_scan (pos + length ds + 1 + len + 1) last_end r' = Some tot"
        by (rule 1(1) [OF ds r hdr len refl le dr comma fs asc]) (simp add: tot)
      with comma sc show ?thesis by (subst full_scan.simps) (simp add: add.assoc)
    next
      case semi
      then have fs: "fast_scan tot (pos + length ds + 1 + len + 1) r' = Some t"
        and ne: "pos + length ds + 1 + len + 1 \<noteq> tot" using rec by (simp_all add: add.assoc)
      have "t = tot \<and> full_scan (pos + length ds + 1 + len + 1) (Some (pos + ?k + 1)) r' = Some tot"
        by (rule 1(2) [OF ds r hdr len refl le dr semi(2,1) ne fs asc]) (simp add: tot)
      moreover have "r' \<noteq> []" using semi(3) tot by auto
      ultimately show ?thesis using semi sc by (subst full_scan.simps) (simp add: add.assoc)
    qed
  qed
qed

lemma last_instruction_boundary_full_scan:
  "last_instruction_boundary buf = full_scan 0 None buf"
proof (cases "is_ascii buf \<and> fast_instruction_boundary buf \<noteq> None")
  case True
  then show ?thesis
    using fast_scan_full [of "length buf" 0 buf _ None]
    by (auto simp: last_instruction_boundary_def fast_instruction_boundary_def)
next
  case False
  then show ?thesis by (auto simp: last_instruction_boundary_def)
qed

section \<open>Encoded instructions on the wire\<close>

lemma wire_element_encode: "wf_element e \<Longrightarrow> wire_element (encode_element e)"
  unfolding wire_element_def wf_element_def encode_element_def utf8_valid_def
  by (rule exI [of _ "show_nat (length (chars e))"], rule exI [of _ "chars e"])
    (auto simp: show_nat_digits dec_val_show_nat wire_char_utf8 elim: list.pred_mono_strong)

lemma wire_instr_join:
  "es \<noteq> [] \<Longrightarrow> list_all wf_element es \<Longrightarrow> wire_instr (join '','' (map encode_element es) @ '';'')"
proof (induction es)
  case (Cons e es)
  then show ?case
    using wire_instr.last wire_instr.more by (cases es) (auto simp: wire_element_encode)
qed simp

lemma wire_instr_encode: "wf_instruction i \<Longrightarrow> wire_instr (encode i)"
  by (simp add: encode_elements wire_instr_join wf_instruction_def)

lemma wire_stream_encode: "list_all wf_instruction is \<Longrightarrow> wire_stream (concat (map encode is))"
  by (induction "is") (auto intro: wire_stream.instr simp: wire_instr_encode)

lemma is_boundary_full: "is_boundary s (length s) \<Longrightarrow> full_scan 0 None s = Some (length s)"
  using full_scan_result [of 0 None s]
  by (auto simp: scan_result_def is_boundary_def)

lemma encode_nonempty [simp]: "encode i \<noteq> []"
  by (simp add: encode_def)

lemma encode_body: "encode i = butlast (encode i) @ [CHR '';'']"
  by (simp add: encode_elements butlast_append)

lemma semi_not_ascii_digit [simp]: "\<not> is_ascii_digit (CHR '';'')"
  using digit_not_separator(2) by blast

lemma frame_no_semi:
  assumes "list_all (\<lambda>e. CHR '';'' \<notin> set e) (elements i)"
  shows "CHR '';'' \<notin> set (butlast (encode i))"
proof -
  have "CHR '';'' \<notin> set (join '','' (map encode_element es))"
    if "list_all (\<lambda>e. CHR '';'' \<notin> set e) es" for es
    using that
  proof (induction es)
    case (Cons e es)
    then show ?case by (cases es) (auto simp: encode_element_def show_nat_free)
  qed simp
  with assms show ?thesis by (simp add: encode_elements butlast_append)
qed

lemma utf8_valid_encode_element: "utf8_valid e \<Longrightarrow> utf8_valid (encode_element e)"
proof -
  have "is_ascii (show_nat n @ ''.'')" for n
    using show_nat_digits [of n] by (auto simp: is_ascii_def list_all_iff is_ascii_digit_def byte_simps)
  then show "utf8_valid e \<Longrightarrow> utf8_valid (encode_element e)"
    using utf8_valid_append [OF utf8_valid_ascii, of "show_nat (length (chars e)) @ ''.''" e]
    by (simp add: encode_element_def)
qed

lemma utf8_valid_encode: "wf_instruction i \<Longrightarrow> utf8_valid (encode i)"
proof -
  have "utf8_valid (join '','' (map encode_element es))" if "list_all wf_element es" for es
    using that
  proof (induction es)
    case (Cons e es)
    then have "utf8_valid (encode_element e)"
      by (simp add: wf_element_def utf8_valid_encode_element)
    with Cons show ?case
      by (cases es) (simp_all add: utf8_valid_append utf8_valid_Cons_ascii byte_simps)
  qed simp
  then show "wf_instruction i \<Longrightarrow> utf8_valid (encode i)"
    by (simp add: encode_elements wf_instruction_def utf8_valid_append utf8_valid_Cons_ascii byte_simps)
qed

lemma decode_frame_encode:
  assumes "wf_instruction i" "list_all (\<lambda>e. CHR '';'' \<notin> set e) (elements i)"
  shows "decode_frame (butlast (encode i)) = Inr i"
proof -
  have "\<not> ends_with_semi (last (elements i))"
    using assms(2) by (metis elements_nonempty ends_with_semi_def last_in_set list_all_iff)
  then have "parse (encode i) = Inr i" using parse_encode_cases [OF assms(1)] by simp
  then have "parse (butlast (encode i)) = Inr i"
    using parse_snoc [of "butlast (encode i)"] encode_body [of i] by simp
  moreover have "utf8_valid (butlast (encode i))"
    using utf8_valid_encode [OF assms(1)] encode_body [of i]
      utf8_valid_split_ascii [of "butlast (encode i)" "CHR '';''" "[]"]
    by (simp add: byte_simps)
  ultimately show ?thesis by (simp add: decode_frame_def)
qed

lemma receive_parser_new:
  "length data \<le> MAX_PROTOCOL_BUFFER_LEN \<Longrightarrow>
     receive parser_new data = (fst (receive_loop data), \<lparr>buffer = snd (receive_loop data)\<rparr>)"
  using receive_eq [of parser_new data] by (simp add: parser_new_def)

lemma wf_element_ascii: "is_ascii e \<Longrightarrow> length e \<le> usize_max \<Longrightarrow> wf_element e"
  by (simp add: wf_element_def utf8_valid_ascii chars_ascii)

lemmas wf_literal = wf_instruction_def elements_def wf_element_ascii byte_def usize_max_def

section \<open>Properties\<close>

text \<open>
  Claim C5. Parsing an encoded instruction gives the instruction back, for every instruction
  whose elements are valid UTF-8 text, multi-byte characters included. The one exception is
  an instruction whose last element ends in a semicolon: \<open>Instruction::parse\<close> strips all
  trailing semicolons, so the last element comes out short and the parse fails with
  \<open>Truncated\<close>. No other error and no other instruction can come out.
\<close>

theorem parse_encode:
  assumes "wf_instruction i"
  shows "parse (encode i) =
     (if ends_with_semi (last (elements i)) then Inl Truncated else Inr i)"
  using assms by (rule parse_encode_cases)

theorem parse_encode_witness:
  "parse (encode \<lparr>opcode = ''size'', args = [''800'', ''600'']\<rparr>) =
     Inr \<lparr>opcode = ''size'', args = [''800'', ''600'']\<rparr>"
proof -
  have "wf_instruction \<lparr>opcode = ''size'', args = [''800'', ''600'']\<rparr>"
    by (simp add: wf_literal)
  from parse_encode [OF this] show ?thesis by (simp add: elements_def ends_with_semi_def)
qed

text \<open>
  Claim C4. \<open>last_instruction_boundary\<close> returns the offset just past the last complete
  instruction of the buffer, for every byte sequence: the offset is positive and within the
  buffer, the bytes before it are a sequence of complete instructions of the wire grammar,
  and no longer prefix is; it returns \<open>None\<close> exactly when no non-empty prefix is one.
  Semicolons inside element data therefore never count as boundaries.
\<close>

theorem last_instruction_boundary_correct:
  "case last_instruction_boundary buf of
     None \<Rightarrow> (\<nexists>k. 0 < k \<and> k \<le> length buf \<and> wire_stream (take k buf))
   | Some k \<Rightarrow> 0 < k \<and> k \<le> length buf \<and> wire_stream (take k buf) \<and>
       (\<nexists>j. k < j \<and> j \<le> length buf \<and> wire_stream (take j buf))"
proof -
  have "(\<exists>k. is_boundary buf k \<and> (\<forall>j. is_boundary buf j \<longrightarrow> j \<le> k) \<and>
      last_instruction_boundary buf = Some k) \<or>
    (\<forall>j. \<not> is_boundary buf j) \<and> last_instruction_boundary buf = None"
    using full_scan_result [of 0 None buf]
    by (simp add: scan_result_def last_instruction_boundary_full_scan)
  then show ?thesis
  proof (elim disjE exE conjE)
    fix k
    assume k: "is_boundary buf k" "\<forall>j. is_boundary buf j \<longrightarrow> j \<le> k"
      "last_instruction_boundary buf = Some k"
    have "\<not> (j \<le> length buf \<and> wire_stream (take j buf))" if "k < j" for j
      using k(2) [rule_format, of j] that by (auto simp: is_boundary_def)
    then have "\<nexists>j. k < j \<and> j \<le> length buf \<and> wire_stream (take j buf)" by blast
    with k(1,3) show ?thesis by (simp add: is_boundary_def)
  next
    assume "\<forall>j. \<not> is_boundary buf j" "last_instruction_boundary buf = None"
    then show ?thesis by (simp add: is_boundary_def)
  qed
qed

text \<open>
  The fast path of \<open>last_instruction_boundary\<close> (small, pure ASCII buffers that end
  in a semicolon) never changes its answer: on every buffer the function agrees with the
  byte-by-byte scan alone.
\<close>

theorem fast_path_equivalent:
  "last_instruction_boundary buf = full_scan 0 None buf"
  by (rule last_instruction_boundary_full_scan)

text \<open>
  A buffer made of encoded instructions is recognised as complete up to its last
  byte, whatever the elements contain: the proxy never holds back or splits a complete
  instruction, even one with semicolons in its data.
\<close>

theorem boundary_of_encoded:
  assumes "list_all wf_instruction is" "is \<noteq> []"
  shows "last_instruction_boundary (concat (map encode is)) = Some (length (concat (map encode is)))"
proof -
  have "concat (map encode is) \<noteq> []" using assms(2) by (cases "is") auto
  then have "is_boundary (concat (map encode is)) (length (concat (map encode is)))"
    using wire_stream_encode [OF assms(1)] by (simp add: is_boundary_def)
  then show ?thesis
    by (simp only: last_instruction_boundary_full_scan is_boundary_full)
qed

theorem boundary_of_encoded_witness:
  "last_instruction_boundary (concat (map encode [\<lparr>opcode = ''key'', args = ['';;'']\<rparr>])) = Some 11"
proof -
  have "list_all wf_instruction [\<lparr>opcode = ''key'', args = ['';;'']\<rparr>]" by (simp add: wf_literal)
  moreover have "encode \<lparr>opcode = ''key'', args = ['';;'']\<rparr> = ''3.key,2.;;;''" by code_simp
  ultimately show ?thesis using boundary_of_encoded [of "[\<lparr>opcode = ''key'', args = ['';;'']\<rparr>]"] by simp
qed

text \<open>
  Claim C6. The streaming parser does not depend on how the peer's data is cut into reads:
  feeding two chunks one after the other gives the same instructions, in the same order, and
  the same parser state as feeding their concatenation, as long as the buffer limit is not
  exceeded.
\<close>

theorem receive_chunking:
  assumes "length (buffer p @ a @ b) \<le> MAX_PROTOCOL_BUFFER_LEN"
  shows "receive p (a @ b) =
     (fst (receive p a) @ fst (receive (snd (receive p a)) b),
      snd (receive (snd (receive p a)) b))"
  using assms by (rule receive_append)

theorem receive_chunking_witness:
  "receive parser_new ''3.nop;'' =
     (fst (receive parser_new ''3.n'') @ fst (receive (snd (receive parser_new ''3.n'')) ''op;''),
      snd (receive (snd (receive parser_new ''3.n'')) ''op;''))"
  using receive_chunking [of parser_new "''3.n''" "''op;''"]
  by (simp add: parser_new_def MAX_PROTOCOL_BUFFER_LEN_def)

text \<open>
  The streaming parser keeps its memory bounded and never leaves a complete frame
  behind: whatever state it is in and whatever arrives, after \<open>receive\<close> the buffer is at most
  1 MiB and holds no semicolon.
\<close>

theorem receive_bounded:
  "length (buffer (snd (receive p data))) \<le> 1048576 \<and>
     CHR '';'' \<notin> set (buffer (snd (receive p data)))"
  using receive_parser_inv [of p data] by (simp add: parser_inv_def MAX_PROTOCOL_BUFFER_LEN_def)

text \<open>
  Encoded instructions whose elements contain no semicolon are received exactly:
  a fresh parser fed their concatenation yields those instructions, in order and without an
  error, and keeps an empty buffer.
\<close>

theorem receive_encoded:
  assumes "list_all wf_instruction is"
    and "list_all (\<lambda>i. list_all (\<lambda>e. CHR '';'' \<notin> set e) (elements i)) is"
    and "length (concat (map encode is)) \<le> MAX_PROTOCOL_BUFFER_LEN"
  shows "receive parser_new (concat (map encode is)) = (map Inr is, parser_new)"
proof -
  have enc: "concat (map encode is) = concat (map (\<lambda>f. f @ [CHR '';'']) (map (\<lambda>i. butlast (encode i)) is))"
    by (simp add: comp_def encode_body [symmetric])
  have "receive_loop (concat (map encode is)) = (map decode_frame (map (\<lambda>i. butlast (encode i)) is), [])"
    unfolding enc using assms(2)
    by (intro instr_stream.loop_frames) (auto simp: list_all_iff frame_no_semi)
  moreover have "map decode_frame (map (\<lambda>i. butlast (encode i)) is) = map Inr is"
    using assms(1,2) by (auto simp: list_all_iff decode_frame_encode)
  ultimately show ?thesis
    using receive_parser_new [OF assms(3)] by (simp only: fst_conv snd_conv) (simp add: parser_new_def)
qed

theorem receive_encoded_witness:
  "receive parser_new (concat (map encode [\<lparr>opcode = ''nop'', args = []\<rparr>])) =
     ([Inr \<lparr>opcode = ''nop'', args = []\<rparr>], parser_new)"
proof -
  have "encode \<lparr>opcode = ''nop'', args = []\<rparr> = ''3.nop;''" by code_simp
  then have "list_all wf_instruction [\<lparr>opcode = ''nop'', args = []\<rparr>]"
    "list_all (\<lambda>i. list_all (\<lambda>e. CHR '';'' \<notin> set e) (elements i)) [\<lparr>opcode = ''nop'', args = []\<rparr>]"
    "length (concat (map encode [\<lparr>opcode = ''nop'', args = []\<rparr>])) \<le> MAX_PROTOCOL_BUFFER_LEN"
    by (simp_all add: wf_literal MAX_PROTOCOL_BUFFER_LEN_def)
  from receive_encoded [OF this] show ?thesis by simp
qed

section \<open>Where the two readers of the stream differ\<close>

text \<open>
  \<open>InstructionParser::receive\<close> cuts its buffer at every semicolon, while
  \<open>last_instruction_boundary\<close> honours the length prefixes. On an instruction with a
  semicolon inside its data they disagree: the scanner sees one complete instruction, the
  parser sees two frames and fails on both.
\<close>

lemma receive_splits_data_semicolon:
  "receive parser_new (encode \<lparr>opcode = ''a'', args = [''x;y'']\<rparr>) =
     ([Inl Truncated, Inl MalformedElement], parser_new)"
  "full_scan 0 None (encode \<lparr>opcode = ''a'', args = [''x;y'']\<rparr>) = Some 10"
proof -
  have "(receive parser_new (encode \<lparr>opcode = ''a'', args = [''x;y'']\<rparr>) =
     ([Inl Truncated, Inl MalformedElement], parser_new)) \<and>
       (full_scan 0 None (encode \<lparr>opcode = ''a'', args = [''x;y'']\<rparr>) = Some 10)"
    by code_simp
  then show "receive parser_new (encode \<lparr>opcode = ''a'', args = [''x;y'']\<rparr>) =
     ([Inl Truncated, Inl MalformedElement], parser_new)" "full_scan 0 None (encode \<lparr>opcode = ''a'', args = [''x;y'']\<rparr>) = Some 10"
    by blast+
qed

text \<open>
  The scanner advances by the width that a lead byte announces and does not look at the
  continuation bytes, so a complete instruction in its sense need not be valid UTF-8.
\<close>

lemma boundary_accepts_invalid_utf8:
  "full_scan 0 None [CHR ''1'', CHR ''.'', CHR 0xC3, CHR ''A'', CHR '';''] = Some 5"
  "\<not> utf8_valid [CHR ''1'', CHR ''.'', CHR 0xC3, CHR ''A'', CHR '';'']"
proof -
  have "(full_scan 0 None [CHR ''1'', CHR ''.'', CHR 0xC3, CHR ''A'', CHR '';''] = Some 5) \<and>
       (\<not> utf8_valid [CHR ''1'', CHR ''.'', CHR 0xC3, CHR ''A'', CHR '';''])"
    by code_simp
  then show "full_scan 0 None [CHR ''1'', CHR ''.'', CHR 0xC3, CHR ''A'', CHR '';''] = Some 5" "\<not> utf8_valid [CHR ''1'', CHR ''.'', CHR 0xC3, CHR ''A'', CHR '';'']"
    by blast+
qed

end
