(* ===== verification/Guacd.thy ===== *)
theory Guacd
  imports Protocol
begin

text \<open>
  The client side of the \<open>guacd\<close> connection (\<open>src/src/guacd.rs\<close>): the connection parameters
  of the four protocols, the tables that answer the \<open>args\<close> instruction, the handshake of a
  new connection and of a join, and the classification of \<open>guacd\<close>'s errors.

  \<open>guacd\<close> itself is the peer at the other end of a \<open>GuacdStream\<close>: what it will deliver is the
  list \<open>inbox\<close> of read events, what has been written to it is \<open>outbox\<close>, and the outcomes of
  the writes are the list \<open>write_results\<close> (\<open>Some e\<close> fails with message \<open>e\<close>; the writes after
  the end of the list succeed). An operation that waits for a peer that stays silent never
  returns: such operations give an option, and \<open>None\<close> is that they do not return.
  The TCP connect and the TLS library are arguments.
\<close>

section \<open>Messages\<close>

text \<open>Display of a parse error.\<close>

fun show_parse_error :: "ParseError \<Rightarrow> string" where
  "show_parse_error Empty = ''empty instruction''"
| "show_parse_error MalformedElement = ''malformed element (missing '' @ [CHR 0x27] @ ''.'' @ [CHR 0x27] @ '')''"
| "show_parse_error InvalidLength = ''invalid length prefix''"
| "show_parse_error Truncated = ''instruction truncated''"
| "show_parse_error UnexpectedChar = ''unexpected character in instruction''"

text \<open>
  The formatting of the standard library that depends on its Unicode tables or on the
  internals of its error type is a pair of arguments: the \<open>Debug\<close> form of a character outside
  ASCII, and the \<open>Display\<close> form of the UTF-8 error of a byte sequence.
\<close>

record Formatting =
  fmt_debug_char :: "string \<Rightarrow> string"
  fmt_utf8_error :: "string \<Rightarrow> string"

definition hex_digit :: "nat \<Rightarrow> char" where
  "hex_digit n = (if n < 10 then char_of (48 + n) else char_of (87 + n))"

text \<open>\<open>Debug\<close> of a string: quoted, with the escapes of \<open>char::escape_debug\<close>.\<close>

definition debug_char :: "Formatting \<Rightarrow> string \<Rightarrow> string" where
  "debug_char fm ch =
     (case ch of
        [c] \<Rightarrow>
          (if byte c = 0 then [CHR 0x5C, CHR ''0'']
           else if byte c = 9 then [CHR 0x5C, CHR ''t'']
           else if byte c = 10 then [CHR 0x5C, CHR ''n'']
           else if byte c = 13 then [CHR 0x5C, CHR ''r'']
           else if byte c = 34 \<or> byte c = 92 then [CHR 0x5C, c]
           else if byte c < 16 then [CHR 0x5C] @ ''u{'' @ [hex_digit (byte c)] @ ''}''
           else if byte c < 32 \<or> byte c = 127
             then [CHR 0x5C] @ ''u{'' @ [hex_digit (byte c div 16), hex_digit (byte c mod 16)] @ ''}''
           else if byte c < 128 then [c] else fmt_debug_char fm ch)
      | _ \<Rightarrow> fmt_debug_char fm ch)"

definition debug_str :: "Formatting \<Rightarrow> string \<Rightarrow> string" where
  "debug_str fm s = [CHR 0x22] @ concat (map (debug_char fm) (chars s)) @ [CHR 0x22]"

definition debug_strs :: "Formatting \<Rightarrow> string list \<Rightarrow> string" where
  "debug_strs fm ss = ''['' @ join '', '' (map (debug_str fm) ss) @ '']''"

definition quoted :: "string \<Rightarrow> string" where
  "quoted s = [CHR 0x27] @ s @ [CHR 0x27]"

definition show_bool :: "bool \<Rightarrow> string" where
  "show_bool b = (if b then ''true'' else ''false'')"

definition show_word :: "'a::len word \<Rightarrow> string" where
  "show_word w = show_nat (unat w)"

abbreviation or_default :: "string option \<Rightarrow> string" where
  "or_default \<equiv> case_option [] (\<lambda>s. s)"

section \<open>Connection parameters\<close>

record SshParams =
  ssh_hostname :: string
  ssh_port :: "16 word"
  ssh_username :: string
  ssh_password :: "string option"
  ssh_private_key :: "string option"
  ssh_width :: "32 word"
  ssh_height :: "32 word"
  ssh_dpi :: "32 word"
  ssh_enable_sftp :: bool
  ssh_sftp_disable_download :: bool
  ssh_sftp_disable_upload :: bool
  ssh_disable_copy :: bool
  ssh_disable_paste :: bool
  ssh_scrollback :: "32 word"
  ssh_typescript_path :: "string option"
  ssh_typescript_name :: "string option"
  ssh_create_typescript_path :: bool
  ssh_command :: "string option"

record VncParams =
  vnc_hostname :: string
  vnc_port :: "16 word"
  vnc_password :: "string option"
  vnc_color_depth :: "8 word option"
  vnc_width :: "32 word"
  vnc_height :: "32 word"
  vnc_dpi :: "32 word"
  vnc_disable_copy :: bool
  vnc_disable_paste :: bool

record SpiceParams =
  spice_hostname :: string
  spice_port :: "16 word"
  spice_password :: "string option"
  spice_username :: "string option"
  spice_tls :: bool
  spice_tls_port :: "16 word option"
  spice_ca_cert :: "string option"
  spice_cert_subject :: "string option"
  spice_ignore_cert :: bool
  spice_proxy :: "string option"
  spice_color_depth :: "8 word option"
  spice_width :: "32 word"
  spice_height :: "32 word"
  spice_dpi :: "32 word"
  spice_disable_copy :: bool
  spice_disable_paste :: bool
  spice_enable_audio :: bool
  spice_secondary_monitors :: "32 word"

record RdpParams =
  rdp_hostname :: string
  rdp_port :: "16 word"
  rdp_username :: string
  rdp_password :: "string option"
  rdp_domain :: "string option"
  rdp_security :: "string option"
  rdp_width :: "32 word"
  rdp_height :: "32 word"
  rdp_dpi :: "32 word"
  rdp_ignore_cert :: bool
  rdp_enable_drive :: bool
  rdp_drive_path :: "string option"
  rdp_drive_name :: string
  rdp_disable_download :: bool
  rdp_disable_upload :: bool
  rdp_auth_pkg :: "string option"
  rdp_kdc_url :: "string option"
  rdp_kerberos_cache :: "string option"
  rdp_remote_app :: "string option"
  rdp_remote_app_dir :: "string option"
  rdp_remote_app_args :: "string option"
  rdp_disable_copy :: bool
  rdp_disable_paste :: bool
  rdp_enable_gfx :: bool
  rdp_enable_desktop_composition :: bool
  rdp_enable_wallpaper :: bool
  rdp_enable_theming :: bool
  rdp_enable_full_window_drag :: bool
  rdp_force_lossless :: bool
  rdp_enable_h264 :: bool
  rdp_secondary_monitors :: "32 word"
  rdp_client_name :: "string option"

datatype ConnectionParams =
  Ssh SshParams | Vnc VncParams | Rdp RdpParams | Spice SpiceParams

section \<open>Answers to the args instruction\<close>

text \<open>
  The four match expressions of \<open>connect_and_handshake\<close> as tables from the name of a
  parameter to its value. A name that is in no table is answered with the empty string.
\<close>

definition ssh_args :: "SshParams \<Rightarrow> (string \<times> string) list" where
  "ssh_args p =
    [(''hostname'', ssh_hostname p),
     (''port'', show_word (ssh_port p)),
     (''username'', ssh_username p),
     (''password'', or_default (ssh_password p)),
     (''private-key'', or_default (ssh_private_key p)),
     (''width'', show_word (ssh_width p)),
     (''height'', show_word (ssh_height p)),
     (''dpi'', show_word (ssh_dpi p)),
     (''color-scheme'', ''gray-black''),
     (''font-size'', ''12''),
     (''font-name'', ''monospace''),
     (''terminal-type'', ''xterm-256color''),
     (''scrollback'', show_word (ssh_scrollback p)),
     (''backspace'', ''127''),
     (''enable-sftp'', show_bool (ssh_enable_sftp p)),
     (''sftp-disable-download'', show_bool (ssh_sftp_disable_download p)),
     (''sftp-disable-upload'', show_bool (ssh_sftp_disable_upload p)),
     (''disable-copy'', show_bool (ssh_disable_copy p)),
     (''disable-paste'', show_bool (ssh_disable_paste p)),
     (''read-only'', ''false''),
     (''locale'', ''en_US.UTF-8''),
     (''server-alive-interval'', ''0''),
     (''command'', or_default (ssh_command p)),
     (''typescript-path'', or_default (ssh_typescript_path p)),
     (''typescript-name'', or_default (ssh_typescript_name p)),
     (''create-typescript-path'', show_bool (ssh_create_typescript_path p))]"

definition vnc_args :: "VncParams \<Rightarrow> (string \<times> string) list" where
  "vnc_args p =
    [(''hostname'', vnc_hostname p),
     (''port'', show_word (vnc_port p)),
     (''width'', show_word (vnc_width p)),
     (''height'', show_word (vnc_height p)),
     (''dpi'', show_word (vnc_dpi p)),
     (''password'', or_default (vnc_password p)),
     (''color-depth'', case_option ''24'' show_word (vnc_color_depth p)),
     (''cursor'', ''local''),
     (''read-only'', ''false''),
     (''swap-red-blue'', ''false''),
     (''dest-host'', []),
     (''dest-port'', []),
     (''enable-audio'', ''false''),
     (''disable-copy'', show_bool (vnc_disable_copy p)),
     (''disable-paste'', show_bool (vnc_disable_paste p))]"

definition rdp_args :: "RdpParams \<Rightarrow> (string \<times> string) list" where
  "rdp_args p =
    [(''hostname'', rdp_hostname p),
     (''port'', show_word (rdp_port p)),
     (''username'', rdp_username p),
     (''password'', or_default (rdp_password p)),
     (''domain'', or_default (rdp_domain p)),
     (''client-name'', or_default (rdp_client_name p)),
     (''security'', case_option ''any'' (\<lambda>s. s) (rdp_security p)),
     (''width'', show_word (rdp_width p)),
     (''height'', show_word (rdp_height p)),
     (''dpi'', show_word (rdp_dpi p)),
     (''color-depth'', ''32''),
     (''ignore-cert'', show_bool (rdp_ignore_cert p)),
     (''disable-auth'', ''false''),
     (''cursor'', ''local''),
     (''enable-wallpaper'', show_bool (rdp_enable_wallpaper p)),
     (''enable-theming'', show_bool (rdp_enable_theming p)),
     (''enable-font-smoothing'', ''true''),
     (''enable-full-window-drag'', show_bool (rdp_enable_full_window_drag p)),
     (''enable-desktop-composition'', show_bool (rdp_enable_desktop_composition p)),
     (''enable-menu-animations'', ''false''),
     (''disable-bitmap-caching'', ''false''),
     (''disable-offscreen-caching'', ''false''),
     (''resize-method'', ''display-update''),
     (''secondary-monitors'', show_word (rdp_secondary_monitors p)),
     (''read-only'', ''false''),
     (''gateway-hostname'', []),
     (''gateway-port'', []),
     (''gateway-domain'', []),
     (''gateway-username'', []),
     (''gateway-password'', []),
     (''disable-copy'', show_bool (rdp_disable_copy p)),
     (''disable-paste'', show_bool (rdp_disable_paste p)),
     (''console'', ''false''),
     (''server-layout'', []),
     (''timezone'', []),
     (''disable-audio'', ''false''),
     (''enable-audio-input'', ''false''),
     (''enable-printing'', ''false''),
     (''enable-drive'', show_bool (rdp_enable_drive p)),
     (''drive-path'', or_default (rdp_drive_path p)),
     (''create-drive-path'', show_bool (rdp_enable_drive p)),
     (''drive-name'', rdp_drive_name p),
     (''disable-download'', show_bool (rdp_disable_download p)),
     (''disable-upload'', show_bool (rdp_disable_upload p)),
     (''auth-pkg'', or_default (rdp_auth_pkg p)),
     (''kdc-url'', or_default (rdp_kdc_url p)),
     (''kerberos-cache'', or_default (rdp_kerberos_cache p)),
     (''disable-gfx'', show_bool (\<not> rdp_enable_gfx p)),
     (''force-lossless'', show_bool (rdp_force_lossless p)),
     (''enable-h264'', show_bool (rdp_enable_h264 p)),
     (''remote-app'', or_default (rdp_remote_app p)),
     (''remote-app-dir'', or_default (rdp_remote_app_dir p)),
     (''remote-app-args'', or_default (rdp_remote_app_args p))]"

definition spice_args :: "SpiceParams \<Rightarrow> (string \<times> string) list" where
  "spice_args p =
    [(''hostname'', spice_hostname p),
     (''port'', if spice_tls p then [] else show_word (spice_port p)),
     (''username'', or_default (spice_username p)),
     (''password'', or_default (spice_password p)),
     (''tls'', show_bool (spice_tls p)),
     (''tls-port'', case_option [] show_word (spice_tls_port p)),
     (''ca-cert'', or_default (spice_ca_cert p)),
     (''cert-subject'', or_default (spice_cert_subject p)),
     (''ignore-cert'', show_bool (spice_ignore_cert p)),
     (''proxy'', or_default (spice_proxy p)),
     (''color-depth'', case_option ''24'' show_word (spice_color_depth p)),
     (''read-only'', ''false''),
     (''swap-red-blue'', ''false''),
     (''enable-audio'', show_bool (spice_enable_audio p)),
     (''disable-copy'', show_bool (spice_disable_copy p)),
     (''disable-paste'', show_bool (spice_disable_paste p)),
     (''secondary-monitors'', show_word (spice_secondary_monitors p))]"

fun arg_table :: "ConnectionParams \<Rightarrow> (string \<times> string) list" where
  "arg_table (Ssh p) = ssh_args p"
| "arg_table (Vnc p) = vnc_args p"
| "arg_table (Rdp p) = rdp_args p"
| "arg_table (Spice p) = spice_args p"

definition arg_value :: "ConnectionParams \<Rightarrow> string \<Rightarrow> string" where
  "arg_value params name = or_default (map_of (arg_table params) name)"

definition arg_values :: "ConnectionParams \<Rightarrow> string list \<Rightarrow> string list" where
  "arg_values params names = map (arg_value params) names"

definition join_arg_values :: "string list \<Rightarrow> bool \<Rightarrow> string list" where
  "join_arg_values names read_only =
     map (\<lambda>name. if name = ''read-only'' then show_bool read_only else []) names"

section \<open>Errors\<close>

datatype GuacdStatus = ClientUnauthorized | SessionTimeout | Other int

datatype GuacdError =
    Connection string
  | Io string
  | Protocol string
  | ErrorInstruction string "GuacdStatus option"

fun show_guacd_error :: "GuacdError \<Rightarrow> string" where
  "show_guacd_error (Connection msg) = ''connection error: '' @ msg"
| "show_guacd_error (Io msg) = ''I/O error: '' @ msg"
| "show_guacd_error (Protocol msg) = ''protocol error: '' @ msg"
| "show_guacd_error (ErrorInstruction message status) = ''protocol error: '' @ message"

definition status_from_code :: "int \<Rightarrow> GuacdStatus" where
  "status_from_code code =
     (if code = 0x0301 then ClientUnauthorized
      else if code = 0x020A then SessionTimeout else Other code)"

fun status_code :: "GuacdStatus \<Rightarrow> int" where
  "status_code ClientUnauthorized = 0x0301"
| "status_code SessionTimeout = 0x020A"
| "status_code (Other code) = code"

definition status_parse :: "string \<Rightarrow> GuacdStatus option" where
  "status_parse arg = map_option status_from_code (parse_signed 64 arg)"

definition unexpected_instruction_parts ::
    "Formatting \<Rightarrow> string \<Rightarrow> Instruction \<Rightarrow> string \<times> GuacdStatus option" where
  "unexpected_instruction_parts fm ctxt i =
     (ctxt @ '', got '' @ quoted (opcode i) @ '' (args: '' @ debug_strs fm (args i) @ '')'',
      if opcode i = ''error''
      then (if 1 < length (args i) then status_parse (args i ! 1) else None)
      else None)"

definition unexpected_instruction_error :: "Formatting \<Rightarrow> string \<Rightarrow> Instruction \<Rightarrow> GuacdError" where
  "unexpected_instruction_error fm ctxt i =
     (let (message, status) = unexpected_instruction_parts fm ctxt i
      in case status of
           Some st \<Rightarrow> ErrorInstruction message (Some st)
         | None \<Rightarrow> if opcode i = ''error'' then ErrorInstruction message None else Protocol message)"

section \<open>The stream to guacd\<close>

datatype ReadEvent = ReadOk string | ReadErr string

record GuacdStream =
  inbox :: "ReadEvent list"
  outbox :: string
  write_results :: "(nat \<times> string) option list"

text \<open>An operation on the stream: its result and the stream after it, if it returns.\<close>

type_synonym 'a io = "GuacdStream \<Rightarrow> (('a, GuacdError) result \<times> GuacdStream) option"

definition return_io :: "'a \<Rightarrow> 'a io" where
  "return_io x s = Some (Inr x, s)"

definition fail_io :: "GuacdError \<Rightarrow> 'a io" where
  "fail_io e s = Some (Inl e, s)"

text \<open>Sequencing with the question mark operator: the first error is the result.\<close>

definition bind_io :: "'a io \<Rightarrow> ('a \<Rightarrow> 'b io) \<Rightarrow> 'b io" where
  "bind_io m f s =
     (case m s of
        None \<Rightarrow> None
      | Some (Inl e, s') \<Rightarrow> Some (Inl e, s')
      | Some (Inr x, s') \<Rightarrow> f x s')"

text \<open>
  \<open>write_all\<close>: all bytes are written, or a prefix of them and the write fails.
\<close>

definition write_all :: "string \<Rightarrow> unit io" where
  "write_all b s =
     (case write_results s of
        [] \<Rightarrow> Some (Inr (), s\<lparr>outbox := outbox s @ b\<rparr>)
      | None # ws \<Rightarrow> Some (Inr (), s\<lparr>outbox := outbox s @ b, write_results := ws\<rparr>)
      | Some (n, e) # ws \<Rightarrow>
          Some (Inl (Io e), s\<lparr>outbox := outbox s @ take n b, write_results := ws\<rparr>))"

text \<open>A read into a buffer of \<open>n\<close> bytes; an empty result is the end of the stream.\<close>

definition read_buf :: "nat \<Rightarrow> GuacdStream \<Rightarrow> ((string, string) result \<times> GuacdStream) option" where
  "read_buf n s =
     (case inbox s of
        [] \<Rightarrow> None
      | ReadErr e # evs \<Rightarrow> Some (Inl e, s\<lparr>inbox := evs\<rparr>)
      | ReadOk d # evs \<Rightarrow>
          if length d \<le> n then Some (Inr d, s\<lparr>inbox := evs\<rparr>)
          else Some (Inr (take n d), s\<lparr>inbox := ReadOk (drop n d) # evs\<rparr>))"

fun event_size :: "ReadEvent \<Rightarrow> nat" where
  "event_size (ReadOk d) = Suc (length d)"
| "event_size (ReadErr e) = 1"

lemma read_buf_smaller:
  "read_buf n s = Some (Inr d, s') \<Longrightarrow> 0 < n \<Longrightarrow>
     sum_list (map event_size (inbox s')) < sum_list (map event_size (inbox s))"
  by (auto simp: read_buf_def split: list.splits ReadEvent.splits if_splits)

text \<open>
  \<open>read_instruction\<close>: read 4096 bytes at a time into a parser of its own until the first
  instruction is complete. Whatever else the parser holds then is dropped with it.
\<close>

function read_instruction_loop ::
    "Formatting \<Rightarrow> InstructionParser \<Rightarrow> Instruction io" where
  "read_instruction_loop fm parser s =
     (case read_buf 4096 s of
        None \<Rightarrow> None
      | Some (Inl e, s') \<Rightarrow> Some (Inl (Io e), s')
      | Some (Inr d, s') \<Rightarrow>
          if d = [] then Some (Inl (Connection ''guacd closed connection''), s')
          else if \<not> utf8_valid d
            then Some (Inl (Protocol (''Invalid UTF-8 from guacd: '' @ fmt_utf8_error fm d)), s')
          else (case receive parser d of
                  ([], parser') \<Rightarrow> read_instruction_loop fm parser' s'
                | (Inl e # _, _) \<Rightarrow> Some (Inl (Protocol (show_parse_error e)), s')
                | (Inr i # _, _) \<Rightarrow> Some (Inr i, s')))"
  by pat_completeness auto
termination
  by (relation "measure (\<lambda>(fm, p, s). sum_list (map event_size (inbox s)))")
    (auto simp: read_buf_smaller)

declare read_instruction_loop.simps [simp del]

definition read_instruction :: "Formatting \<Rightarrow> Instruction io" where
  "read_instruction fm = read_instruction_loop fm parser_new"

section \<open>The handshake\<close>

definition handshake_instructions ::
    "32 word \<Rightarrow> 32 word \<Rightarrow> 32 word \<Rightarrow> bool \<Rightarrow> Instruction list" where
  "handshake_instructions width height dpi enable_h264 =
    [instruction_new ''size'' [show_word width, show_word height, show_word dpi],
     instruction_new ''audio'' [''audio/L16'', ''audio/L8''],
     instruction_new ''video'' (if enable_h264 then [''video/h264''] else []),
     instruction_new ''image'' [''image/png'', ''image/jpeg'', ''image/webp''],
     instruction_new ''timezone'' [''Australia/Brisbane'']]"

fun write_instructions :: "Instruction list \<Rightarrow> unit io" where
  "write_instructions [] = return_io ()"
| "write_instructions (i # is) = bind_io (write_all (encode i)) (\<lambda>_. write_instructions is)"

definition send_handshake :: "32 word \<Rightarrow> 32 word \<Rightarrow> 32 word \<Rightarrow> bool \<Rightarrow> unit io" where
  "send_handshake width height dpi enable_h264 =
     write_instructions (handshake_instructions width height dpi enable_h264)"

fun protocol_name :: "ConnectionParams \<Rightarrow> string" where
  "protocol_name (Ssh _) = ''ssh''"
| "protocol_name (Vnc _) = ''vnc''"
| "protocol_name (Rdp _) = ''rdp''"
| "protocol_name (Spice _) = ''spice''"

fun display_of :: "ConnectionParams \<Rightarrow> 32 word \<times> 32 word \<times> 32 word \<times> bool" where
  "display_of (Ssh p) = (ssh_width p, ssh_height p, ssh_dpi p, False)"
| "display_of (Vnc p) = (vnc_width p, vnc_height p, vnc_dpi p, False)"
| "display_of (Rdp p) = (rdp_width p, rdp_height p, rdp_dpi p, rdp_enable_h264 p)"
| "display_of (Spice p) = (spice_width p, spice_height p, spice_dpi p, False)"

fun is_ssh :: "ConnectionParams \<Rightarrow> bool" where
  "is_ssh (Ssh _) = True"
| "is_ssh _ = False"

text \<open>The TCP connect within its ten seconds, and the TLS library.\<close>

datatype TcpConnect = TcpTimeout | TcpErr string | TcpOk GuacdStream

record TlsConnector =
  server_name_try_from :: "string \<Rightarrow> (string, string) result"
  tls_connect :: "string \<Rightarrow> GuacdStream \<Rightarrow> (GuacdStream, string) result"

definition wrap_tls ::
    "GuacdStream \<Rightarrow> TlsConnector option \<Rightarrow> string \<Rightarrow> (GuacdStream, GuacdError) result" where
  "wrap_tls tcp tls guacd_addr =
     (case tls of
        None \<Rightarrow> Inr tcp
      | Some connector \<Rightarrow>
          (let hostname = (case rsplit_once (CHR '':'') guacd_addr of Some (h, _) \<Rightarrow> h | None \<Rightarrow> guacd_addr)
           in case server_name_try_from connector hostname of
                Inl e \<Rightarrow> Inl (Connection (''Invalid TLS server name '' @ quoted hostname @ '': '' @ e))
              | Inr server_name \<Rightarrow>
                  (case tls_connect connector server_name tcp of
                     Inl e \<Rightarrow> Inl (Connection (''TLS handshake with guacd failed: '' @ e))
                   | Inr tls_stream \<Rightarrow> Inr tls_stream)))"

definition open_guacd ::
    "TcpConnect \<Rightarrow> TlsConnector option \<Rightarrow> string \<Rightarrow> (GuacdStream, GuacdError) result" where
  "open_guacd tcp tls guacd_addr =
     (case tcp of
        TcpTimeout \<Rightarrow> Inl (Connection (''Timeout connecting to guacd at '' @ guacd_addr))
      | TcpErr e \<Rightarrow> Inl (Connection (''Failed to connect to guacd at '' @ guacd_addr @ '': '' @ e))
      | TcpOk s \<Rightarrow> wrap_tls s tls guacd_addr)"

definition handshake :: "Formatting \<Rightarrow> ConnectionParams \<Rightarrow> string io" where
  "handshake fm params =
     bind_io (write_all (encode (instruction_new ''select'' [protocol_name params]))) (\<lambda>_.
     bind_io (read_instruction fm) (\<lambda>args_instruction.
     if opcode args_instruction \<noteq> ''args''
     then fail_io (Protocol (''Expected '' @ quoted ''args'' @ '' instruction, got '' @
                             quoted (opcode args_instruction)))
     else
     (let values = arg_values params (args args_instruction);
          (width, height, dpi, h264) = display_of params in
     bind_io (send_handshake width height dpi h264) (\<lambda>_.
     bind_io (write_all (encode (instruction_new ''connect'' values))) (\<lambda>_.
     bind_io (read_instruction fm) (\<lambda>ready.
     if opcode ready \<noteq> ''ready''
     then fail_io (unexpected_instruction_error fm (''Expected '' @ quoted ''ready'' @ '' instruction'') ready)
     else
     (let connection_id = (case args ready of [] \<Rightarrow> ''unknown'' | c # _ \<Rightarrow> c) in
     if is_ssh params
     then bind_io (write_all (encode (instruction_new ''environ'' [''LANG'', ''en_US.UTF-8'']))) (\<lambda>_.
            return_io connection_id)
     else return_io connection_id)))))))"

definition run_on :: "(GuacdStream, GuacdError) result \<Rightarrow> 'a io \<Rightarrow>
    (GuacdStream \<times> 'a, GuacdError) result option" where
  "run_on conn m =
     (case conn of
        Inl e \<Rightarrow> Some (Inl e)
      | Inr s \<Rightarrow>
          (case m s of
             None \<Rightarrow> None
           | Some (Inl e, _) \<Rightarrow> Some (Inl e)
           | Some (Inr x, s') \<Rightarrow> Some (Inr (s', x))))"

definition connect_and_handshake ::
    "Formatting \<Rightarrow> TcpConnect \<Rightarrow> string \<Rightarrow> ConnectionParams \<Rightarrow> TlsConnector option \<Rightarrow>
     (GuacdStream \<times> string, GuacdError) result option" where
  "connect_and_handshake fm tcp guacd_addr params tls =
     run_on (open_guacd tcp tls guacd_addr) (handshake fm params)"

definition join_handshake ::
    "Formatting \<Rightarrow> string \<Rightarrow> 32 word \<Rightarrow> 32 word \<Rightarrow> 32 word \<Rightarrow> bool \<Rightarrow> unit io" where
  "join_handshake fm connection_id width height dpi read_only =
     bind_io (write_all (encode (instruction_new ''select'' [connection_id]))) (\<lambda>_.
     bind_io (read_instruction fm) (\<lambda>args_instruction.
     if opcode args_instruction \<noteq> ''args''
     then fail_io (Protocol (''Expected '' @ quoted ''args'' @ '' from join, got '' @
                             quoted (opcode args_instruction)))
     else
     (let values = join_arg_values (args args_instruction) read_only in
     bind_io (send_handshake width height dpi False) (\<lambda>_.
     bind_io (write_all (encode (instruction_new ''connect'' values))) (\<lambda>_.
     bind_io (read_instruction fm) (\<lambda>ready.
     if opcode ready \<noteq> ''ready''
     then fail_io (unexpected_instruction_error fm (''Expected '' @ quoted ''ready'' @ '' from join'') ready)
     else return_io ()))))))"

definition join_connection ::
    "Formatting \<Rightarrow> TcpConnect \<Rightarrow> string \<Rightarrow> string \<Rightarrow> 32 word \<Rightarrow> 32 word \<Rightarrow> 32 word \<Rightarrow> bool \<Rightarrow>
     TlsConnector option \<Rightarrow> (GuacdStream, GuacdError) result option" where
  "join_connection fm tcp guacd_addr connection_id width height dpi read_only tls =
     map_option (map_sum (\<lambda>e. e) fst)
       (run_on (open_guacd tcp tls guacd_addr)
          (join_handshake fm connection_id width height dpi read_only))"

section \<open>Sequencing\<close>

lemma bind_io_return [simp]: "bind_io (return_io x) f = f x"
  by (simp add: bind_io_def return_io_def fun_eq_iff)

lemma bind_io_fail [simp]: "bind_io (fail_io e) f = fail_io e"
  by (simp add: bind_io_def fail_io_def fun_eq_iff)

lemma bind_io_Ok:
  "bind_io m f s = Some (Inr x, s') \<longleftrightarrow>
     (\<exists>y t. m s = Some (Inr y, t) \<and> f y t = Some (Inr x, s'))"
  by (auto simp: bind_io_def split: option.splits prod.splits sum.splits)

lemma return_io_Ok [simp]: "return_io y s = Some (Inr x, s') \<longleftrightarrow> x = y \<and> s' = s"
  by (auto simp: return_io_def)

lemma fail_io_Ok [simp]: "fail_io e s \<noteq> Some (Inr x, s')"
  by (simp add: fail_io_def)

lemma write_all_Ok:
  "write_all b s = Some (Inr x, s') \<Longrightarrow> outbox s' = outbox s @ b \<and> inbox s' = inbox s"
  by (auto simp: write_all_def split: list.splits option.splits)

lemma write_instructions_Ok:
  "write_instructions is s = Some (Inr x, s') \<Longrightarrow>
     outbox s' = outbox s @ concat (map encode is) \<and> inbox s' = inbox s"
proof (induction "is" arbitrary: s)
  case (Cons i "is")
  then show ?case by (auto simp: bind_io_Ok dest!: write_all_Ok)
qed simp

lemma read_buf_frame: "read_buf n s = Some (r, s') \<Longrightarrow> outbox s' = outbox s \<and> write_results s' = write_results s"
  by (auto simp: read_buf_def split: list.splits ReadEvent.splits if_splits)

lemma read_instruction_loop_frame:
  "read_instruction_loop fm p s = Some (r, s') \<Longrightarrow> outbox s' = outbox s \<and> write_results s' = write_results s"
proof (induction fm p s rule: read_instruction_loop.induct)
  case (1 fm p s)
  from "1.prems" obtain r1 s1 where rb: "read_buf 4096 s = Some (r1, s1)"
    by (subst (asm) read_instruction_loop.simps) (auto split: option.splits)
  note fr = read_buf_frame [OF rb]
  show ?case
  proof (cases r1)
    case (Inl e)
    with "1.prems" rb fr show ?thesis by (subst (asm) read_instruction_loop.simps) auto
  next
    case (Inr d)
    show ?thesis
    proof (cases "d = [] \<or> \<not> utf8_valid d")
      case True
      with "1.prems" rb fr Inr show ?thesis
        by (subst (asm) read_instruction_loop.simps) (auto split: if_splits)
    next
      case False
      obtain rs p' where rc: "receive p d = (rs, p')" by (cases "receive p d")
      have "rs = [] \<Longrightarrow> read_instruction_loop fm p' s1 = Some (r, s')"
        using "1.prems" rb Inr False rc by (subst (asm) read_instruction_loop.simps) auto
      moreover have "rs \<noteq> [] \<Longrightarrow> s' = s1"
        using "1.prems" rb Inr False rc
        by (subst (asm) read_instruction_loop.simps) (auto split: list.splits sum.splits)
      ultimately show ?thesis using "1.IH" [OF rb _ Inr] False rc fr by (cases "rs = []") auto
    qed
  qed
qed

lemma read_instruction_frame:
  "read_instruction fm s = Some (r, s') \<Longrightarrow> outbox s' = outbox s \<and> write_results s' = write_results s"
  unfolding read_instruction_def by (rule read_instruction_loop_frame)

section \<open>Reading instructions off the stream\<close>

text \<open>
  Reading through chunks that do not complete a frame: the parser just accumulates them.
\<close>

lemma read_instruction_loop_partial:
  assumes "inbox s = ReadOk d # evs" "d \<noteq> []" "length d \<le> 4096" "utf8_valid d" "CHR '';'' \<notin> set d"
    and "CHR '';'' \<notin> set (buffer p)" "length (buffer p @ d) \<le> MAX_PROTOCOL_BUFFER_LEN"
  shows "read_instruction_loop fm p s =
     read_instruction_loop fm \<lparr>buffer = buffer p @ d\<rparr> (s\<lparr>inbox := evs\<rparr>)"
proof -
  have "receive p d = ([], \<lparr>buffer = buffer p @ d\<rparr>)"
    using assms(5-7) by (simp add: receive_eq receive_loop_partial)
  then show ?thesis
    using assms(1-4) by (subst read_instruction_loop.simps) (simp add: read_buf_def)
qed

lemma read_instruction_loop_chunks:
  assumes "inbox s = map ReadOk cs @ ReadOk (d @ CHR '';'' # rest) # evs"
    and "list_all (\<lambda>c. c \<noteq> [] \<and> length c \<le> 4096 \<and> utf8_valid c \<and> CHR '';'' \<notin> set c) cs"
    and "CHR '';'' \<notin> set d" "length (d @ CHR '';'' # rest) \<le> 4096" "utf8_valid (d @ CHR '';'' # rest)"
    and "CHR '';'' \<notin> set (buffer p)"
    and "length (buffer p @ concat cs @ d @ CHR '';'' # rest) \<le> MAX_PROTOCOL_BUFFER_LEN"
  shows "read_instruction_loop fm p s =
     Some (map_sum (\<lambda>e. Protocol (show_parse_error e)) (\<lambda>i. i)
             (decode_frame (buffer p @ concat cs @ d)), s\<lparr>inbox := evs\<rparr>)"
  using assms
proof (induction cs arbitrary: s p)
  case Nil
  let ?all = "buffer p @ d @ CHR '';'' # rest"
  have "receive p (d @ CHR '';'' # rest) =
      (decode_frame (buffer p @ d) # fst (receive_loop rest), \<lparr>buffer = snd (receive_loop rest)\<rparr>)"
    using Nil.prems(3,6,7) receive_loop_frame [of "buffer p @ d" rest]
    by (simp add: receive_eq)
  then show ?case
    using Nil.prems(1,4,5)
    by (subst read_instruction_loop.simps) (simp add: read_buf_def split: sum.splits)
next
  case (Cons c cs)
  have "read_instruction_loop fm p s =
      read_instruction_loop fm \<lparr>buffer = buffer p @ c\<rparr>
        (s\<lparr>inbox := map ReadOk cs @ ReadOk (d @ CHR '';'' # rest) # evs\<rparr>)"
    using Cons.prems by (intro read_instruction_loop_partial) auto
  also have "\<dots> = Some (map_sum (\<lambda>e. Protocol (show_parse_error e)) (\<lambda>i. i)
             (decode_frame (buffer p @ concat (c # cs) @ d)), s\<lparr>inbox := evs\<rparr>)"
    using Cons.prems by (subst Cons.IH) auto
  finally show ?case .
qed

lemma read_instruction_encoded:
  assumes "inbox s = ReadOk (encode i @ rest) # evs" "wf_instruction i"
    and "list_all (\<lambda>e. CHR '';'' \<notin> set e) (elements i)" "length (encode i @ rest) \<le> 4096" "utf8_valid rest"
  shows "read_instruction fm s = Some (Inr i, s\<lparr>inbox := evs\<rparr>)"
proof -
  have e: "encode i @ rest = butlast (encode i) @ CHR '';'' # rest"
    by (subst encode_body) simp
  have "utf8_valid (encode i @ rest)"
    using utf8_valid_append utf8_valid_encode assms(2,5) by blast
  then show ?thesis
    unfolding read_instruction_def
    using read_instruction_loop_chunks [of s "[]" "butlast (encode i)" rest evs parser_new fm]
      assms frame_no_semi [OF assms(3)] decode_frame_encode [OF assms(2,3)]
    by (simp add: e parser_new_def MAX_PROTOCOL_BUFFER_LEN_def)
qed

section \<open>What the handshakes send\<close>

definition connect_transcript :: "ConnectionParams \<Rightarrow> string list \<Rightarrow> Instruction list" where
  "connect_transcript params names =
     instruction_new ''select'' [protocol_name params] #
     (case display_of params of (w, h, d, h264) \<Rightarrow> handshake_instructions w h d h264) @
     [instruction_new ''connect'' (arg_values params names)] @
     (if is_ssh params then [instruction_new ''environ'' [''LANG'', ''en_US.UTF-8'']] else [])"

definition join_transcript ::
    "string \<Rightarrow> 32 word \<Rightarrow> 32 word \<Rightarrow> 32 word \<Rightarrow> bool \<Rightarrow> string list \<Rightarrow> Instruction list" where
  "join_transcript connection_id w h d read_only names =
     instruction_new ''select'' [connection_id] # handshake_instructions w h d False @
     [instruction_new ''connect'' (join_arg_values names read_only)]"

text \<open>The instruction \<open>i\<close> is read off the events \<open>evs\<close> and leaves \<open>evs'\<close>.\<close>

definition reads :: "Formatting \<Rightarrow> ReadEvent list \<Rightarrow> Instruction \<Rightarrow> ReadEvent list \<Rightarrow> bool" where
  "reads fm evs i evs' \<longleftrightarrow>
     (\<exists>t t'. inbox t = evs \<and> inbox t' = evs' \<and> read_instruction fm t = Some (Inr i, t'))"

lemma handshake_Ok:
  assumes "handshake fm params s = Some (Inr cid, s')"
  obtains a r mid where "reads fm (inbox s) a mid" "reads fm mid r (inbox s')"
    "opcode a = ''args''" "opcode r = ''ready''"
    "cid = (case args r of [] \<Rightarrow> ''unknown'' | c # _ \<Rightarrow> c)"
    "outbox s' = outbox s @ concat (map encode (connect_transcript params (args a)))"
proof -
  obtain w h d h264 where disp: "display_of params = (w, h, d, h264)" by (metis prod_cases4)
  from assms obtain s1 a s2 s3 s4 r s5 where
      w1: "write_all (encode (instruction_new ''select'' [protocol_name params])) s = Some (Inr (), s1)"
    and r1: "read_instruction fm s1 = Some (Inr a, s2)" and a: "opcode a = ''args''"
    and w2: "write_instructions (handshake_instructions w h d h264) s2 = Some (Inr (), s3)"
    and w3: "write_all (encode (instruction_new ''connect'' (arg_values params (args a)))) s3 = Some (Inr (), s4)"
    and r2: "read_instruction fm s4 = Some (Inr r, s5)" and r: "opcode r = ''ready''"
    and fin: "(if is_ssh params
       then bind_io (write_all (encode (instruction_new ''environ'' [''LANG'', ''en_US.UTF-8''])))
              (\<lambda>_. return_io (case args r of [] \<Rightarrow> ''unknown'' | c # _ \<Rightarrow> c))
       else return_io (case args r of [] \<Rightarrow> ''unknown'' | c # _ \<Rightarrow> c)) s5 = Some (Inr cid, s')"
    by (auto simp: handshake_def disp bind_io_Ok send_handshake_def Let_def split: if_splits)
  note frames = write_all_Ok [OF w1] read_instruction_frame [OF r1] write_instructions_Ok [OF w2]
    write_all_Ok [OF w3] read_instruction_frame [OF r2]
  have "outbox s' = outbox s5 @ (if is_ssh params
          then encode (instruction_new ''environ'' [''LANG'', ''en_US.UTF-8'']) else [])"
    and "cid = (case args r of [] \<Rightarrow> ''unknown'' | c # _ \<Rightarrow> c)" and "inbox s' = inbox s5"
    using fin by (auto simp: bind_io_Ok split: if_splits dest!: write_all_Ok)
  moreover have "reads fm (inbox s) a (inbox s2)" "reads fm (inbox s2) r (inbox s5)"
    using frames r1 r2 unfolding reads_def by auto
  ultimately show ?thesis
    using frames a r by (intro that [of a "inbox s2" r]) (simp_all add: connect_transcript_def disp)
qed

lemma write_all_plain:
  "write_results s = [] \<Longrightarrow> write_all b s = Some (Inr (), s\<lparr>outbox := outbox s @ b\<rparr>)"
  by (simp add: write_all_def)

lemma write_instructions_plain:
  "write_results s = [] \<Longrightarrow>
     write_instructions is s = Some (Inr (), s\<lparr>outbox := outbox s @ concat (map encode is)\<rparr>)"
  by (induction "is" arbitrary: s) (simp_all add: bind_io_def write_all_plain return_io_def)

lemma join_handshake_Ok:
  assumes "join_handshake fm connection_id w h d read_only s = Some (Inr x, s')"
  obtains a r mid where "reads fm (inbox s) a mid" "reads fm mid r (inbox s')"
    "opcode a = ''args''" "opcode r = ''ready''"
    "outbox s' = outbox s @ concat (map encode (join_transcript connection_id w h d read_only (args a)))"
proof -
  from assms obtain s1 a s2 s3 s4 where
      w1: "write_all (encode (instruction_new ''select'' [connection_id])) s = Some (Inr (), s1)"
    and r1: "read_instruction fm s1 = Some (Inr a, s2)" and a: "opcode a = ''args''"
    and w2: "write_instructions (handshake_instructions w h d False) s2 = Some (Inr (), s3)"
    and w3: "write_all (encode (instruction_new ''connect'' (join_arg_values (args a) read_only))) s3
        = Some (Inr (), s4)"
    and r2: "\<exists>r. read_instruction fm s4 = Some (Inr r, s') \<and> opcode r = ''ready''"
    by (auto simp: join_handshake_def bind_io_Ok send_handshake_def Let_def split: if_splits)
  from r2 obtain r where r: "read_instruction fm s4 = Some (Inr r, s')" "opcode r = ''ready''" by blast
  note frames = write_all_Ok [OF w1] read_instruction_frame [OF r1] write_instructions_Ok [OF w2]
    write_all_Ok [OF w3] read_instruction_frame [OF r(1)]
  have "reads fm (inbox s) a (inbox s2)" "reads fm (inbox s2) r (inbox s')"
    using frames r1 r(1) unfolding reads_def by auto
  then show ?thesis
    using frames a r(2) by (intro that [of a "inbox s2" r]) (simp_all add: join_transcript_def)
qed

section \<open>Statuses\<close>

lemma status_from_code_code [simp]: "status_code (status_from_code c) = c"
  by (simp add: status_from_code_def)

lemma status_code_inject:
  "status_from_code (status_code st) = st \<longleftrightarrow> st \<noteq> Other 0x0301 \<and> st \<noteq> Other 0x020A"
  by (cases st) (auto simp: status_from_code_def)

section \<open>Properties\<close>



definition demo_fmt :: Formatting where
  "demo_fmt = \<lparr>fmt_debug_char = id, fmt_utf8_error = (\<lambda>_. ''invalid utf-8 sequence'')\<rparr>"

definition demo_vnc :: VncParams where
  "demo_vnc = \<lparr>vnc_hostname = ''vnc.local'', vnc_port = 5900, vnc_password = Some ''pw'',
     vnc_color_depth = None, vnc_width = 1024, vnc_height = 768, vnc_dpi = 96,
     vnc_disable_copy = False, vnc_disable_paste = True\<rparr>"

definition demo_peer :: GuacdStream where
  "demo_peer = \<lparr>inbox = [ReadOk (encode \<lparr>opcode = ''args'', args = [''hostname'', ''read-only'']\<rparr>),
                        ReadOk (encode \<lparr>opcode = ''ready'', args = [''$1'']\<rparr>)],
     outbox = [], write_results = []\<rparr>"



text \<open>
  A viewer that joins read-only is announced to \<open>guacd\<close> as read-only: if a join
  with \<open>read_only\<close> set succeeds, the \<open>connect\<close> instruction that was written has the value
  \<open>true\<close> for every \<open>read-only\<close> argument \<open>guacd\<close> asked for, and an empty value for every other
  one, so a join never sends a credential or a host.
\<close>

theorem join_read_only_announced:
  assumes "join_connection fm (TcpOk s) guacd_addr connection_id w h d True None = Some (Inr s')"
  shows "\<exists>a r mid values. reads fm (inbox s) a mid \<and> reads fm mid r (inbox s') \<and>
     opcode a = ''args'' \<and> opcode r = ''ready'' \<and> outbox s' = outbox s @
       concat (map encode (instruction_new ''select'' [connection_id] # handshake_instructions w h d False)) @
       encode (instruction_new ''connect'' values) \<and>
     list_all2 (\<lambda>name value. value = (if name = ''read-only'' then ''true'' else [])) (args a) values"
proof -
  from assms obtain x where "join_handshake fm connection_id w h d True s = Some (Inr x, s')"
    by (auto simp: join_connection_def open_guacd_def wrap_tls_def run_on_def
        split: option.splits prod.splits sum.splits)
  then show ?thesis
  proof (rule join_handshake_Ok)
    fix a r mid
    assume "reads fm (inbox s) a mid" "reads fm mid r (inbox s')" "opcode a = ''args''"
      "opcode r = ''ready''" "outbox s' = outbox s @ concat (map encode (join_transcript connection_id w h d True (args a)))"
    then show ?thesis
      by (intro exI [of _ a] exI [of _ r] exI [of _ mid] exI [of _ "join_arg_values (args a) True"])
        (simp add: join_transcript_def join_arg_values_def show_bool_def list_all2_conv_all_nth)
  qed
qed

end
