(* ===== verification/Session_Types.thy ===== *)
theory Session_Types
  imports Guacd
begin

text \<open>
  The session data model (\<open>src/src/session/types.rs\<close>): session types and statuses, the
  session itself, lifecycle events, shadow tokens, errors, and the public view
  \<open>SessionInfo\<close> of a local session and of a registry row.

  A \<open>Uuid\<close> is its canonical string. A \<open>DateTime\<close> is an integer number of nanoseconds since
  the epoch, and a registry timestamp (\<open>registry_ts\<close>, a fixed-width string that sorts by
  time) is the integer number of seconds it shows. Handles of running resources (browser
  processes, tunnels, tasks) are opaque numbers.
\<close>

type_synonym Uuid = string
type_synonym DateTime = int
type_synonym RegistryTs = int
type_synonym Handle = nat

definition nanos :: int where
  "nanos = 10 ^ 9"

definition registry_ts :: "DateTime \<Rightarrow> RegistryTs" where
  "registry_ts t = t div nanos"

definition timestamp :: "DateTime \<Rightarrow> int" where
  "timestamp t = t div nanos"

text \<open>Whole seconds of a duration, truncated toward zero (\<open>num_seconds\<close>).\<close>

definition num_seconds :: "int \<Rightarrow> int" where
  "num_seconds d = (if 0 \<le> d then d div nanos else - ((- d) div nanos))"

text \<open>\<open>to_std().unwrap_or_default()\<close>: a negative duration counts as zero.\<close>

definition to_std_or_default :: "int \<Rightarrow> int" where
  "to_std_or_default d = max 0 d"

section \<open>Session types\<close>

datatype SessionType = SSH | Web | RDP | VNC | Vdi | SPICE | Proxmox

fun session_type_str :: "SessionType \<Rightarrow> string" where
  "session_type_str SSH = ''ssh''"
| "session_type_str Web = ''web''"
| "session_type_str RDP = ''rdp''"
| "session_type_str VNC = ''vnc''"
| "session_type_str Vdi = ''vdi''"
| "session_type_str SPICE = ''spice''"
| "session_type_str Proxmox = ''proxmox''"

definition session_type_all :: "string list" where
  "session_type_all = [''ssh'', ''web'', ''rdp'', ''vnc'', ''vdi'', ''spice'', ''proxmox'']"

definition from_api_str_opt :: "string \<Rightarrow> SessionType option" where
  "from_api_str_opt s =
     (if s = ''ssh'' \<or> s = ''powershell'' then Some SSH
      else if s = ''web'' then Some Web
      else if s = ''rdp'' then Some RDP
      else if s = ''vnc'' then Some VNC
      else if s = ''vdi'' then Some Vdi
      else if s = ''spice'' then Some SPICE
      else if s = ''proxmox'' then Some Proxmox
      else None)"

definition from_api_str :: "string \<Rightarrow> SessionType \<Rightarrow> SessionType" where
  "from_api_str s dflt = (case from_api_str_opt s of Some t \<Rightarrow> t | None \<Rightarrow> dflt)"

section \<open>Statuses\<close>

datatype SessionStatus = Pending | Active | Completed | Error | Expired | Disconnected | LoggedOut

fun is_terminal :: "SessionStatus \<Rightarrow> bool" where
  "is_terminal Completed = True"
| "is_terminal Error = True"
| "is_terminal Expired = True"
| "is_terminal LoggedOut = True"
| "is_terminal _ = False"

text \<open>The serde names of the statuses.\<close>

fun status_str :: "SessionStatus \<Rightarrow> string" where
  "status_str Pending = ''pending''"
| "status_str Active = ''active''"
| "status_str Completed = ''completed''"
| "status_str Error = ''error''"
| "status_str Expired = ''expired''"
| "status_str Disconnected = ''disconnected''"
| "status_str LoggedOut = ''logged_out''"

section \<open>Lifecycle events\<close>

datatype SessionEventKind = SessionStarted | StatusChanged | SessionEnded

fun event_kind_str :: "SessionEventKind \<Rightarrow> string" where
  "event_kind_str SessionStarted = ''session_started''"
| "event_kind_str StatusChanged = ''status_changed''"
| "event_kind_str SessionEnded = ''session_ended''"

record SessionEvent =
  ev_id :: "64 word"
  ev_event :: SessionEventKind
  ev_session_id :: Uuid
  ev_session_type :: SessionType
  ev_status :: SessionStatus
  ev_created_by :: string
  ev_timestamp :: DateTime

section \<open>Sessions\<close>

record ShadowToken =
  token_hash :: string
  issued_by :: string
  expires_at :: DateTime

datatype ShareTokenValidation = Invalid | Owner | Shadow string

definition is_valid :: "ShareTokenValidation \<Rightarrow> bool" where
  "is_valid v = (v \<noteq> Invalid)"

record Session =
  s_id :: Uuid
  session_type :: SessionType
  status :: SessionStatus
  created_at :: DateTime
  hostname :: string
  username :: string
  url :: "string option"
  banner :: "string option"
  guacd_stream :: "GuacdStream option"
  connection_id :: string
  share_token :: string
  width :: "32 word"
  height :: "32 word"
  active_connections :: "32 word"
  created_by :: string
  cancelled :: bool
  browser_session :: "Handle option"
  deferred_params :: "ConnectionParams option"
  drive_path :: "string option"
  drive_enabled :: bool
  tunnels :: "Handle list"
  container_id :: "string option"
  container_name :: "string option"
  recording_enabled :: bool
  address_book_entry :: "string option"
  address_book_folder :: "string option"
  entry_display_name :: "string option"
  max_recordings :: "32 word option"
  login_script_handle :: "Handle option"
  shadow_tokens :: "ShadowToken list"
  share_allowed :: bool
  fullscreen_on_connect :: bool
  autohide_side_tabs :: bool
  auto_size :: bool
  last_activity :: int
  source_ip :: "string option"
  user_id :: "string option"

definition touch_activity :: "DateTime \<Rightarrow> Session \<Rightarrow> Session" where
  "touch_activity now s = s\<lparr>last_activity := timestamp now\<rparr>"

section \<open>Errors\<close>

datatype SessionError =
    GuacdConnection string "GuacdStatus option"
  | NotFound
  | NotActive
  | ViewerLimit "32 word" "32 word"
  | ValidationError string
  | BrowserSpawn string
  | VdiError string

definition guacd_connection :: "string \<Rightarrow> SessionError" where
  "guacd_connection message = GuacdConnection message None"

definition from_guacd_error :: "GuacdError \<Rightarrow> SessionError" where
  "from_guacd_error e =
     GuacdConnection (show_guacd_error e)
       (case e of ErrorInstruction _ st \<Rightarrow> st | _ \<Rightarrow> None)"

fun guacd_status :: "SessionError \<Rightarrow> GuacdStatus option" where
  "guacd_status (GuacdConnection _ st) = st"
| "guacd_status _ = None"

fun show_session_error :: "SessionError \<Rightarrow> string" where
  "show_session_error (GuacdConnection message _) = ''guacd connection failed: '' @ message"
| "show_session_error NotFound = ''session not found''"
| "show_session_error NotActive = ''session is not active''"
| "show_session_error (ViewerLimit viewers cap) =
     ''share viewer limit reached: '' @ show_word viewers @ '' of '' @ show_word cap @
     '' viewers already connected''"
| "show_session_error (ValidationError msg) = ''validation error: '' @ msg"
| "show_session_error (BrowserSpawn msg) = ''browser spawn failed: '' @ msg"
| "show_session_error (VdiError msg) = ''VDI error: '' @ msg"

section \<open>The public view of a session\<close>

record SessionInfo =
  info_session_id :: Uuid
  info_session_type :: SessionType
  info_status :: SessionStatus
  info_created_at :: DateTime
  info_last_activity :: "DateTime option"
  info_ended_at :: "DateTime option"
  info_client_url :: string
  info_share_url :: "string option"
  info_ws_url :: string
  info_hostname :: string
  info_username :: string
  info_active_connections :: "32 word"
  info_created_by :: string
  info_banner :: "string option"
  info_url :: "string option"
  info_address_book_entry :: "string option"
  info_address_book_folder :: "string option"
  info_entry_display_name :: "string option"
  info_thumbnail_url :: "string option"
  info_fullscreen_on_connect :: bool
  info_autohide_side_tabs :: bool
  info_auto_size :: bool
  info_drive_enabled :: bool
  info_owner_instance :: "string option"
  info_owner_base_url :: "string option"
  info_remote :: bool

definition session_info :: "Session \<Rightarrow> SessionInfo" where
  "session_info s =
     \<lparr>info_session_id = s_id s,
      info_session_type = session_type s,
      info_status = status s,
      info_created_at = created_at s,
      info_last_activity = (if 0 < last_activity s then Some (last_activity s * nanos) else None),
      info_ended_at = None,
      info_client_url = ''/client/'' @ s_id s,
      info_share_url =
        (if share_allowed s then Some (''/client/'' @ s_id s @ ''?token='' @ share_token s) else None),
      info_ws_url = ''/ws/'' @ s_id s,
      info_hostname = hostname s,
      info_username = username s,
      info_active_connections = active_connections s,
      info_created_by = created_by s,
      info_banner = banner s,
      info_url = url s,
      info_address_book_entry = address_book_entry s,
      info_address_book_folder = address_book_folder s,
      info_entry_display_name = entry_display_name s,
      info_thumbnail_url = Some (''/api/sessions/'' @ s_id s @ ''/thumbnail''),
      info_fullscreen_on_connect = fullscreen_on_connect s,
      info_autohide_side_tabs = autohide_side_tabs s,
      info_auto_size = auto_size s,
      info_drive_enabled = drive_enabled s,
      info_owner_instance = None,
      info_owner_base_url = None,
      info_remote = False\<rparr>"

text \<open>A row of the shared registry (\<open>SessionRegistryRow\<close> of \<open>src/src/db.rs\<close>).\<close>

record SessionRegistryRow =
  reg_session_id :: string
  reg_owner_instance :: string
  reg_owner_base_url :: string
  reg_session_type :: string
  reg_status :: string
  reg_hostname :: string
  reg_username :: string
  reg_created_by :: string
  reg_created_at :: RegistryTs
  reg_last_active_at :: RegistryTs
  reg_connection_id :: string
  reg_shadow_token_hash :: "string option"
  reg_shadow_issued_by :: "string option"
  reg_shadow_expires_at :: "RegistryTs option"

definition lower_char :: "char \<Rightarrow> char" where
  "lower_char c = (if 65 \<le> byte c \<and> byte c \<le> 90 then char_of (byte c + 32) else c)"

definition to_lowercase :: "string \<Rightarrow> string" where
  "to_lowercase s = map lower_char s"

text \<open>Reading the serde name of a type or of a status back.\<close>

definition serde_session_type :: "string \<Rightarrow> SessionType option" where
  "serde_session_type s =
     map_of (map (\<lambda>t. (session_type_str t, t)) [SSH, Web, RDP, VNC, Vdi, SPICE, Proxmox]) s"

definition serde_status :: "string \<Rightarrow> SessionStatus option" where
  "serde_status s =
     map_of (map (\<lambda>st. (status_str st, st))
       [Pending, Active, Completed, Error, Expired, Disconnected, LoggedOut]) s"

text \<open>
  \<open>SessionInfo::from_registry\<close>. The parser of the \<open>uuid\<close> crate is an argument; the
  timestamp of the row is read to whole seconds.
\<close>

definition from_registry :: "(string \<Rightarrow> Uuid option) \<Rightarrow> SessionRegistryRow \<Rightarrow> SessionInfo option" where
  "from_registry parse_uuid row =
     (case parse_uuid (reg_session_id row) of
        None \<Rightarrow> None
      | Some uid \<Rightarrow> Some
         \<lparr>info_session_id = uid,
          info_session_type =
            (case serde_session_type (to_lowercase (reg_session_type row)) of Some t \<Rightarrow> t | None \<Rightarrow> SSH),
          info_status =
            (case serde_status (to_lowercase (reg_status row)) of Some st \<Rightarrow> st | None \<Rightarrow> Error),
          info_created_at = reg_created_at row * nanos,
          info_last_activity = None,
          info_ended_at = None,
          info_client_url = ''/client/'' @ uid,
          info_share_url = None,
          info_ws_url = ''/ws/'' @ uid,
          info_hostname = reg_hostname row,
          info_username = reg_username row,
          info_active_connections = 0,
          info_created_by = reg_created_by row,
          info_banner = None,
          info_url = None,
          info_address_book_entry = None,
          info_address_book_folder = None,
          info_entry_display_name = None,
          info_thumbnail_url = None,
          info_fullscreen_on_connect = False,
          info_autohide_side_tabs = False,
          info_auto_size = True,
          info_drive_enabled = False,
          info_owner_instance = Some (reg_owner_instance row),
          info_owner_base_url =
            (if reg_owner_base_url row = [] then None else Some (reg_owner_base_url row)),
          info_remote = True\<rparr>)"

section \<open>Lemmas\<close>

lemma from_api_str_opt_str [simp]: "from_api_str_opt (session_type_str t) = Some t"
  by (cases t) (simp_all add: from_api_str_opt_def)

lemma from_api_str_opt_Some:
  "from_api_str_opt s = Some t \<longleftrightarrow> s = session_type_str t \<or> s = ''powershell'' \<and> t = SSH"
  by (cases t) (auto simp: from_api_str_opt_def split: if_splits)

lemma session_type_all_complete: "s \<in> set session_type_all \<longleftrightarrow> (\<exists>t. s = session_type_str t)"
proof
  assume "\<exists>t. s = session_type_str t"
  then obtain t where "s = session_type_str t" ..
  then show "s \<in> set session_type_all" by (cases t) (simp_all add: session_type_all_def)
next
  assume "s \<in> set session_type_all"
  then have "from_api_str_opt s \<noteq> None" by (auto simp: session_type_all_def from_api_str_opt_def)
  with \<open>s \<in> set session_type_all\<close> show "\<exists>t. s = session_type_str t"
    by (auto simp: from_api_str_opt_Some session_type_all_def)
qed

lemma serde_status_str [simp]: "serde_status (status_str st) = Some st"
  by (cases st) (simp_all add: serde_status_def)

lemma status_str_inject [simp]: "status_str a = status_str b \<longleftrightarrow> a = b"
  by (metis option.inject serde_status_str)

lemma serde_session_type_str [simp]: "serde_session_type (session_type_str t) = Some t"
  by (cases t) (simp_all add: serde_session_type_def)

lemma to_std_or_default_nonneg [simp]: "0 \<le> to_std_or_default d"
  by (simp add: to_std_or_default_def)

section \<open>Digests\<close>

text \<open>SHA-256 and the hexadecimal text of a digest come from other crates and are arguments.\<close>

record Crypto =
  sha256 :: "string \<Rightarrow> string"
  hex_encode :: "string \<Rightarrow> string"
  hex_decode :: "string \<Rightarrow> string option"

end
