(* ===== verification/Session_Store.thy ===== *)
theory Session_Store
  imports Session_Types
begin

text \<open>
  The database tables the session manager writes (\<open>src/src/db.rs\<close>): the session history and,
  on a shared backend, the session registry.

  A table is the list of its rows. A store function works on the local SQLite connection,
  whose statements have numbered parameters, or on the SQLx pool once one is installed. On
  the pool the statements are built per backend: PostgreSQL has numbered placeholders,
  MySQL and SQLite have anonymous ones, which are bound in the order of the text. Both ways
  of binding are modelled, because the code relies on them. A statement that fails changes
  nothing; \<open>db_fails\<close> says that statements fail at present. The database's own clock
  and its subtraction of timestamps are arguments.
\<close>

section \<open>Backends and statements\<close>

datatype Backend = LocalSqlite | PoolPostgres | PoolMySQL | PoolSQLite | PoolNone

datatype Arg = Str string | OptStr "string option" | I64 int | OptI64 "int option"

datatype SqlVal = Null | Text string | Integer int

fun sql_value :: "Arg \<Rightarrow> SqlVal" where
  "sql_value (Str s) = Text s"
| "sql_value (OptStr None) = Null"
| "sql_value (OptStr (Some s)) = Text s"
| "sql_value (I64 n) = Integer n"
| "sql_value (OptI64 None) = Null"
| "sql_value (OptI64 (Some n)) = Integer n"

text \<open>
  The values of the placeholders of a statement, in the order of its text. \<open>phs\<close> lists the
  numbers the placeholders were given (\<open>ph1\<close>, \<open>ph2\<close>, \<dots>): they only count where the backend
  prints them.
\<close>

fun numbered_placeholders :: "Backend \<Rightarrow> bool" where
  "numbered_placeholders LocalSqlite = True"
| "numbered_placeholders PoolPostgres = True"
| "numbered_placeholders _ = False"

definition bind_args :: "Backend \<Rightarrow> nat list \<Rightarrow> Arg list \<Rightarrow> SqlVal list" where
  "bind_args b phs as =
     (if numbered_placeholders b then map (\<lambda>n. sql_value (as ! (n - 1))) phs
      else map sql_value as)"

section \<open>Rows and databases\<close>

record HistoryRow =
  hist_session_id :: string
  hist_session_type :: string
  hist_hostname :: string
  hist_port :: "16 word option"
  hist_username :: string
  hist_created_by :: string
  hist_address_book_entry :: "string option"
  hist_address_book_folder :: "string option"
  hist_entry_display_name :: "string option"
  hist_reason :: "string option"
  hist_source_ip :: "string option"
  hist_started_at :: RegistryTs
  hist_ended_at :: "RegistryTs option"
  hist_duration_secs :: SqlVal
  hist_recording_file :: SqlVal
  hist_status :: SqlVal

record Database =
  backend :: Backend
  session_history :: "HistoryRow list"
  session_registry :: "SessionRegistryRow list"
  db_fails :: bool

type_synonym 'a db_result = "'a option \<times> Database"

definition has_pool :: "Database \<Rightarrow> bool" where
  "has_pool db = (backend db \<noteq> LocalSqlite)"

text \<open>\<open>pool_exec\<close> and \<open>Connection::execute\<close> fail on an unconfigured pool or a broken database.\<close>

definition exec_ok :: "Database \<Rightarrow> bool" where
  "exec_ok db = (\<not> db_fails db \<and> backend db \<noteq> PoolNone)"

section \<open>Session history\<close>

definition insert_session_history ::
    "RegistryTs \<Rightarrow> string \<Rightarrow> string \<Rightarrow> string \<Rightarrow> 16 word option \<Rightarrow> string \<Rightarrow> string \<Rightarrow>
     string option \<Rightarrow> string option \<Rightarrow> string option \<Rightarrow> string option \<Rightarrow> Database \<Rightarrow> unit db_result" where
  "insert_session_history db_now sid stype host port user creator entry folder disp ip db =
     (if exec_ok db then
        (Some (), db\<lparr>session_history := session_history db @
           [\<lparr>hist_session_id = sid, hist_session_type = stype, hist_hostname = host, hist_port = port,
             hist_username = user, hist_created_by = creator, hist_address_book_entry = entry,
             hist_address_book_folder = folder, hist_entry_display_name = disp, hist_reason = None,
             hist_source_ip = ip, hist_started_at = db_now, hist_ended_at = None,
             hist_duration_secs = Null, hist_recording_file = Null, hist_status = Text ''active''\<rparr>]\<rparr>)
      else (None, db))"

text \<open>
  The update of \<open>end_session_history\<close> with its four bound values, in the order of its text:
  duration, status, recording file, session id.
\<close>

definition end_row :: "RegistryTs \<Rightarrow> SqlVal list \<Rightarrow> HistoryRow \<Rightarrow> HistoryRow" where
  "end_row db_now vs r =
     (if Text (hist_session_id r) = vs ! 3 \<and> hist_ended_at r = None
      then r\<lparr>hist_ended_at := Some db_now, hist_duration_secs := vs ! 0, hist_status := vs ! 1,
             hist_recording_file := vs ! 2\<rparr>
      else r)"

definition end_session_history ::
    "RegistryTs \<Rightarrow> string \<Rightarrow> string \<Rightarrow> 64 word \<Rightarrow> string option \<Rightarrow> Database \<Rightarrow> unit db_result" where
  "end_session_history db_now sid st duration_secs recording_file db =
     (if exec_ok db then
        (let vs = bind_args (backend db) [2, 3, 4, 1]
                    [Str sid, I64 (sint duration_secs), Str st, OptStr recording_file]
         in (Some (), db\<lparr>session_history := map (end_row db_now vs) (session_history db)\<rparr>))
      else (None, db))"

definition close_row :: "(RegistryTs \<Rightarrow> RegistryTs \<Rightarrow> int) \<Rightarrow> RegistryTs \<Rightarrow> string \<Rightarrow> HistoryRow \<Rightarrow> HistoryRow" where
  "close_row elapsed db_now st r =
     r\<lparr>hist_ended_at := Some db_now,
       hist_duration_secs := Integer (max (elapsed db_now (hist_started_at r)) 0),
       hist_status := Text st\<rparr>"

definition close_all_open_sessions ::
    "(RegistryTs \<Rightarrow> RegistryTs \<Rightarrow> int) \<Rightarrow> RegistryTs \<Rightarrow> string \<Rightarrow> Database \<Rightarrow> nat db_result" where
  "close_all_open_sessions elapsed db_now st db =
     (if exec_ok db then
        (Some (length (filter (\<lambda>r. hist_ended_at r = None) (session_history db))),
         db\<lparr>session_history :=
              map (\<lambda>r. if hist_ended_at r = None then close_row elapsed db_now st r else r)
                (session_history db)\<rparr>)
      else (None, db))"

text \<open>The statuses the SQL statements treat as terminal.\<close>

definition terminal_names :: "string list" where
  "terminal_names = [''completed'', ''error'', ''expired'']"

definition owned_elsewhere :: "Database \<Rightarrow> string \<Rightarrow> string \<Rightarrow> bool" where
  "owned_elsewhere db owner sid =
     list_ex (\<lambda>r. reg_session_id r = sid \<and> reg_status r \<notin> set terminal_names \<and>
                  reg_owner_instance r \<noteq> owner) (session_registry db)"

definition stale_row :: "Database \<Rightarrow> string option \<Rightarrow> HistoryRow \<Rightarrow> bool" where
  "stale_row db owner_instance r \<longleftrightarrow>
     hist_status r = Text ''active'' \<and> hist_ended_at r = None \<and>
     (case owner_instance of
        None \<Rightarrow> True
      | Some owner \<Rightarrow> \<not> owned_elsewhere db owner (hist_session_id r))"

definition close_stale_active_history ::
    "(RegistryTs \<Rightarrow> RegistryTs \<Rightarrow> int) \<Rightarrow> RegistryTs \<Rightarrow> string option \<Rightarrow> Database \<Rightarrow> nat db_result" where
  "close_stale_active_history elapsed db_now owner_instance db =
     (if exec_ok db then
        (Some (length (filter (stale_row db owner_instance) (session_history db))),
         db\<lparr>session_history :=
              map (\<lambda>r. if stale_row db owner_instance r then close_row elapsed db_now ''interrupted'' r else r)
                (session_history db)\<rparr>)
      else (None, db))"

definition update_session_history_reason :: "string \<Rightarrow> string \<Rightarrow> Database \<Rightarrow> unit db_result" where
  "update_session_history_reason sid reason db =
     (if exec_ok db then
        (let vs = bind_args (backend db) [1, 2] [Str reason, Str sid]
         in (Some (), db\<lparr>session_history :=
              map (\<lambda>r. if Text (hist_session_id r) = vs ! 1 \<and> hist_reason r = None
                       then r\<lparr>hist_reason := (case vs ! 0 of Text t \<Rightarrow> Some t | _ \<Rightarrow> None)\<rparr> else r)
                (session_history db)\<rparr>))
      else (None, db))"

section \<open>Session registry\<close>

text \<open>Without a pool every registry function is a no-op that succeeds.\<close>

definition registry_upsert_session ::
    "string \<Rightarrow> string \<Rightarrow> string \<Rightarrow> string \<Rightarrow> string \<Rightarrow> string \<Rightarrow> string \<Rightarrow> string \<Rightarrow> RegistryTs \<Rightarrow>
     RegistryTs \<Rightarrow> string \<Rightarrow> Database \<Rightarrow> unit db_result" where
  "registry_upsert_session sid owner base_url stype st host user creator created last_active conn db =
     (if \<not> has_pool db then (Some (), db)
      else if \<not> exec_ok db then (None, db)
      else let upd = (\<lambda>r. r\<lparr>reg_owner_instance := owner, reg_owner_base_url := base_url,
                 reg_session_type := stype, reg_status := st, reg_hostname := host,
                 reg_username := user, reg_created_by := creator, reg_created_at := created,
                 reg_last_active_at := last_active, reg_connection_id := conn\<rparr>)
           in (Some (), db\<lparr>session_registry :=
                if list_ex (\<lambda>r. reg_session_id r = sid) (session_registry db)
                then map (\<lambda>r. if reg_session_id r = sid then upd r else r) (session_registry db)
                else session_registry db @
                  [\<lparr>reg_session_id = sid, reg_owner_instance = owner, reg_owner_base_url = base_url,
                    reg_session_type = stype, reg_status = st, reg_hostname = host,
                    reg_username = user, reg_created_by = creator, reg_created_at = created,
                    reg_last_active_at = last_active, reg_connection_id = conn,
                    reg_shadow_token_hash = None, reg_shadow_issued_by = None,
                    reg_shadow_expires_at = None\<rparr>]\<rparr>))"

definition registry_update ::
    "string \<Rightarrow> (SessionRegistryRow \<Rightarrow> SessionRegistryRow) \<Rightarrow> Database \<Rightarrow> unit db_result" where
  "registry_update sid f db =
     (if \<not> has_pool db then (Some (), db)
      else if \<not> exec_ok db then (None, db)
      else (Some (), db\<lparr>session_registry :=
             map (\<lambda>r. if reg_session_id r = sid then f r else r) (session_registry db)\<rparr>))"

definition registry_set_status :: "string \<Rightarrow> string \<Rightarrow> RegistryTs \<Rightarrow> Database \<Rightarrow> unit db_result" where
  "registry_set_status sid st last_active =
     registry_update sid (\<lambda>r. r\<lparr>reg_status := st, reg_last_active_at := last_active\<rparr>)"

definition registry_set_shadow_token ::
    "string \<Rightarrow> string \<Rightarrow> string \<Rightarrow> RegistryTs \<Rightarrow> Database \<Rightarrow> unit db_result" where
  "registry_set_shadow_token sid hash issuer expires =
     registry_update sid (\<lambda>r. r\<lparr>reg_shadow_token_hash := Some hash,
       reg_shadow_issued_by := Some issuer, reg_shadow_expires_at := Some expires\<rparr>)"

definition registry_delete_where ::
    "(SessionRegistryRow \<Rightarrow> bool) \<Rightarrow> Database \<Rightarrow> nat db_result" where
  "registry_delete_where P db =
     (if \<not> has_pool db then (Some 0, db)
      else if \<not> exec_ok db then (None, db)
      else (Some (length (filter P (session_registry db))),
            db\<lparr>session_registry := filter (\<lambda>r. \<not> P r) (session_registry db)\<rparr>))"

definition registry_delete_session :: "string \<Rightarrow> Database \<Rightarrow> unit db_result" where
  "registry_delete_session sid db =
     (case registry_delete_where (\<lambda>r. reg_session_id r = sid) db of
        (n, db') \<Rightarrow> (map_option (\<lambda>_. ()) n, db'))"

definition registry_get_session :: "string \<Rightarrow> Database \<Rightarrow> SessionRegistryRow option option" where
  "registry_get_session sid db =
     (if \<not> has_pool db \<or> backend db = PoolNone then Some None
      else if db_fails db then None
      else Some (find (\<lambda>r. reg_session_id r = sid) (session_registry db)))"

definition registry_list_sessions :: "Database \<Rightarrow> SessionRegistryRow list option" where
  "registry_list_sessions db =
     (if \<not> has_pool db \<or> backend db = PoolNone then Some []
      else if db_fails db then None
      else Some (sort_key reg_created_at (session_registry db)))"

definition registry_list_owned :: "string \<Rightarrow> Database \<Rightarrow> string list option" where
  "registry_list_owned owner db =
     (if \<not> has_pool db \<or> backend db = PoolNone then Some []
      else if db_fails db then None
      else Some (map reg_session_id (filter (\<lambda>r. reg_owner_instance r = owner) (session_registry db))))"

definition stale_registry_row ::
    "string \<Rightarrow> RegistryTs \<Rightarrow> RegistryTs \<Rightarrow> RegistryTs option \<Rightarrow> SessionRegistryRow \<Rightarrow> bool" where
  "stale_registry_row owner pending_cutoff terminal_cutoff live_cutoff r \<longleftrightarrow>
     reg_status r = ''pending'' \<and> reg_created_at r < pending_cutoff \<or>
     reg_status r \<in> set terminal_names \<and> reg_created_at r < terminal_cutoff \<or>
     (case live_cutoff of
        None \<Rightarrow> False
      | Some cutoff \<Rightarrow>
          reg_status r \<notin> set (''pending'' # terminal_names) \<and> reg_owner_instance r \<noteq> owner \<and>
          reg_created_at r < cutoff)"

definition registry_delete_stale ::
    "string \<Rightarrow> RegistryTs \<Rightarrow> RegistryTs \<Rightarrow> RegistryTs option \<Rightarrow> Database \<Rightarrow> nat db_result" where
  "registry_delete_stale owner pending_cutoff terminal_cutoff live_cutoff =
     registry_delete_where (stale_registry_row owner pending_cutoff terminal_cutoff live_cutoff)"

definition registry_delete_all_owned :: "string \<Rightarrow> Database \<Rightarrow> nat db_result" where
  "registry_delete_all_owned owner = registry_delete_where (\<lambda>r. reg_owner_instance r = owner)"

section \<open>Lemmas\<close>

lemma end_row_numbered:
  "numbered_placeholders b \<Longrightarrow>
     end_row t (bind_args b [2, 3, 4, Suc 0] [Str sid, I64 d, Str st, OptStr rec]) r =
       (if hist_session_id r = sid \<and> hist_ended_at r = None
        then r\<lparr>hist_ended_at := Some t, hist_duration_secs := Integer d, hist_status := Text st,
               hist_recording_file := sql_value (OptStr rec)\<rparr>
        else r)"
  by (simp add: end_row_def bind_args_def)

lemma end_row_anonymous:
  "\<not> numbered_placeholders b \<Longrightarrow>
     end_row t (bind_args b [2, 3, 4, Suc 0] [Str sid, I64 d, Str st, OptStr rec]) r =
       (if Some (hist_session_id r) = rec \<and> hist_ended_at r = None
        then r\<lparr>hist_ended_at := Some t, hist_duration_secs := Text sid, hist_status := Integer d,
               hist_recording_file := Text st\<rparr>
        else r)"
  by (cases rec) (auto simp: end_row_def bind_args_def)

lemma backend_end [simp]: "backend (snd (end_session_history t sid st d rec db)) = backend db"
  by (simp add: end_session_history_def Let_def)

lemma exec_ok_end [simp]: "exec_ok (snd (end_session_history t sid st d rec db)) = exec_ok db"
  by (simp add: end_session_history_def Let_def exec_ok_def)

lemma registry_end [simp]:
  "session_registry (snd (end_session_history t sid st d rec db)) = session_registry db"
  by (simp add: end_session_history_def Let_def)

lemma end_session_history_rows:
  "exec_ok db \<Longrightarrow> numbered_placeholders (backend db) \<Longrightarrow>
     session_history (snd (end_session_history t sid st d rec db)) =
       map (\<lambda>r. if hist_session_id r = sid \<and> hist_ended_at r = None
                then r\<lparr>hist_ended_at := Some t, hist_duration_secs := Integer (sint d),
                       hist_status := Text st, hist_recording_file := sql_value (OptStr rec)\<rparr>
                else r) (session_history db)"
  by (simp add: end_session_history_def Let_def end_row_numbered)

lemma registry_delete_where_kept:
  "r \<in> set (session_registry db) \<Longrightarrow> \<not> P r \<Longrightarrow>
     r \<in> set (session_registry (snd (registry_delete_where P db)))"
  by (simp add: registry_delete_where_def)

section \<open>Properties\<close>

text \<open>
  The history of a session is closed exactly once, by whoever comes first. On the
  local SQLite connection and on PostgreSQL, \<open>end_session_history\<close> closes the open rows of
  the session with the given status, duration and recording, leaves every other row alone,
  and a later call for the same session changes nothing, whatever status it brings.
\<close>

theorem end_session_history_first_wins:
  assumes "exec_ok db" "numbered_placeholders (backend db)"
    and db1_def: "db1 = snd (end_session_history t1 sid st1 d1 rec1 db)"
  shows "list_all2 (\<lambda>r r'.
       r' = (if hist_session_id r = sid \<and> hist_ended_at r = None
             then r\<lparr>hist_ended_at := Some t1, hist_duration_secs := Integer (sint d1),
                    hist_status := Text st1, hist_recording_file := sql_value (OptStr rec1)\<rparr>
             else r)) (session_history db) (session_history db1) \<and>
     end_session_history t2 sid st2 d2 rec2 db1 = (Some (), db1)"
proof
  show "list_all2 (\<lambda>r r'.
       r' = (if hist_session_id r = sid \<and> hist_ended_at r = None
             then r\<lparr>hist_ended_at := Some t1, hist_duration_secs := Integer (sint d1),
                    hist_status := Text st1, hist_recording_file := sql_value (OptStr rec1)\<rparr>
             else r)) (session_history db) (session_history db1)"
    using assms(1,2) by (simp add: db1_def end_session_history_rows list_all2_map2 list_all2_refl)
  have "session_history (snd (end_session_history t2 sid st2 d2 rec2 db1)) = session_history db1"
    using assms(1,2) by (auto simp: db1_def end_session_history_rows)
  then show "end_session_history t2 sid st2 d2 rec2 db1 = (Some (), db1)"
    using assms(1,2) by (simp add: db1_def end_session_history_def Let_def exec_ok_def)
qed

definition demo_row :: HistoryRow where
  "demo_row = \<lparr>hist_session_id = ''s1'', hist_session_type = ''ssh'', hist_hostname = ''h'',
     hist_port = None, hist_username = ''u'', hist_created_by = ''c'', hist_address_book_entry = None,
     hist_address_book_folder = None, hist_entry_display_name = None, hist_reason = None,
     hist_source_ip = None, hist_started_at = 100, hist_ended_at = None, hist_duration_secs = Null,
     hist_recording_file = Null, hist_status = Text ''active''\<rparr>"

definition demo_db :: "Backend \<Rightarrow> Database" where
  "demo_db b = \<lparr>backend = b, session_history = [demo_row], session_registry = [], db_fails = False\<rparr>"

theorem end_session_history_first_wins_witness:
  "end_session_history 300 ''s1'' ''disconnected'' 200 None
       (snd (end_session_history 200 ''s1'' ''logged_out'' 100 None (demo_db LocalSqlite))) =
     (Some (), snd (end_session_history 200 ''s1'' ''logged_out'' 100 None (demo_db LocalSqlite)))"
  using end_session_history_first_wins
    [of "demo_db LocalSqlite" _ 200 "''s1''" "''logged_out''" 100 None 300 "''disconnected''" 200 None,
      OF _ _ refl]
  by (simp add: demo_db_def exec_ok_def)

text \<open>
  On a MySQL or SQLite pool \<open>end_session_history\<close> closes nothing: the anonymous
  placeholders take the arguments in the order of the array, so the row is looked up under
  the recording file's name instead of the session id. The statement succeeds and every row
  stays as it is, as long as no session id is the name of a recording file.
\<close>

theorem end_session_history_anonymous_noop:
  assumes "exec_ok db" "\<not> numbered_placeholders (backend db)"
    and "list_all (\<lambda>r. Some (hist_session_id r) \<noteq> rec) (session_history db)"
  shows "end_session_history t sid st d rec db = (Some (), db)"
proof -
  have "map (end_row t (bind_args (backend db) [2, 3, 4, Suc 0] [Str sid, I64 (sint d), Str st, OptStr rec]))
      (session_history db) = session_history db"
    using assms(2,3) by (intro map_idI) (auto simp: end_row_anonymous list_all_iff)
  then show ?thesis using assms(1) by (simp add: end_session_history_def Let_def)
qed

theorem end_session_history_anonymous_noop_witness:
  "end_session_history 200 ''s1'' ''logged_out'' 100 (Some ''s1.guac'') (demo_db PoolMySQL) =
     (Some (), demo_db PoolMySQL)"
  using end_session_history_anonymous_noop [of "demo_db PoolMySQL" "Some ''s1.guac''" 200 "''s1''"
      "''logged_out''" 100]
  by (simp add: demo_db_def demo_row_def exec_ok_def)

text \<open>
  The sweep of the shared registry never removes a session that this instance is
  serving: a row of its own that is neither pending nor terminal survives
  \<open>registry_delete_stale\<close> for all cutoffs, and without a live cutoff so does every such row
  of any instance.
\<close>

theorem registry_delete_stale_keeps_live:
  assumes "r \<in> set (session_registry db)" "reg_status r \<notin> set (''pending'' # terminal_names)"
    and "reg_owner_instance r = owner \<or> live_cutoff = None"
  shows "r \<in> set (session_registry
     (snd (registry_delete_stale owner pending_cutoff terminal_cutoff live_cutoff db)))"
  unfolding registry_delete_stale_def
  using assms by (intro registry_delete_where_kept) (auto simp: stale_registry_row_def split: option.splits)

definition demo_reg :: "string \<Rightarrow> SessionRegistryRow" where
  "demo_reg st = \<lparr>reg_session_id = ''s1'', reg_owner_instance = ''a'', reg_owner_base_url = [],
     reg_session_type = ''ssh'', reg_status = st, reg_hostname = ''h'', reg_username = ''u'',
     reg_created_by = ''c'', reg_created_at = 100, reg_last_active_at = 100, reg_connection_id = ''$1'',
     reg_shadow_token_hash = None, reg_shadow_issued_by = None, reg_shadow_expires_at = None\<rparr>"

definition demo_registry :: "string \<Rightarrow> Database" where
  "demo_registry st = \<lparr>backend = PoolPostgres, session_history = [], session_registry = [demo_reg st],
     db_fails = False\<rparr>"

theorem registry_delete_stale_keeps_live_witness:
  "demo_reg ''active'' \<in> set (session_registry
     (snd (registry_delete_stale ''a'' 1000 1000 (Some 1000) (demo_registry ''active''))))"
  using registry_delete_stale_keeps_live [of "demo_reg ''active''" "demo_registry ''active''" "''a''"
      "Some 1000" 1000 1000]
  by (simp add: demo_registry_def demo_reg_def terminal_names_def)

text \<open>
  A pending row of the instance's own is removed once it is older than the pending cutoff,
  although a pending session is a live one.
\<close>

lemma registry_delete_stale_own_pending:
  "session_registry (snd (registry_delete_stale ''a'' 1000 0 None (demo_registry ''pending''))) = []"
  by code_simp

text \<open>
  The shutdown of one instance closes the open history rows of every instance that shares
  the database: the update has no condition on the owner.
\<close>

lemma close_all_open_sessions_closes_all:
  "exec_ok db \<Longrightarrow>
     list_all (\<lambda>r. hist_ended_at r \<noteq> None)
       (session_history (snd (close_all_open_sessions elapsed t st db)))"
  by (auto simp: close_all_open_sessions_def close_row_def list_all_iff)

end
