(* ===== verification/Event_Bus.thy ===== *)
theory Event_Bus
  imports Session_Types
begin

text \<open>
  The session event feed (\<open>SessionEventBus\<close> in \<open>src/src/session/manager.rs\<close>): a bounded log
  of lifecycle events with a cursor, and the watch value that wakes subscribers. The
  interface of such a feed is the locale \<open>event_feed\<close>; the polling consumer of
  \<open>GET /api/sessions/events\<close> is verified against that interface, and the bus is shown to
  provide it.
\<close>

section \<open>The bus\<close>

definition SESSION_EVENT_LOG_CAP :: nat where
  "SESSION_EVENT_LOG_CAP = 500"

record EventLog =
  events :: "SessionEvent list"
  next_id :: "64 word"

record SessionEventBus =
  log :: EventLog
  watch_value :: "64 word"

definition bus_new :: SessionEventBus where
  "bus_new = \<lparr>log = \<lparr>events = [], next_id = 1\<rparr>, watch_value = 0\<rparr>"

text \<open>The pop loop of \<open>publish\<close>: drop events at the front while there are more than the cap.\<close>

fun trim_log :: "SessionEvent list \<Rightarrow> SessionEvent list" where
  "trim_log es = (if SESSION_EVENT_LOG_CAP < length es then trim_log (tl es) else es)"

declare trim_log.simps [simp del]

definition publish :: "SessionEvent \<Rightarrow> SessionEventBus \<Rightarrow> SessionEventBus" where
  "publish event bus =
     (let ev = event\<lparr>ev_id := next_id (log bus)\<rparr>;
          n = next_id (log bus) + 1
      in \<lparr>log = \<lparr>events = trim_log (events (log bus) @ [ev]), next_id = n\<rparr>, watch_value = n - 1\<rparr>)"

definition replay_events :: "64 word \<Rightarrow> SessionEventBus \<Rightarrow> 64 word \<times> SessionEvent list" where
  "replay_events since bus =
     (let n = next_id (log bus)
      in (if n = 0 then 0 else n - 1, filter (\<lambda>e. since < ev_id e) (events (log bus))))"

text \<open>
  The event stream (\<open>produce_events\<close> in \<open>src/src/api/events.rs\<close>) to a client that stays
  connected. \<open>batches\<close> are the events published between two wake-ups of the stream; the watch
  receiver only wakes it when something was published.
\<close>

definition visible :: "bool \<Rightarrow> string \<Rightarrow> SessionEvent \<Rightarrow> bool" where
  "visible show_all owner e \<longleftrightarrow> show_all \<or> ev_created_by e = owner"

definition drain :: "64 word \<Rightarrow> SessionEventBus \<Rightarrow> SessionEvent list \<times> 64 word" where
  "drain last_seen bus =
     (let es = snd (replay_events last_seen bus)
      in (es, if es = [] then last_seen else ev_id (last es)))"

primrec stream_loop ::
    "bool \<Rightarrow> string \<Rightarrow> SessionEventBus \<Rightarrow> 64 word \<Rightarrow> SessionEvent list list \<Rightarrow> SessionEvent list" where
  "stream_loop show_all owner bus last_seen [] = []"
| "stream_loop show_all owner bus last_seen (batch # batches) =
     (let bus' = fold publish batch bus in
      if batch = [] then stream_loop show_all owner bus' last_seen batches
      else case drain last_seen bus' of (es, last_seen') \<Rightarrow>
        filter (visible show_all owner) es @ stream_loop show_all owner bus' last_seen' batches)"

definition produce_events ::
    "bool \<Rightarrow> string \<Rightarrow> 64 word option \<Rightarrow> SessionEventBus \<Rightarrow> SessionEvent list list \<Rightarrow> SessionEvent list" where
  "produce_events show_all owner resume_from bus batches =
     (case (case resume_from of Some since \<Rightarrow> drain since bus | None \<Rightarrow> ([], watch_value bus)) of
        (es, last_seen) \<Rightarrow>
          filter (visible show_all owner) es @ stream_loop show_all owner bus last_seen batches)"

definition replay_response :: "64 word \<Rightarrow> string \<Rightarrow> bool \<Rightarrow> SessionEventBus \<Rightarrow> 64 word \<times> SessionEvent list" where
  "replay_response since owner show_all bus =
     (case replay_events since bus of (cursor, es) \<Rightarrow> (cursor, filter (visible show_all owner) es))"

section \<open>The interface of an event feed\<close>

text \<open>
  A feed numbers the published events from 1 and can replay what came after a cursor, as
  long as no more than \<open>cap\<close> events came after it and fewer than \<open>limit\<close> were published.
\<close>

locale event_feed =
  fixes feed0 :: 'b
    and pub :: "'e \<Rightarrow> 'b \<Rightarrow> 'b"
    and replay :: "nat \<Rightarrow> 'b \<Rightarrow> 'e list"
    and stamp :: "nat \<Rightarrow> 'e \<Rightarrow> 'e"
    and cursor_of :: "'e \<Rightarrow> nat"
    and cap limit :: nat
  assumes replay_published:
    "length evs < limit \<Longrightarrow> since \<le> length evs \<Longrightarrow> length evs - since \<le> cap \<Longrightarrow>
       replay since (fold pub evs feed0) = map (\<lambda>i. stamp (Suc i) (evs ! i)) [since..<length evs]"
    and cursor_of_stamp: "n \<le> limit \<Longrightarrow> cursor_of (stamp n e) = n"
begin

text \<open>
  A consumer that follows the feed: after each batch of published events it replays from its
  cursor and moves the cursor to the last event it was given.
\<close>

primrec consume :: "'b \<Rightarrow> nat \<Rightarrow> 'e list list \<Rightarrow> 'e list" where
  "consume feed cursor [] = []"
| "consume feed cursor (batch # batches) =
     (let feed' = fold pub batch feed; got = replay cursor feed'
      in got @ consume feed' (if got = [] then cursor else cursor_of (last got)) batches)"

lemma last_stamped:
  "since < length evs \<Longrightarrow> length evs \<le> limit \<Longrightarrow>
     cursor_of (last (map (\<lambda>i. stamp (Suc i) (evs ! i)) [since..<length evs])) = length evs"
proof -
  assume "since < length evs" "length evs \<le> limit"
  then obtain n where n: "length evs = Suc n" "since \<le> n" by (cases "length evs") auto
  then have "[since..<length evs] = [since..<n] @ [n]" by simp
  with n \<open>length evs \<le> limit\<close>
  show "cursor_of (last (map (\<lambda>i. stamp (Suc i) (evs ! i)) [since..<length evs])) = length evs"
    by (simp add: cursor_of_stamp)
qed

lemma consume_published:
  assumes "list_all (\<lambda>b. length b \<le> cap) batches" "length (evs @ concat batches) < limit"
  shows "consume (fold pub evs feed0) (length evs) batches =
     map (\<lambda>i. stamp (Suc i) ((evs @ concat batches) ! i)) [length evs..<length (evs @ concat batches)]"
  using assms
proof (induction batches arbitrary: evs)
  case (Cons b bs)
  let ?evs = "evs @ b" and ?all = "evs @ b @ concat bs"
  let ?got = "map (\<lambda>i. stamp (Suc i) (?evs ! i)) [length evs..<length ?evs]"
  have feed: "fold pub b (fold pub evs feed0) = fold pub ?evs feed0" by simp
  have rep: "replay (length evs) (fold pub ?evs feed0) = ?got"
    using Cons.prems by (intro replay_published) auto
  have cur: "(if ?got = [] then length evs else cursor_of (last ?got)) = length ?evs"
    using last_stamped [of "length evs" ?evs] Cons.prems by (cases b) simp_all
  have "consume (fold pub evs feed0) (length evs) (b # bs) =
      ?got @ consume (fold pub ?evs feed0) (length ?evs) bs"
    by (simp only: consume.simps feed rep Let_def cur)
  also have "?got = map (\<lambda>i. stamp (Suc i) (?all ! i)) [length evs..<length ?evs]"
    by (auto simp: nth_append)
  also have "consume (fold pub ?evs feed0) (length ?evs) bs =
      map (\<lambda>i. stamp (Suc i) (?all ! i)) [length ?evs..<length ?all]"
    using Cons.IH [of ?evs] Cons.prems by simp
  also have "map (\<lambda>i. stamp (Suc i) (?all ! i)) [length evs..<length ?evs] @ \<dots> =
      map (\<lambda>i. stamp (Suc i) (?all ! i)) [length evs..<length ?all]"
    using upt_add_eq_append [of "length evs" "length ?evs" "length (concat bs)"]
    by (simp add: add.assoc flip: map_append)
  finally show ?case by simp
qed simp

text \<open>A consumer that resumes at an old cursor catches up first.\<close>

lemma consume_resumed:
  assumes "list_all (\<lambda>b. length b \<le> cap) batches" "length (evs @ concat batches) < limit"
    and "since \<le> length evs" "length evs - since \<le> cap"
  shows "consume (fold pub evs feed0) since ([] # batches) =
     map (\<lambda>i. stamp (Suc i) ((evs @ concat batches) ! i)) [since..<length (evs @ concat batches)]"
proof -
  let ?all = "evs @ concat batches"
  let ?got = "map (\<lambda>i. stamp (Suc i) (evs ! i)) [since..<length evs]"
  have rep: "replay since (fold pub evs feed0) = ?got" using assms by (intro replay_published) auto
  have cur: "(if ?got = [] then since else cursor_of (last ?got)) = length evs"
    using last_stamped [of since evs] assms by auto
  have "consume (fold pub evs feed0) since ([] # batches) =
      ?got @ consume (fold pub evs feed0) (length evs) batches"
    by (simp only: consume.simps fold_simps id_apply rep Let_def cur)
  also have "?got = map (\<lambda>i. stamp (Suc i) (?all ! i)) [since..<length evs]" by (auto simp: nth_append)
  also have "consume (fold pub evs feed0) (length evs) batches =
      map (\<lambda>i. stamp (Suc i) (?all ! i)) [length evs..<length ?all]"
    using consume_published [OF assms(1,2)] .
  also have "map (\<lambda>i. stamp (Suc i) (?all ! i)) [since..<length evs] @ \<dots> =
      map (\<lambda>i. stamp (Suc i) (?all ! i)) [since..<length ?all]"
    using upt_add_eq_append [of since "length evs" "length (concat batches)"] assms(3)
    by (simp flip: map_append)
  finally show ?thesis .
qed

end

section \<open>The bus is an event feed\<close>

lemma trim_log_drop: "trim_log es = drop (length es - SESSION_EVENT_LOG_CAP) es"
proof (induction es rule: trim_log.induct)
  case (1 es)
  show ?case
  proof (cases "SESSION_EVENT_LOG_CAP < length es")
    case True
    then have "length es - SESSION_EVENT_LOG_CAP = Suc (length (tl es) - SESSION_EVENT_LOG_CAP)" by simp
    then have "drop (length es - SESSION_EVENT_LOG_CAP) es = drop (length (tl es) - SESSION_EVENT_LOG_CAP) (tl es)"
      by (simp only: drop_Suc)
    with 1 True show ?thesis by (subst trim_log.simps) simp
  next
    case False
    then show ?thesis by (subst trim_log.simps) simp
  qed
qed

text \<open>The event as the \<open>n\<close>-th one of the feed.\<close>

definition stamp_event :: "nat \<Rightarrow> SessionEvent \<Rightarrow> SessionEvent" where
  "stamp_event n e = e\<lparr>ev_id := word_of_nat n\<rparr>"

definition numbered :: "SessionEvent list \<Rightarrow> SessionEvent list" where
  "numbered evs = map (\<lambda>i. stamp_event (Suc i) (evs ! i)) [0..<length evs]"

lemma numbered_snoc: "numbered (evs @ [e]) = numbered evs @ [stamp_event (Suc (length evs)) e]"
  by (simp add: numbered_def nth_append)

lemma length_numbered [simp]: "length (numbered evs) = length evs"
  by (simp add: numbered_def)

text \<open>The state of the bus after any sequence of publications.\<close>

lemma bus_published:
  "fold publish evs bus_new =
     \<lparr>log = \<lparr>events = drop (length evs - SESSION_EVENT_LOG_CAP) (numbered evs),
             next_id = word_of_nat (Suc (length evs))\<rparr>,
      watch_value = word_of_nat (length evs)\<rparr>"
proof (induction evs rule: rev_induct)
  case Nil
  then show ?case by (simp add: bus_new_def numbered_def)
next
  case (snoc e evs)
  let ?c = SESSION_EVENT_LOG_CAP and ?n = "length evs"
  have "trim_log (drop (?n - ?c) (numbered evs) @ [stamp_event (Suc ?n) e]) =
      drop (Suc ?n - ?c) (numbered (evs @ [e]))"
    by (cases "?n < ?c") (simp_all add: trim_log_drop numbered_snoc Suc_diff_le)
  moreover have "fold publish (evs @ [e]) bus_new = publish e (fold publish evs bus_new)" by simp
  ultimately show ?case
    by (simp only: snoc) (simp add: publish_def Let_def stamp_event_def add_ac)
qed

lemma unat_word_of_nat_64: "n < 2 ^ 64 \<Longrightarrow> unat (word_of_nat n :: 64 word) = n"
  by (simp add: unat_of_nat)

lemma word_of_nat_less_64:
  "m < 2 ^ 64 \<Longrightarrow> n < 2 ^ 64 \<Longrightarrow> (word_of_nat m :: 64 word) < word_of_nat n \<longleftrightarrow> m < n"
  by (simp add: word_less_nat_alt unat_word_of_nat_64)

lemma cursor_before:
  "since < 2 ^ 64 \<Longrightarrow> Suc i < 2 ^ 64 \<Longrightarrow>
     since \<le> i \<longleftrightarrow> word_of_nat since < ev_id (stamp_event (Suc i) e)"
  using word_of_nat_less_64 [of since "Suc i"] by (simp add: stamp_event_def less_Suc_eq_le)

lemma filter_upt_less: "filter (\<lambda>i. s \<le> i) [k..<n] = [max k s..<n]"
  by (induction n) (auto simp: max_def)

lemma replay_published_bus:
  assumes "length evs < 2 ^ 64 - 1" "since \<le> length evs" "length evs - since \<le> SESSION_EVENT_LOG_CAP"
  shows "map_prod unat id (replay_events (word_of_nat since) (fold publish evs bus_new)) =
     (length evs, map (\<lambda>i. stamp_event (Suc i) (evs ! i)) [since..<length evs])"
proof -
  let ?n = "length evs" and ?k = "length evs - SESSION_EVENT_LOG_CAP"
  have "filter (\<lambda>e. word_of_nat since < ev_id e) (drop ?k (numbered evs)) =
      map (\<lambda>i. stamp_event (Suc i) (evs ! i)) (filter (\<lambda>i. since \<le> i) [?k..<?n])"
  proof -
    have "filter (\<lambda>i. word_of_nat since < ev_id (stamp_event (Suc i) (evs ! i))) [?k..<?n] =
        filter (\<lambda>i. since \<le> i) [?k..<?n]"
      using assms(1,2) by (intro filter_cong refl cursor_before [symmetric]) auto
    then show ?thesis by (simp add: numbered_def drop_map filter_map comp_def)
  qed
  also have "filter (\<lambda>i. since \<le> i) [?k..<?n] = [since..<?n]"
    using assms(3) by (simp add: filter_upt_less max_def)
  finally have ev: "filter (\<lambda>e. word_of_nat since < ev_id e) (drop ?k (numbered evs)) =
      map (\<lambda>i. stamp_event (Suc i) (evs ! i)) [since..<?n]" .
  have "unat (word_of_nat (Suc ?n) :: 64 word) = Suc ?n" "unat (word_of_nat ?n :: 64 word) = ?n"
    using assms(1) by (simp_all add: unat_word_of_nat_64 del: of_nat_Suc)
  then have "(word_of_nat (Suc ?n) :: 64 word) \<noteq> 0" by (metis nat.distinct(1) unat_0)
  then show ?thesis
    using ev \<open>unat (word_of_nat ?n :: 64 word) = ?n\<close>
    by (simp add: bus_published replay_events_def Let_def)
qed

lemma replay_published_events:
  assumes "length evs < 2 ^ 64 - 1" "since \<le> length evs" "length evs - since \<le> SESSION_EVENT_LOG_CAP"
  shows "snd (replay_events (word_of_nat since) (fold publish evs bus_new)) =
     map (\<lambda>i. stamp_event (Suc i) (evs ! i)) [since..<length evs]"
  using arg_cong [OF replay_published_bus [OF assms], of snd] by simp

interpretation bus: event_feed bus_new publish
    "\<lambda>since b. snd (replay_events (word_of_nat since) b)" stamp_event "\<lambda>e. unat (ev_id e)"
    SESSION_EVENT_LOG_CAP "2 ^ 64 - 1"
  by unfold_locales (rule replay_published_events, simp_all add: stamp_event_def unat_word_of_nat_64)

text \<open>The stream loop is the consumer of the interface, filtered.\<close>

lemma stream_loop_consume:
  assumes "list_all (\<lambda>b. b \<noteq> []) batches"
  shows "stream_loop show_all owner b (word_of_nat c) batches =
     filter (visible show_all owner) (bus.consume b c batches)"
  using assms
proof (induction batches arbitrary: b c)
  case (Cons a as)
  let ?es = "snd (replay_events (word_of_nat c) (fold publish a b))"
  let ?c = "if ?es = [] then c else unat (ev_id (last ?es))"
  have "stream_loop show_all owner (fold publish a b) (word_of_nat ?c) as =
      filter (visible show_all owner) (bus.consume (fold publish a b) ?c as)"
    using Cons by simp
  moreover have "word_of_nat ?c = (if ?es = [] then word_of_nat c else ev_id (last ?es))" by simp
  ultimately show ?case using Cons.prems by (simp add: Let_def drain_def)
qed simp

lemma numbered_drop: "drop since (numbered evs) = map (\<lambda>i. stamp_event (Suc i) (evs ! i)) [since..<length evs]"
  by (simp add: numbered_def drop_map)

lemma produce_events_resumed:
  assumes "list_all (\<lambda>b. b \<noteq> [] \<and> length b \<le> SESSION_EVENT_LOG_CAP) batches"
    and "length (evs @ concat batches) < 2 ^ 64 - 1"
    and "since \<le> length evs" "length evs - since \<le> SESSION_EVENT_LOG_CAP"
  shows "produce_events show_all owner (Some (word_of_nat since)) (fold publish evs bus_new) batches =
     filter (visible show_all owner) (drop since (numbered (evs @ concat batches)))"
proof -
  let ?b = "fold publish evs bus_new"
  let ?es = "snd (replay_events (word_of_nat since) ?b)"
  let ?c = "if ?es = [] then since else unat (ev_id (last ?es))"
  have bs: "list_all (\<lambda>b. b \<noteq> []) batches" "list_all (\<lambda>b. length b \<le> SESSION_EVENT_LOG_CAP) batches"
    using assms(1) by (auto simp: list_all_iff)
  have "word_of_nat ?c = (if ?es = [] then word_of_nat since else ev_id (last ?es))" by simp
  with stream_loop_consume [OF bs(1), of show_all owner ?b ?c]
  have "produce_events show_all owner (Some (word_of_nat since)) ?b batches =
      filter (visible show_all owner) (bus.consume ?b since ([] # batches))"
    by (simp add: produce_events_def drain_def Let_def)
  then show ?thesis
    using bus.consume_resumed [OF bs(2) assms(2-4)] by (simp only: numbered_drop)
qed

lemma produce_events_fresh:
  assumes "list_all (\<lambda>b. b \<noteq> [] \<and> length b \<le> SESSION_EVENT_LOG_CAP) batches"
    and "length (evs @ concat batches) < 2 ^ 64 - 1"
  shows "produce_events show_all owner None (fold publish evs bus_new) batches =
     filter (visible show_all owner) (drop (length evs) (numbered (evs @ concat batches)))"
proof -
  have bs: "list_all (\<lambda>b. b \<noteq> []) batches" "list_all (\<lambda>b. length b \<le> SESSION_EVENT_LOG_CAP) batches"
    using assms(1) by (auto simp: list_all_iff)
  have "watch_value (fold publish evs bus_new) = word_of_nat (length evs)"
    by (simp add: bus_published)
  then have "produce_events show_all owner None (fold publish evs bus_new) batches =
      filter (visible show_all owner) (bus.consume (fold publish evs bus_new) (length evs) batches)"
    using stream_loop_consume [OF bs(1)] by (simp add: produce_events_def)
  then show ?thesis
    using bus.consume_published [OF bs(2) assms(2)] by (simp only: numbered_drop)
qed

section \<open>Properties\<close>

text \<open>
  Claim C22. The event stream neither loses nor repeats an event. After any history of
  publications, a client that resumes from a cursor at most 500 events old receives exactly
  the events after its cursor that it may see, those already in the log first and then the
  live ones, in publication order and each once; a fresh client receives exactly the events
  published after it connected. This holds however the live events are batched between
  wake-ups of the stream, as long as no batch exceeds the size of the log.
\<close>

theorem produce_events_exactly_once:
  assumes "list_all (\<lambda>b. b \<noteq> [] \<and> length b \<le> SESSION_EVENT_LOG_CAP) batches"
    and "length (evs @ concat batches) < 2 ^ 64 - 1"
    and "since \<le> length evs" "length evs - since \<le> SESSION_EVENT_LOG_CAP"
  shows "produce_events show_all owner (Some (word_of_nat since)) (fold publish evs bus_new) batches =
       filter (visible show_all owner) (drop since (numbered (evs @ concat batches))) \<and>
     produce_events show_all owner None (fold publish evs bus_new) batches =
       filter (visible show_all owner) (drop (length evs) (numbered (evs @ concat batches)))"
  using produce_events_resumed [OF assms] produce_events_fresh [OF assms(1,2)] by blast

definition demo_event :: "string \<Rightarrow> SessionEvent" where
  "demo_event who = \<lparr>ev_id = 0, ev_event = SessionStarted, ev_session_id = ''s'', ev_session_type = SSH,
     ev_status = Pending, ev_created_by = who, ev_timestamp = 0\<rparr>"

theorem produce_events_exactly_once_witness:
  "produce_events False ''alice'' (Some 1) (fold publish [demo_event ''alice'', demo_event ''bob''] bus_new)
       [[demo_event ''alice'']] =
     filter (visible False ''alice'')
       (drop 1 (numbered ([demo_event ''alice'', demo_event ''bob''] @ concat [[demo_event ''alice'']])))"
  using produce_events_exactly_once [of "[[demo_event ''alice'']]"
      "[demo_event ''alice'', demo_event ''bob'']" 1 False "''alice''"]
  by (simp add: SESSION_EVENT_LOG_CAP_def)

text \<open>
  The log stays bounded: after any number of publications it holds at most 500
  events, namely the most recent ones, and the cursor that wakes subscribers is the number
  of publications so far (as a 64-bit counter).
\<close>

theorem event_log_bounded:
  "events (log (fold publish evs bus_new)) = drop (length evs - 500) (numbered evs) \<and>
     length (events (log (fold publish evs bus_new))) \<le> 500 \<and>
     watch_value (fold publish evs bus_new) = word_of_nat (length evs)"
  by (simp add: bus_published SESSION_EVENT_LOG_CAP_def)

text \<open>
  A cursor is only meaningful for the bus that issued it. After a restart the numbering
  begins again at 1, and a client that resumes with a cursor of the old numbering is sent
  nothing until the new numbering has passed it.
\<close>

lemma resume_after_restart_silent:
  "produce_events True [] (Some 7) bus_new [[demo_event ''alice''], [demo_event ''bob'']] = []"
  by code_simp

end
