(* ===== verification/Credentials.thy ===== *)
theory Credentials
  imports Session_Types
begin

text \<open>
  Retained login credentials (\<open>src/src/session/credentials.rs\<close> and the credential methods of
  \<open>src/src/session/manager.rs\<close>): an in-memory store keyed by the hash of the auth-session
  token. The hash function (SHA-256 in hexadecimal) is an argument; where two tokens must
  not collide, that is a named hypothesis. The clock is an argument of every operation.
\<close>

section \<open>The store\<close>

record RetainedSessionCredential =
  cred_user_id :: "64 word"
  cred_username :: string
  cred_password_enc :: string
  cred_expires_at :: DateTime

text \<open>The hash map as an association list with distinct keys.\<close>

type_synonym SessionCredentialStore = "(string \<times> RetainedSessionCredential) list"

definition store_new :: SessionCredentialStore where
  "store_new = []"

definition retain_unexpired :: "DateTime \<Rightarrow> SessionCredentialStore \<Rightarrow> SessionCredentialStore" where
  "retain_unexpired now st = filter (\<lambda>(_, e). now < cred_expires_at e) st"

definition store_store ::
    "(string \<Rightarrow> string) \<Rightarrow> DateTime \<Rightarrow> string \<Rightarrow> RetainedSessionCredential \<Rightarrow> SessionCredentialStore \<Rightarrow>
     SessionCredentialStore" where
  "store_store session_key now session_token cred st =
     AList.update (session_key session_token) cred (retain_unexpired now st)"

definition store_get ::
    "(string \<Rightarrow> string) \<Rightarrow> DateTime \<Rightarrow> string \<Rightarrow> 64 word \<Rightarrow> SessionCredentialStore \<Rightarrow>
     RetainedSessionCredential option \<times> SessionCredentialStore" where
  "store_get session_key now session_token uid st =
     (let entries = retain_unexpired now st
      in (case map_of entries (session_key session_token) of
            None \<Rightarrow> None
          | Some e \<Rightarrow> if cred_user_id e = uid then Some e else None, entries))"

definition store_remove_key :: "string \<Rightarrow> SessionCredentialStore \<Rightarrow> bool \<times> SessionCredentialStore" where
  "store_remove_key key st = (map_of st key \<noteq> None, AList.delete key st)"

definition store_remove ::
    "(string \<Rightarrow> string) \<Rightarrow> string \<Rightarrow> SessionCredentialStore \<Rightarrow> bool \<times> SessionCredentialStore" where
  "store_remove session_key session_token st = store_remove_key (session_key session_token) st"

definition store_prune_expired :: "DateTime \<Rightarrow> SessionCredentialStore \<Rightarrow> nat \<times> SessionCredentialStore" where
  "store_prune_expired now st =
     (length st - length (retain_unexpired now st), retain_unexpired now st)"

definition store_keys :: "SessionCredentialStore \<Rightarrow> string list" where
  "store_keys st = map fst st"

section \<open>The methods of the manager\<close>

definition store_session_credentials ::
    "(string \<Rightarrow> string) \<Rightarrow> DateTime \<Rightarrow> string \<Rightarrow> 64 word \<Rightarrow> string \<Rightarrow> string \<Rightarrow> 64 word \<Rightarrow>
     SessionCredentialStore \<Rightarrow> SessionCredentialStore" where
  "store_session_credentials session_key now session_token uid user password_enc ttl_secs st =
     store_store session_key now session_token
       \<lparr>cred_user_id = uid, cred_username = user, cred_password_enc = password_enc,
        cred_expires_at = now + sint ttl_secs * nanos\<rparr>
       (snd (store_prune_expired now st))"

text \<open>
  \<open>prune_session_credentials\<close>: drop what has expired, then what has no live auth session.
  The liveness check against the database is an argument; without a database only expiry
  counts.
\<close>

definition prune_session_credentials ::
    "(string \<Rightarrow> bool) option \<Rightarrow> DateTime \<Rightarrow> SessionCredentialStore \<Rightarrow> SessionCredentialStore" where
  "prune_session_credentials auth_session_is_live now st =
     (let st1 = snd (store_prune_expired now st)
      in case auth_session_is_live of
           None \<Rightarrow> st1
         | Some live \<Rightarrow>
             fold (\<lambda>key s. if live key then s else snd (store_remove_key key s)) (store_keys st1) st1)"

section \<open>Lemmas\<close>

definition store_inv :: "SessionCredentialStore \<Rightarrow> bool" where
  "store_inv st \<longleftrightarrow> distinct (map fst st)"

lemma map_of_retain:
  "store_inv st \<Longrightarrow> map_of (retain_unexpired now st) k =
     (case map_of st k of None \<Rightarrow> None | Some e \<Rightarrow> if now < cred_expires_at e then Some e else None)"
proof (induction st)
  case (Cons p st)
  obtain k' e where p: "p = (k', e)" by (cases p)
  from Cons.prems p have inv: "store_inv st" and new: "k' \<notin> fst ` set st"
    by (auto simp: store_inv_def)
  from new have "map_of st k' = None" by (simp add: map_of_eq_None_iff)
  with Cons.IH [OF inv] p show ?case by (auto simp: retain_unexpired_def split: option.splits)
qed (simp add: retain_unexpired_def)

lemma store_inv_retain [simp]: "store_inv st \<Longrightarrow> store_inv (retain_unexpired now st)"
  unfolding store_inv_def retain_unexpired_def by (rule distinct_map_filter)

lemma store_inv_new [simp]: "store_inv store_new"
  by (simp add: store_inv_def store_new_def)

lemma store_inv_store [simp]: "store_inv st \<Longrightarrow> store_inv (store_store H now t c st)"
  unfolding store_store_def using store_inv_retain [of st now]
  by (simp add: store_inv_def distinct_update)

lemma store_inv_remove_key [simp]: "store_inv st \<Longrightarrow> store_inv (snd (store_remove_key k st))"
  by (simp add: store_inv_def store_remove_key_def distinct_delete)

lemma map_of_store:
  "store_inv st \<Longrightarrow> map_of (store_store H now t c st) k =
     (if k = H t then Some c else map_of (retain_unexpired now st) k)"
  by (simp add: store_store_def update_conv')

lemma map_of_remove_key: "map_of (snd (store_remove_key key st)) k = (if k = key then None else map_of st k)"
  by (simp add: store_remove_key_def delete_conv')

lemma fold_remove_dead:
  assumes "store_inv st"
  shows "store_inv (fold (\<lambda>key s. if live key then s else snd (store_remove_key key s)) ks st)"
    and "map_of (fold (\<lambda>key s. if live key then s else snd (store_remove_key key s)) ks st) k =
      (if k \<in> set ks \<and> \<not> live k then None else map_of st k)"
  using assms by (induction ks arbitrary: st) (auto simp: map_of_remove_key)

section \<open>Properties\<close>

text \<open>
  Claim C25. A retained credential is handed out only to the session and the user it was
  stored for, and only while it is valid. After a credential was stored for a token, a
  lookup with that token returns it exactly when the user id matches and the expiry lies in
  the future; a lookup with a token of another hash sees what the store held before; and
  after a logout (\<open>clear_session_credentials\<close>) the token finds nothing, for every user and
  time.
\<close>

theorem credentials_owning_session_only:
  assumes "store_inv st" "now \<le> later"
  shows "fst (store_get H later tok uid (store_store H now tok c st)) =
       (if later < cred_expires_at c \<and> cred_user_id c = uid then Some c else None) \<and>
     (H tok' \<noteq> H tok \<longrightarrow>
       fst (store_get H later tok' uid (store_store H now tok c st)) = fst (store_get H later tok' uid st)) \<and>
     fst (store_get H later tok uid (snd (store_remove H tok (store_store H now tok c st)))) = None"
proof (intro conjI impI)
  note simps = store_get_def Let_def map_of_retain map_of_store
  show "fst (store_get H later tok uid (store_store H now tok c st)) =
       (if later < cred_expires_at c \<and> cred_user_id c = uid then Some c else None)"
    using assms(1) by (simp add: simps)
  show "fst (store_get H later tok' uid (store_store H now tok c st)) = fst (store_get H later tok' uid st)"
    if "H tok' \<noteq> H tok"
    using assms that by (auto simp: simps split: option.splits)
  show "fst (store_get H later tok uid (snd (store_remove H tok (store_store H now tok c st)))) = None"
    using assms(1) by (simp add: simps map_of_remove_key store_remove_def)
qed

definition demo_cred :: RetainedSessionCredential where
  "demo_cred = \<lparr>cred_user_id = 7, cred_username = ''u'', cred_password_enc = ''enc:v1:x'', cred_expires_at = 100\<rparr>"

theorem credentials_owning_session_only_witness:
  "fst (store_get rev 50 ''tok'' 7 (store_store rev 10 ''tok'' demo_cred store_new)) = Some demo_cred \<and>
   fst (store_get rev 50 ''tok'' 8 (store_store rev 10 ''tok'' demo_cred store_new)) = None \<and>
   fst (store_get rev 50 ''tok'' 7 (snd (store_remove rev ''tok'' (store_store rev 10 ''tok'' demo_cred store_new)))) = None"
  using credentials_owning_session_only [of store_new 10 50 rev "''tok''" 7 demo_cred]
    credentials_owning_session_only [of store_new 10 50 rev "''tok''" 8 demo_cred]
  by (simp add: demo_cred_def)

text \<open>
  The periodic prune keeps exactly the usable credentials: after
  \<open>prune_session_credentials\<close> a key is in the store if and only if it was there before with an
  expiry in the future and its auth session is live, and it then holds the same credential.
\<close>

theorem prune_session_credentials_exact:
  assumes "store_inv st"
  shows "map_of (prune_session_credentials (Some live) now st) k =
     (case map_of st k of
        None \<Rightarrow> None
      | Some e \<Rightarrow> if now < cred_expires_at e \<and> live k then Some e else None)"
proof -
  have "map_of (prune_session_credentials (Some live) now st) k =
      (if k \<in> fst ` set (retain_unexpired now st) \<and> \<not> live k then None
       else map_of (retain_unexpired now st) k)"
    using assms
    by (simp add: prune_session_credentials_def Let_def store_prune_expired_def store_keys_def fold_remove_dead)
  then show ?thesis
    using assms by (auto simp: map_of_retain map_of_eq_None_iff [symmetric] split: option.splits)
qed

theorem prune_session_credentials_exact_witness:
  "map_of (prune_session_credentials (Some (\<lambda>k. k = ''h1'')) 50 [(''h1'', demo_cred), (''h2'', demo_cred)]) ''h2'' = None"
  using prune_session_credentials_exact
    [of "[(''h1'', demo_cred), (''h2'', demo_cred)]" "\<lambda>k. k = ''h1''" 50 "''h2''"]
  by (simp add: store_inv_def)

end
