(* ===== verification/Session_Manager.thy ===== *)
theory Session_Manager
  imports Session_Store Event_Bus Credentials
begin

text \<open>
  The session manager (\<open>src/src/session/manager.rs\<close> and \<open>src/src/session/mod.rs\<close>): the map
  of live sessions, the transitions of their status, the owner and viewer bookkeeping, share
  and shadow tokens, the reapers, and what all of these write to the event feed, the metrics
  gauge, the session history and the shared registry.

  The state is a record that every operation returns updated. The hash map of sessions is an
  association list, so what is proved for every list holds for every iteration order. An
  operation that releases the locks between its steps (taking the guacd stream, reconnecting)
  is one definition per locked section, composed in the operation; a theory on top of this
  one interleaves the sections. The calls into the operating system, Docker, browsers and
  tunnels are recorded in \<open>effects\<close>; the outcome of talking to \<open>guacd\<close> is an argument, as are
  the clock, random tokens and SHA-256.
\<close>

section \<open>State\<close>

record DriveConfig =
  cleanup_on_close :: bool
  retention_secs :: "64 word"

record ManagerConfig =
  guacd_addr :: string
  session_pending_timeout_secs :: "64 word"
  session_max_duration_secs :: "64 word"
  session_idle_timeout_secs :: "64 word"
  session_cleanup_delay_secs :: "64 word"
  drive :: "DriveConfig option"
  instance_id :: string
  ha_base_url :: "string option"
  max_sessions :: nat

datatype Effect =
    AbortTask Handle
  | KillBrowser Handle
  | CleanupSessionDir string Uuid "64 word"
  | ShutdownTunnel Handle
  | StopContainer string
  | NotifyShutdown

record SessionManager =
  sessions :: "(Uuid \<times> Session) list"
  config :: ManagerConfig
  db :: "Database option"
  vdi_driver :: bool
  shutdown :: bool
  event_bus :: SessionEventBus
  sse_subscribers :: "string set"
  ended_at :: "Uuid \<rightharpoonup> DateTime"
  owner_connected :: "Uuid set"
  disconnected_at :: "Uuid \<rightharpoonup> DateTime"
  session_credentials :: SessionCredentialStore
  sessions_active :: "64 word"
  sessions_total :: "64 word"
  effects :: "Effect list"

definition manager_new :: "ManagerConfig \<Rightarrow> Database option \<Rightarrow> bool \<Rightarrow> SessionManager" where
  "manager_new cfg database vdi =
     \<lparr>sessions = [], config = cfg, db = database, vdi_driver = vdi, shutdown = False,
      event_bus = bus_new, sse_subscribers = {}, ended_at = Map.empty, owner_connected = {},
      disconnected_at = Map.empty, session_credentials = store_new, sessions_active = 0,
      sessions_total = 0, effects = []\<rparr>"

text \<open>A shared backend is active when the database is a pool.\<close>

definition ha_enabled :: "SessionManager \<Rightarrow> bool" where
  "ha_enabled m = (case db m of Some d \<Rightarrow> has_pool d | None \<Rightarrow> False)"

definition get_entry :: "Uuid \<Rightarrow> SessionManager \<Rightarrow> Session option" where
  "get_entry sid m = map_of (sessions m) sid"

definition put_session :: "Uuid \<Rightarrow> Session \<Rightarrow> SessionManager \<Rightarrow> SessionManager" where
  "put_session sid s m = m\<lparr>sessions := AList.update sid s (sessions m)\<rparr>"

definition remove_session :: "Uuid \<Rightarrow> SessionManager \<Rightarrow> SessionManager" where
  "remove_session sid m = m\<lparr>sessions := AList.delete sid (sessions m)\<rparr>"

definition session_active_inc :: "SessionManager \<Rightarrow> SessionManager" where
  "session_active_inc m = m\<lparr>sessions_active := sessions_active m + 1\<rparr>"

definition session_active_dec :: "SessionManager \<Rightarrow> SessionManager" where
  "session_active_dec m = m\<lparr>sessions_active := sessions_active m - 1\<rparr>"

definition session_total_inc :: "SessionManager \<Rightarrow> SessionManager" where
  "session_total_inc m = m\<lparr>sessions_total := sessions_total m + 1\<rparr>"

section \<open>Events\<close>

definition publish_event :: "DateTime \<Rightarrow> SessionEventKind \<Rightarrow> Session \<Rightarrow> SessionManager \<Rightarrow> SessionManager" where
  "publish_event now kind s m =
     m\<lparr>event_bus := publish
         \<lparr>ev_id = 0, ev_event = kind, ev_session_id = s_id s, ev_session_type = session_type s,
          ev_status = status s, ev_created_by = created_by s, ev_timestamp = now\<rparr> (event_bus m)\<rparr>"

definition publish_session_started :: "DateTime \<Rightarrow> Session \<Rightarrow> SessionManager \<Rightarrow> SessionManager" where
  "publish_session_started now s m = publish_event now SessionStarted s m"

definition publish_transition :: "DateTime \<Rightarrow> SessionStatus \<Rightarrow> Session \<Rightarrow> SessionManager \<Rightarrow> SessionManager" where
  "publish_transition now old s m =
     (if old = status s then m
      else let m1 = (if is_terminal (status s) then m\<lparr>ended_at := (ended_at m)(s_id s \<mapsto> now)\<rparr> else m)
           in publish_event now (if is_terminal (status s) then SessionEnded else StatusChanged) s m1)"

definition try_claim_sse_subscription :: "string \<Rightarrow> SessionManager \<Rightarrow> bool \<times> SessionManager" where
  "try_claim_sse_subscription identity m =
     (identity \<notin> sse_subscribers m, m\<lparr>sse_subscribers := insert identity (sse_subscribers m)\<rparr>)"

definition release_sse_subscription :: "string \<Rightarrow> SessionManager \<Rightarrow> SessionManager" where
  "release_sse_subscription identity m = m\<lparr>sse_subscribers := sse_subscribers m - {identity}\<rparr>"

section \<open>Registry and history writes\<close>

text \<open>Failures of these writes are logged and ignored.\<close>

definition mgr_registry_set_status :: "DateTime \<Rightarrow> Uuid \<Rightarrow> string \<Rightarrow> SessionManager \<Rightarrow> SessionManager" where
  "mgr_registry_set_status now sid st m =
     (if \<not> ha_enabled m then m
      else case db m of
             None \<Rightarrow> m
           | Some d \<Rightarrow> m\<lparr>db := Some (snd (registry_set_status sid st (registry_ts now) d))\<rparr>)"

definition mgr_end_session_history ::
    "DateTime \<Rightarrow> Uuid \<Rightarrow> string \<Rightarrow> 64 word \<Rightarrow> bool \<Rightarrow> SessionManager \<Rightarrow> SessionManager" where
  "mgr_end_session_history now sid st duration_secs recording m =
     (case db m of
        None \<Rightarrow> m
      | Some d \<Rightarrow> m\<lparr>db := Some (snd (end_session_history (registry_ts now) sid st duration_secs
                    (if recording then Some (sid @ ''.guac'') else None) d))\<rparr>)"

definition save_session_metadata :: "DateTime \<Rightarrow> Session \<Rightarrow> SessionManager \<Rightarrow> SessionManager" where
  "save_session_metadata now s m =
     (case db m of
        None \<Rightarrow> m
      | Some d \<Rightarrow> m\<lparr>db := Some (snd (insert_session_history (registry_ts now) (s_id s)
                    (session_type_str (session_type s)) (hostname s) None (username s) (created_by s)
                    (address_book_entry s) (address_book_folder s) (entry_display_name s)
                    (source_ip s) d))\<rparr>)"

section \<open>Owner bookkeeping\<close>

definition mark_owner_connected :: "Uuid \<Rightarrow> SessionManager \<Rightarrow> SessionManager" where
  "mark_owner_connected sid m = m\<lparr>owner_connected := insert sid (owner_connected m)\<rparr>"

definition mark_owner_disconnected :: "Uuid \<Rightarrow> SessionManager \<Rightarrow> SessionManager" where
  "mark_owner_disconnected sid m = m\<lparr>owner_connected := owner_connected m - {sid}\<rparr>"

definition owner_is_connected :: "Uuid \<Rightarrow> SessionManager \<Rightarrow> bool" where
  "owner_is_connected sid m = (sid \<in> owner_connected m)"

section \<open>Releasing the resources of a session\<close>

definition drive_cleanup_settings :: "DriveConfig option \<Rightarrow> bool \<times> 64 word" where
  "drive_cleanup_settings d =
     (case d of Some c \<Rightarrow> (cleanup_on_close c, retention_secs c) | None \<Rightarrow> (True, 0))"

definition cleanup_effects :: "Session \<Rightarrow> bool \<Rightarrow> 64 word \<Rightarrow> Effect list" where
  "cleanup_effects s clean retention =
     (case login_script_handle s of Some h \<Rightarrow> [AbortTask h] | None \<Rightarrow> []) @
     (case browser_session s of Some b \<Rightarrow> [KillBrowser b] | None \<Rightarrow> []) @
     (case drive_path s of
        Some p \<Rightarrow> if clean then [CleanupSessionDir p (s_id s) retention] else []
      | None \<Rightarrow> []) @
     map ShutdownTunnel (rev (tunnels s))"

definition cleaned :: "Session \<Rightarrow> Session" where
  "cleaned s = s\<lparr>login_script_handle := None, browser_session := None, drive_path := None, tunnels := []\<rparr>"

definition cleanup_browser :: "Uuid \<Rightarrow> SessionManager \<Rightarrow> SessionManager" where
  "cleanup_browser sid m =
     (case get_entry sid m of
        None \<Rightarrow> m
      | Some s \<Rightarrow>
          (case drive_cleanup_settings (drive (config m)) of (c, r) \<Rightarrow>
             (put_session sid (cleaned s) m)\<lparr>effects := effects m @ cleanup_effects s c r\<rparr>))"

section \<open>Queries\<close>

definition row_is_live :: "SessionRegistryRow \<Rightarrow> bool" where
  "row_is_live row = (reg_status row \<notin> {''completed'', ''error'', ''expired''})"

definition local_info :: "SessionManager \<Rightarrow> Session \<Rightarrow> SessionInfo" where
  "local_info m s = (session_info s)\<lparr>info_ended_at := ended_at m (s_id s)\<rparr>"

definition remote_infos :: "(string \<Rightarrow> Uuid option) \<Rightarrow> SessionManager \<Rightarrow> SessionInfo list" where
  "remote_infos parse_uuid m =
     (if \<not> ha_enabled m then []
      else case db m of
             None \<Rightarrow> []
           | Some d \<Rightarrow>
               (case registry_list_sessions d of
                  None \<Rightarrow> []
                | Some rows \<Rightarrow>
                    List.map_filter (from_registry parse_uuid)
                      (filter (\<lambda>row. reg_session_id row \<notin> set (map (s_id \<circ> snd) (sessions m)) \<and>
                                     row_is_live row) rows)))"

definition list_sessions :: "(string \<Rightarrow> Uuid option) \<Rightarrow> SessionManager \<Rightarrow> SessionInfo list" where
  "list_sessions parse_uuid m =
     map (local_info m \<circ> snd) (sessions m) @ remote_infos parse_uuid m"

definition active_session_count :: "(string \<Rightarrow> Uuid option) \<Rightarrow> SessionManager \<Rightarrow> nat" where
  "active_session_count parse_uuid m =
     length (filter (\<lambda>i. info_status i \<in> {Active, Pending, Disconnected}) (list_sessions parse_uuid m))"

definition get_session :: "(string \<Rightarrow> Uuid option) \<Rightarrow> Uuid \<Rightarrow> SessionManager \<Rightarrow> SessionInfo option" where
  "get_session parse_uuid sid m =
     (case get_entry sid m of
        Some s \<Rightarrow> Some ((session_info s)\<lparr>info_ended_at := ended_at m sid\<rparr>)
      | None \<Rightarrow>
          if \<not> ha_enabled m then None
          else case db m of
                 None \<Rightarrow> None
               | Some d \<Rightarrow>
                   (case registry_get_session sid d of
                      Some (Some row) \<Rightarrow> if row_is_live row then from_registry parse_uuid row else None
                    | _ \<Rightarrow> None))"

definition is_session_pending :: "Uuid \<Rightarrow> SessionManager \<Rightarrow> bool" where
  "is_session_pending sid m = (case get_entry sid m of Some s \<Rightarrow> status s = Pending | None \<Rightarrow> False)"

definition is_session_disconnected :: "Uuid \<Rightarrow> SessionManager \<Rightarrow> bool" where
  "is_session_disconnected sid m = (case get_entry sid m of Some s \<Rightarrow> status s = Disconnected | None \<Rightarrow> False)"

definition get_session_creator :: "Uuid \<Rightarrow> SessionManager \<Rightarrow> string option" where
  "get_session_creator sid m = map_option created_by (get_entry sid m)"

definition get_vdi_info :: "Uuid \<Rightarrow> SessionManager \<Rightarrow> (SessionType \<times> string option \<times> string option) option" where
  "get_vdi_info sid m =
     map_option (\<lambda>s. (session_type s, container_id s, container_name s)) (get_entry sid m)"

definition is_recording_enabled :: "Uuid \<Rightarrow> SessionManager \<Rightarrow> bool" where
  "is_recording_enabled sid m = (case get_entry sid m of Some s \<Rightarrow> recording_enabled s | None \<Rightarrow> False)"

definition get_recording_meta :: "Uuid \<Rightarrow> SessionManager \<Rightarrow> (string option \<times> 32 word option) option" where
  "get_recording_meta sid m = map_option (\<lambda>s. (address_book_entry s, max_recordings s)) (get_entry sid m)"

definition has_active_vdi_session :: "string \<Rightarrow> SessionManager \<Rightarrow> bool" where
  "has_active_vdi_session cid m =
     list_ex (\<lambda>(_, s). container_id s = Some cid \<and> (status s = Active \<or> status s = Pending)) (sessions m)"

definition is_live_status :: "SessionStatus \<Rightarrow> bool" where
  "is_live_status st = (st = Active \<or> st = Pending)"

definition get_idle_sessions :: "DateTime \<Rightarrow> int \<Rightarrow> SessionManager \<Rightarrow> Uuid list" where
  "get_idle_sessions now idle_timeout_secs m =
     map fst (filter (\<lambda>(_, s). is_live_status (status s) \<and> 0 < last_activity s \<and>
                idle_timeout_secs < timestamp now - last_activity s) (sessions m))"

definition get_expired_sessions :: "DateTime \<Rightarrow> int \<Rightarrow> SessionManager \<Rightarrow> Uuid list" where
  "get_expired_sessions now max_duration_secs m =
     map fst (filter (\<lambda>(_, s). is_live_status (status s) \<and>
                max_duration_secs < num_seconds (now - created_at s)) (sessions m))"

definition get_user_session_count :: "string \<Rightarrow> SessionManager \<Rightarrow> nat" where
  "get_user_session_count uid m =
     length (filter (\<lambda>(_, s). (case user_id s of Some u \<Rightarrow> u | None \<Rightarrow> created_by s) = uid \<and>
                is_live_status (status s)) (sessions m))"

definition check_concurrent_limit :: "string \<Rightarrow> nat \<Rightarrow> SessionManager \<Rightarrow> bool" where
  "check_concurrent_limit uid limit m = (limit = 0 \<or> get_user_session_count uid m < limit)"

section \<open>The owner connects\<close>

text \<open>
  Phase 1 of \<open>take_guacd_stream\<close> (from \<open>Pending\<close>) and of \<open>reconnect_session\<close> (from
  \<open>Disconnected\<close>): check the status and take the deferred parameters.
\<close>

definition claim_deferred ::
    "SessionStatus \<Rightarrow> Uuid \<Rightarrow> SessionManager \<Rightarrow> ConnectionParams option option \<times> SessionManager" where
  "claim_deferred from sid m =
     (case get_entry sid m of
        None \<Rightarrow> (None, m)
      | Some s \<Rightarrow>
          if status s \<noteq> from then (None, m)
          else (Some (deferred_params s), put_session sid (s\<lparr>deferred_params := None\<rparr>) m))"

definition mark_connect_failed :: "DateTime \<Rightarrow> Uuid \<Rightarrow> SessionStatus \<Rightarrow> SessionManager \<Rightarrow> SessionManager" where
  "mark_connect_failed now sid from m =
     (case get_entry sid m of
        None \<Rightarrow> m
      | Some s \<Rightarrow>
          if status s = from
          then publish_transition now from (s\<lparr>status := Error\<rparr>) (put_session sid (s\<lparr>status := Error\<rparr>) m)
          else m)"

text \<open>Phase 3: install the stream, hand it out and make the session active.\<close>

definition install_stream ::
    "DateTime \<Rightarrow> SessionStatus \<Rightarrow> Uuid \<Rightarrow> ConnectionParams option \<Rightarrow> (GuacdStream \<times> string) option \<Rightarrow>
     SessionManager \<Rightarrow> GuacdStream option \<times> SessionManager" where
  "install_stream now from sid deferred connected m =
     (case get_entry sid m of
        None \<Rightarrow> (None, m)
      | Some s \<Rightarrow>
          if status s \<noteq> from then (None, m)
          else
            let s1 = (case connected of
                        Some (stream, cid) \<Rightarrow> s\<lparr>guacd_stream := Some stream, connection_id := cid\<rparr>
                      | None \<Rightarrow> s);
                s2 = s1\<lparr>deferred_params := deferred\<rparr>
            in case guacd_stream s2 of
                 None \<Rightarrow> (None, put_session sid s2 m)
               | Some stream \<Rightarrow>
                   let s3 = s2\<lparr>guacd_stream := None, status := Active\<rparr>;
                       m1 = publish_transition now from s3 m
                   in (Some stream,
                       session_active_inc
                         (put_session sid (s3\<lparr>active_connections := active_connections s3 + 1\<rparr>) m1)))"

definition finish_take :: "DateTime \<Rightarrow> Uuid \<Rightarrow> SessionManager \<Rightarrow> SessionManager" where
  "finish_take now sid m = mgr_registry_set_status now sid ''active'' (mark_owner_connected sid m)"

definition finish_reconnect :: "DateTime \<Rightarrow> Uuid \<Rightarrow> SessionManager \<Rightarrow> SessionManager" where
  "finish_reconnect now sid m =
     mgr_registry_set_status now sid ''active''
       (mark_owner_connected sid (m\<lparr>disconnected_at := (disconnected_at m)(sid := None)\<rparr>))"

text \<open>
  The outcome of the deferred connect within its time limit: no result is the timeout.
\<close>

type_synonym ConnectOutcome = "(GuacdStream \<times> string, GuacdError) result option"

definition owner_connect ::
    "SessionStatus \<Rightarrow> (SessionManager \<Rightarrow> SessionManager) \<Rightarrow> DateTime \<Rightarrow> (ConnectionParams \<Rightarrow> ConnectOutcome) \<Rightarrow>
     Uuid \<Rightarrow> SessionManager \<Rightarrow> GuacdStream option \<times> SessionManager" where
  "owner_connect from finish now guacd sid m =
     (let install = (\<lambda>deferred connected m1.
            case install_stream now from sid deferred connected m1 of
              (None, m2) \<Rightarrow> (None, m2)
            | (Some stream, m2) \<Rightarrow> (Some stream, finish m2))
      in case claim_deferred from sid m of
           (None, m1) \<Rightarrow> (None, m1)
         | (Some None, m1) \<Rightarrow> install None None m1
         | (Some (Some params), m1) \<Rightarrow>
             (case guacd params of
                Some (Inr (stream, cid)) \<Rightarrow> install (Some params) (Some (stream, cid)) m1
              | _ \<Rightarrow> (None, mark_connect_failed now sid from m1)))"

definition take_guacd_stream ::
    "DateTime \<Rightarrow> (ConnectionParams \<Rightarrow> ConnectOutcome) \<Rightarrow> Uuid \<Rightarrow> SessionManager \<Rightarrow>
     GuacdStream option \<times> SessionManager" where
  "take_guacd_stream now guacd sid m = owner_connect Pending (finish_take now sid) now guacd sid m"

definition reconnect_session ::
    "DateTime \<Rightarrow> (ConnectionParams \<Rightarrow> ConnectOutcome) \<Rightarrow> Uuid \<Rightarrow> SessionManager \<Rightarrow>
     GuacdStream option \<times> SessionManager" where
  "reconnect_session now guacd sid m = owner_connect Disconnected (finish_reconnect now sid) now guacd sid m"

section \<open>Viewers\<close>

definition saturating_sub :: "32 word \<Rightarrow> 32 word \<Rightarrow> 32 word" where
  "saturating_sub a b = (if a < b then 0 else a - b)"

definition reserve_viewer_slot ::
    "Uuid \<Rightarrow> 32 word \<Rightarrow> SessionManager \<Rightarrow> (unit, SessionError) result \<times> SessionManager" where
  "reserve_viewer_slot sid max_viewers m =
     (case get_entry sid m of
        None \<Rightarrow> (Inl NotFound, m)
      | Some s \<Rightarrow>
          if status s \<noteq> Active then (Inl NotActive, m)
          else let viewers = saturating_sub (active_connections s) (if owner_is_connected sid m then 1 else 0)
               in if 0 < max_viewers \<and> max_viewers \<le> viewers
                  then (Inl (ViewerLimit viewers max_viewers), m)
                  else (Inr (), put_session sid (s\<lparr>active_connections := active_connections s + 1\<rparr>) m))"

definition disconnect_viewer :: "Uuid \<Rightarrow> SessionManager \<Rightarrow> SessionManager" where
  "disconnect_viewer sid m =
     (case get_entry sid m of
        None \<Rightarrow> m
      | Some s \<Rightarrow> put_session sid (s\<lparr>active_connections := saturating_sub (active_connections s) 1\<rparr>) m)"

text \<open>
  \<open>join_session_as_viewer\<close>: the guacd join is an argument, a function of the connection id,
  the size of the display and the read-only flag.
\<close>

definition join_session_as_viewer ::
    "(string \<Rightarrow> 32 word \<Rightarrow> 32 word \<Rightarrow> 32 word \<Rightarrow> bool \<Rightarrow> (GuacdStream, SessionError) result) \<Rightarrow>
     Uuid \<Rightarrow> 32 word \<Rightarrow> bool \<Rightarrow> SessionManager \<Rightarrow> (GuacdStream, SessionError) result \<times> SessionManager" where
  "join_session_as_viewer join_conn sid max_viewers read_only m =
     (case reserve_viewer_slot sid max_viewers m of
        (Inl e, m1) \<Rightarrow> (Inl e, m1)
      | (Inr _, m1) \<Rightarrow>
          (case get_entry sid m1 of
             None \<Rightarrow> (Inl NotFound, m1)
           | Some s \<Rightarrow>
               (case join_conn (connection_id s) (width s) (height s) 96 read_only of
                  Inr stream \<Rightarrow> (Inr stream, m1)
                | Inl e \<Rightarrow> (Inl e, disconnect_viewer sid m1))))"

section \<open>Terminal transitions and disconnects\<close>

definition complete_session :: "DateTime \<Rightarrow> Uuid \<Rightarrow> SessionManager \<Rightarrow> SessionManager" where
  "complete_session now sid m =
     (case get_entry sid m of
        None \<Rightarrow> m
      | Some s \<Rightarrow>
          if status s = Active \<or> status s = Disconnected
          then let s1 = s\<lparr>status := Completed\<rparr>;
                   m1 = publish_transition now (status s) s1 (put_session sid s1 m);
                   m2 = cleanup_browser sid (session_active_dec m1)
               in mgr_registry_set_status now sid ''completed'' (mark_owner_disconnected sid m2)
          else m)"

definition disconnect_session :: "DateTime \<Rightarrow> Uuid \<Rightarrow> SessionManager \<Rightarrow> SessionManager" where
  "disconnect_session now sid m =
     (case get_entry sid m of
        None \<Rightarrow> m
      | Some s \<Rightarrow>
          if status s = Active
          then let s1 = s\<lparr>status := Disconnected, guacd_stream := None\<rparr>;
                   m1 = publish_transition now (status s) s1 (put_session sid s1 m);
                   m2 = cleanup_browser sid (session_active_dec m1);
                   m3 = m2\<lparr>disconnected_at := (disconnected_at m2)(sid \<mapsto> now)\<rparr>
               in mgr_registry_set_status now sid ''disconnected'' (mark_owner_disconnected sid m3)
          else m)"

definition error_session :: "DateTime \<Rightarrow> Uuid \<Rightarrow> SessionManager \<Rightarrow> SessionManager" where
  "error_session now sid m =
     (case get_entry sid m of
        None \<Rightarrow> m
      | Some s \<Rightarrow>
          if status s \<noteq> Error
          then let m0 = (if status s = Active then session_active_dec m else m);
                   s1 = s\<lparr>status := Error, guacd_stream := None\<rparr>;
                   m1 = publish_transition now (status s) s1 (put_session sid s1 m0);
                   m2 = cleanup_browser sid m1
               in mgr_registry_set_status now sid ''error'' (mark_owner_disconnected sid m2)
          else m)"

text \<open>
  \<open>delete_session\<close>: the session leaves the map first, so its last state only shows in the
  event, the effects and the result.
\<close>

definition delete_session :: "DateTime \<Rightarrow> Uuid \<Rightarrow> SessionManager \<Rightarrow> bool \<times> SessionManager" where
  "delete_session now sid m =
     (case get_entry sid m of
        None \<Rightarrow> (False, m)
      | Some s \<Rightarrow>
          let m0 = remove_session sid m;
              m1 = (if status s = Active then session_active_dec m0 else m0);
              s1 = s\<lparr>cancelled := True, status := Completed, guacd_stream := None\<rparr>;
              m2 = publish_transition now (status s) s1 m1;
              m3 = (case drive_cleanup_settings (drive (config m2)) of (c, r) \<Rightarrow>
                      m2\<lparr>effects := effects m2 @ cleanup_effects s1 c r\<rparr>);
              m4 = m3\<lparr>ended_at := (ended_at m3)(sid := None),
                       disconnected_at := (disconnected_at m3)(sid := None)\<rparr>
          in (True, mgr_registry_set_status now sid ''completed'' (mark_owner_disconnected sid m4)))"

definition stop_vdi_container :: "Uuid \<Rightarrow> SessionManager \<Rightarrow> SessionManager" where
  "stop_vdi_container sid m =
     (case get_entry sid m of
        None \<Rightarrow> m
      | Some s \<Rightarrow>
          let m1 = put_session sid (s\<lparr>container_id := None\<rparr>) m
          in case container_id s of
               None \<Rightarrow> m1
             | Some cid \<Rightarrow> if vdi_driver m then m1\<lparr>effects := effects m1 @ [StopContainer cid]\<rparr> else m1)"

text \<open>
  The logout part of \<open>DELETE /api/sessions/{id}\<close> (\<open>src/src/api/sessions.rs\<close>), after its
  authorisation checks: mark the session logged out, close its history, delete it.
\<close>

definition logout_mark :: "DateTime \<Rightarrow> Uuid \<Rightarrow> SessionManager \<Rightarrow> SessionManager" where
  "logout_mark now sid m =
     (case get_entry sid m of
        None \<Rightarrow> m
      | Some s \<Rightarrow>
          if status s \<noteq> LoggedOut
          then let m0 = (if status s = Active then session_active_dec m else m);
                   s1 = s\<lparr>status := LoggedOut, guacd_stream := None\<rparr>
               in mgr_end_session_history now sid ''logged_out''
                    (word_of_int (max 0 (num_seconds (now - created_at s)))) (recording_enabled s)
                    (publish_transition now (status s) s1 (put_session sid s1 m0))
          else m)"

definition logout_session :: "DateTime \<Rightarrow> Uuid \<Rightarrow> SessionManager \<Rightarrow> bool \<times> SessionManager" where
  "logout_session now sid m = delete_session now sid (logout_mark now sid m)"

section \<open>Activity, shutdown\<close>

definition update_activity :: "DateTime \<Rightarrow> Uuid \<Rightarrow> SessionManager \<Rightarrow> SessionManager" where
  "update_activity now sid m =
     (case get_entry sid m of None \<Rightarrow> m | Some s \<Rightarrow> put_session sid (touch_activity now s) m)"

definition initiate_shutdown :: "SessionManager \<Rightarrow> bool \<times> SessionManager" where
  "initiate_shutdown m =
     (\<not> shutdown m,
      (if shutdown m then m else m\<lparr>effects := effects m @ [NotifyShutdown]\<rparr>)\<lparr>shutdown := True\<rparr>)"

definition cancel_all_sessions :: "SessionManager \<Rightarrow> nat \<times> SessionManager" where
  "cancel_all_sessions m =
     (length (filter (\<lambda>(_, s). is_live_status (status s)) (sessions m)),
      m\<lparr>sessions := map (\<lambda>(i, s). (i, if is_live_status (status s) then s\<lparr>cancelled := True\<rparr> else s))
           (sessions m)\<rparr>)"

definition seed_session :: "Session \<Rightarrow> SessionManager \<Rightarrow> SessionManager" where
  "seed_session s m = put_session (s_id s) s m"

section \<open>A session is created\<close>

text \<open>
  The end of \<open>create_session\<close> (\<open>src/src/session/create.rs\<close>): the session has been built and is
  published, counted against the global cap, inserted and mirrored in the registry.
\<close>

definition count_live_sessions :: "SessionManager \<Rightarrow> nat" where
  "count_live_sessions m = length (filter (\<lambda>(_, s). is_live_status (status s)) (sessions m))"

definition register_session ::
    "DateTime \<Rightarrow> Session \<Rightarrow> SessionManager \<Rightarrow> (SessionInfo, SessionError) result \<times> SessionManager" where
  "register_session now s m =
     (let m1 = publish_session_started now s m
      in if 0 < max_sessions (config m) \<and> max_sessions (config m) \<le> count_live_sessions m1
         then (Inl (ValidationError
                 (''maximum concurrent sessions reached ('' @ show_nat (max_sessions (config m)) @ '')'')), m1)
         else
           let m2 = session_total_inc (put_session (s_id s) s m1);
               m3 = (if ha_enabled m2 then
                       case db m2 of
                         None \<Rightarrow> m2
                       | Some d \<Rightarrow> m2\<lparr>db := Some (snd (registry_upsert_session (s_id s)
                           (instance_id (config m2)) (case ha_base_url (config m2) of Some u \<Rightarrow> u | None \<Rightarrow> [])
                           (session_type_str (session_type s)) ''pending'' (hostname s) (username s)
                           (created_by s) (registry_ts (created_at s)) (registry_ts now) [] d))\<rparr>
                     else m2)
           in (Inr (session_info s), m3))"

text \<open>The detached task that records the session in the history.\<close>

definition record_session_history :: "DateTime \<Rightarrow> Session \<Rightarrow> string option \<Rightarrow> SessionManager \<Rightarrow> SessionManager" where
  "record_session_history now s reason m =
     (case db m of
        None \<Rightarrow> m
      | Some d \<Rightarrow>
          let d1 = snd (insert_session_history (registry_ts now) (s_id s) (session_type_str (session_type s))
                     (hostname s) None (username s) (created_by s) (address_book_entry s)
                     (address_book_folder s) (entry_display_name s) (source_ip s) d);
              d2 = (case reason of None \<Rightarrow> d1 | Some r \<Rightarrow> snd (update_session_history_reason (s_id s) r d1))
          in m\<lparr>db := Some d2\<rparr>)"

text \<open>The timeout task of a session that no browser has connected to.\<close>

definition expire_pending :: "DateTime \<Rightarrow> Uuid \<Rightarrow> SessionManager \<Rightarrow> SessionManager" where
  "expire_pending now sid m =
     (case get_entry sid m of
        None \<Rightarrow> m
      | Some s \<Rightarrow>
          if status s = Pending
          then let s1 = s\<lparr>status := Expired, guacd_stream := None\<rparr>;
                   m1 = publish_transition now Pending s1 (put_session sid s1 m);
                   m2 = mgr_end_session_history now sid ''expired'' 0 False (cleanup_browser sid m1)
               in mgr_registry_set_status now sid ''expired'' m2
          else m)"

section \<open>Share and shadow tokens\<close>

fun match_shadow :: "ShadowToken list \<Rightarrow> string \<Rightarrow> DateTime \<Rightarrow> ShareTokenValidation" where
  "match_shadow [] provided_hex now = Invalid"
| "match_shadow (t # ts) provided_hex now =
     (if expires_at t \<le> now then match_shadow ts provided_hex now
      else if length (token_hash t) = length provided_hex \<and> token_hash t = provided_hex
        then Shadow (issued_by t)
      else match_shadow ts provided_hex now)"

definition check_share_token_match ::
    "Crypto \<Rightarrow> string \<Rightarrow> ShadowToken list \<Rightarrow> string \<Rightarrow> DateTime \<Rightarrow> ShareTokenValidation" where
  "check_share_token_match cr share shadows provided now =
     (if sha256 cr share = sha256 cr provided then Owner
      else match_shadow shadows (hex_encode cr (sha256 cr provided)) now)"

definition validate_share_token ::
    "Crypto \<Rightarrow> DateTime \<Rightarrow> Uuid \<Rightarrow> string \<Rightarrow> SessionManager \<Rightarrow> ShareTokenValidation" where
  "validate_share_token cr now sid token m =
     (let local = (case get_entry sid m of
                     None \<Rightarrow> Invalid
                   | Some s \<Rightarrow> check_share_token_match cr (share_token s) (shadow_tokens s) token now)
      in if local \<noteq> Invalid then local
         else if \<not> ha_enabled m then Invalid
         else case db m of
                None \<Rightarrow> Invalid
              | Some d \<Rightarrow>
                  (case registry_get_session sid d of
                     Some (Some row) \<Rightarrow>
                       (case (reg_shadow_token_hash row, reg_shadow_issued_by row, reg_shadow_expires_at row) of
                          (Some hash, Some issuer, Some expires) \<Rightarrow>
                            if expires * nanos \<le> now then Invalid
                            else if length hash = length (hex_encode cr (sha256 cr token)) \<and>
                                    hash = hex_encode cr (sha256 cr token)
                              then Shadow issuer
                            else Invalid
                        | _ \<Rightarrow> Invalid)
                   | _ \<Rightarrow> Invalid))"

definition shadow_lifetime :: int where
  "shadow_lifetime = 600 * nanos"

text \<open>The raw token is drawn at random by the caller of the model.\<close>

definition mint_shadow_token ::
    "Crypto \<Rightarrow> DateTime \<Rightarrow> string \<Rightarrow> Uuid \<Rightarrow> string \<Rightarrow> SessionManager \<Rightarrow>
     (string \<times> DateTime) option \<times> SessionManager" where
  "mint_shadow_token cr now raw sid issuer m =
     (case get_entry sid m of
        None \<Rightarrow> (None, m)
      | Some s \<Rightarrow>
          let kept = filter (\<lambda>t. now < expires_at t) (shadow_tokens s);
              expires = now + shadow_lifetime;
              t = \<lparr>token_hash = hex_encode cr (sha256 cr raw), issued_by = issuer, expires_at = expires\<rparr>
          in (Some (raw, expires), put_session sid (s\<lparr>shadow_tokens := kept @ [t]\<rparr>) m))"

definition mint_remote_shadow_token ::
    "Crypto \<Rightarrow> DateTime \<Rightarrow> string \<Rightarrow> Uuid \<Rightarrow> string \<Rightarrow> SessionManager \<Rightarrow>
     (string \<times> DateTime) option \<times> SessionManager" where
  "mint_remote_shadow_token cr now raw sid issuer m =
     (case db m of
        None \<Rightarrow> (None, m)
      | Some d \<Rightarrow>
          (case registry_set_shadow_token sid (hex_encode cr (sha256 cr raw)) issuer
                  (registry_ts (now + shadow_lifetime)) d of
             (None, d') \<Rightarrow> (None, m\<lparr>db := Some d'\<rparr>)
           | (Some _, d') \<Rightarrow> (Some (raw, now + shadow_lifetime), m\<lparr>db := Some d'\<rparr>)))"

section \<open>Reapers\<close>

text \<open>\<open>num_seconds().max(0) as u64\<close>.\<close>

definition lifetime_secs :: "DateTime \<Rightarrow> DateTime \<Rightarrow> 64 word" where
  "lifetime_secs now created = word_of_int (max 0 (num_seconds (now - created)))"

definition over_age :: "DateTime \<Rightarrow> DateTime \<Rightarrow> 64 word \<Rightarrow> bool" where
  "over_age now since secs \<longleftrightarrow> uint secs * nanos < to_std_or_default (now - since)"

definition reap_expired_sessions :: "DateTime \<Rightarrow> SessionManager \<Rightarrow> nat \<times> SessionManager" where
  "reap_expired_sessions now m =
     (if session_max_duration_secs (config m) = 0 then (0, m)
      else let to_delete = filter (\<lambda>(_, s). is_live_status (status s) \<and>
                 over_age now (created_at s) (session_max_duration_secs (config m))) (sessions m)
           in (length to_delete,
               fold (\<lambda>(sid, s) m1. snd (delete_session now sid
                       (mgr_end_session_history now sid ''max-duration''
                          (lifetime_secs now (created_at s)) (recording_enabled s) m1)))
                 to_delete m))"

definition reap_idle_sessions :: "DateTime \<Rightarrow> SessionManager \<Rightarrow> nat \<times> SessionManager" where
  "reap_idle_sessions now m =
     (if session_idle_timeout_secs (config m) = 0 then (0, m)
      else let to_delete = get_idle_sessions now (sint (session_idle_timeout_secs (config m))) m
           in (length to_delete,
               fold (\<lambda>sid m1.
                   case get_entry sid m1 of
                     None \<Rightarrow> m1
                   | Some s \<Rightarrow> snd (delete_session now sid
                       (mgr_end_session_history now sid ''idle-timeout''
                          (lifetime_secs now (created_at s)) (recording_enabled s) m1)))
                 to_delete m))"

text \<open>The two lists that \<open>reap_completed_sessions\<close> collects.\<close>

definition reap_removable :: "DateTime \<Rightarrow> SessionManager \<Rightarrow> Uuid list" where
  "reap_removable now m =
     map fst (filter (\<lambda>(_, s). (status s = Completed \<or> status s = Error \<or> status s = Expired) \<and>
                over_age now (created_at s) (session_cleanup_delay_secs (config m))) (sessions m))"

definition reap_finalizable :: "DateTime \<Rightarrow> SessionManager \<Rightarrow> (Uuid \<times> Session) list" where
  "reap_finalizable now m =
     filter (\<lambda>(sid, s). status s = Disconnected \<and>
        over_age now (case disconnected_at m sid of Some t \<Rightarrow> t | None \<Rightarrow> created_at s)
          (session_cleanup_delay_secs (config m))) (sessions m)"

definition finalize_disconnected :: "DateTime \<Rightarrow> Uuid \<times> Session \<Rightarrow> SessionManager \<Rightarrow> SessionManager" where
  "finalize_disconnected now entry m =
     (case entry of (sid, s0) \<Rightarrow>
        let m1 = mgr_end_session_history now sid ''expired'' (lifetime_secs now (created_at s0))
                   (recording_enabled s0) m;
            m2 = (case get_entry sid m1 of
                    None \<Rightarrow> m1
                  | Some s \<Rightarrow>
                      if status s = Disconnected
                      then publish_transition now Disconnected (s\<lparr>status := Expired\<rparr>)
                             (put_session sid (s\<lparr>status := Expired\<rparr>) m1)
                      else m1)
        in stop_vdi_container sid m2)"

definition forget_session :: "Uuid \<Rightarrow> SessionManager \<Rightarrow> SessionManager" where
  "forget_session sid m =
     mark_owner_disconnected sid
       ((remove_session sid m)\<lparr>ended_at := (ended_at m)(sid := None),
                               disconnected_at := (disconnected_at m)(sid := None)\<rparr>)"

text \<open>What the reaper does with the two lists, after it has released the map.\<close>

definition reap_apply ::
    "(string \<Rightarrow> bool) \<Rightarrow> DateTime \<Rightarrow> Uuid list \<Rightarrow> (Uuid \<times> Session) list \<Rightarrow> SessionManager \<Rightarrow>
     nat \<times> SessionManager" where
  "reap_apply auth_session_is_live now removable finals m =
     (let to_remove = removable @ map fst finals;
          m1 = fold (finalize_disconnected now) finals m;
          m2 = fold forget_session to_remove m1;
          m3 = m2\<lparr>session_credentials := prune_session_credentials
                 (case db m2 of None \<Rightarrow> None | Some _ \<Rightarrow> Some auth_session_is_live) now
                 (session_credentials m2)\<rparr>
      in (length to_remove, m3))"

definition reap_completed_sessions ::
    "(string \<Rightarrow> bool) \<Rightarrow> DateTime \<Rightarrow> SessionManager \<Rightarrow> nat \<times> SessionManager" where
  "reap_completed_sessions auth_session_is_live now m =
     reap_apply auth_session_is_live now (reap_removable now m) (reap_finalizable now m) m"

definition registry_sweep_stale :: "DateTime \<Rightarrow> SessionManager \<Rightarrow> nat \<times> SessionManager" where
  "registry_sweep_stale now m =
     (if \<not> ha_enabled m then (0, m)
      else case db m of
             None \<Rightarrow> (0, m)
           | Some d \<Rightarrow>
               let pending_secs = max (session_pending_timeout_secs (config m) * 2) 60;
                   live = (if 0 < session_max_duration_secs (config m)
                           then Some (registry_ts (now - (sint (session_max_duration_secs (config m)) + 7200) * nanos))
                           else None)
               in case registry_delete_stale (instance_id (config m))
                         (registry_ts (now - sint pending_secs * nanos))
                         (registry_ts (now - 86400 * nanos)) live d of
                    (r, d') \<Rightarrow> (case r of Some n \<Rightarrow> n | None \<Rightarrow> 0, m\<lparr>db := Some d'\<rparr>))"

definition mgr_registry_delete_all_owned :: "SessionManager \<Rightarrow> nat \<times> SessionManager" where
  "mgr_registry_delete_all_owned m =
     (if \<not> ha_enabled m then (0, m)
      else case db m of
             None \<Rightarrow> (0, m)
           | Some d \<Rightarrow>
               (case registry_delete_all_owned (instance_id (config m)) d of
                  (r, d') \<Rightarrow> (case r of Some n \<Rightarrow> n | None \<Rightarrow> 0, m\<lparr>db := Some d'\<rparr>)))"

text \<open>One round of the reaper task of \<open>src/src/main.rs\<close>.\<close>

definition reaper_round :: "DateTime \<Rightarrow> SessionManager \<Rightarrow> SessionManager" where
  "reaper_round now m =
     snd (registry_sweep_stale now (snd (reap_idle_sessions now (snd (reap_expired_sessions now m)))))"

end
