(* ===== verification/Session_Lifecycle.thy ===== *)
theory Session_Lifecycle
  imports Session_Manager
begin

text \<open>
  The lifecycle of sessions under concurrency. Requests, WebSocket tasks, timeout tasks and
  reapers run concurrently and only exclude each other while they hold the session locks. A
  step (\<open>Op\<close>) is therefore one locked section of \<open>src/src/session/manager.rs\<close>, and a run is any
  sequence of steps, in any order and with any arguments: what is proved for all runs holds
  for every interleaving of every number of tasks. What follows a locked section without a
  lock (the owner flag, the disconnect time, the registry row) belongs to the step, except
  for connecting, where the section after the guacd connection and the final bookkeeping are
  steps of their own. The invariants concern the session map, the status of each session,
  the gauge and the terminal timestamps.
\<close>

section \<open>Steps\<close>

text \<open>Connecting starts from \<open>Pending\<close> (first connect) or \<open>Disconnected\<close> (reconnect).\<close>

definition connect_from :: "bool \<Rightarrow> SessionStatus" where
  "connect_from reconnect = (if reconnect then Disconnected else Pending)"

datatype Op =
    Register DateTime Session
  | RecordHistory DateTime Session "string option"
  | ExpirePending DateTime Uuid
  | Claim bool Uuid
  | ConnectFailed DateTime bool Uuid
  | Install DateTime bool Uuid "ConnectionParams option" "(GuacdStream \<times> string) option"
  | FinishTake DateTime Uuid
  | FinishReconnect DateTime Uuid
  | ReserveViewer Uuid "32 word"
  | DisconnectViewer Uuid
  | OwnerGone Uuid
  | Complete DateTime Uuid
  | Disconnect DateTime Uuid
  | Fail DateTime Uuid
  | LogoutMark DateTime Uuid
  | Delete DateTime Uuid
  | EndHistory DateTime Uuid string "64 word" bool
  | StopVdi Uuid
  | MintShadow Crypto DateTime string Uuid string
  | UpdateActivity DateTime Uuid
  | Finalize DateTime Uuid Session
  | Forget Uuid
  | Sweep DateTime
  | Shutdown
  | CancelAll

fun exec :: "Op \<Rightarrow> SessionManager \<Rightarrow> SessionManager" where
  "exec (Register now s) m = snd (register_session now s m)"
| "exec (RecordHistory now s reason) m = record_session_history now s reason m"
| "exec (ExpirePending now sid) m = expire_pending now sid m"
| "exec (Claim rc sid) m = snd (claim_deferred (connect_from rc) sid m)"
| "exec (ConnectFailed now rc sid) m = mark_connect_failed now sid (connect_from rc) m"
| "exec (Install now rc sid deferred connected) m =
     snd (install_stream now (connect_from rc) sid deferred connected m)"
| "exec (FinishTake now sid) m = finish_take now sid m"
| "exec (FinishReconnect now sid) m = finish_reconnect now sid m"
| "exec (ReserveViewer sid cap) m = snd (reserve_viewer_slot sid cap m)"
| "exec (DisconnectViewer sid) m = disconnect_viewer sid m"
| "exec (OwnerGone sid) m = mark_owner_disconnected sid m"
| "exec (Complete now sid) m = complete_session now sid m"
| "exec (Disconnect now sid) m = disconnect_session now sid m"
| "exec (Fail now sid) m = error_session now sid m"
| "exec (LogoutMark now sid) m = logout_mark now sid m"
| "exec (Delete now sid) m = snd (delete_session now sid m)"
| "exec (EndHistory now sid st d rec) m = mgr_end_session_history now sid st d rec m"
| "exec (StopVdi sid) m = stop_vdi_container sid m"
| "exec (MintShadow cr now raw sid issuer) m = snd (mint_shadow_token cr now raw sid issuer m)"
| "exec (UpdateActivity now sid) m = update_activity now sid m"
| "exec (Finalize now sid s) m = finalize_disconnected now (sid, s) m"
| "exec (Forget sid) m = forget_session sid m"
| "exec (Sweep now) m = snd (registry_sweep_stale now m)"
| "exec Shutdown m = snd (initiate_shutdown m)"
| "exec CancelAll m = snd (cancel_all_sessions m)"

definition run :: "Op list \<Rightarrow> SessionManager \<Rightarrow> SessionManager" where
  "run ops m = fold exec ops m"

lemma run_simps [simp]: "run [] m = m" "run (op # ops) m = run ops (exec op m)"
  "run (ops @ ops') m = run ops' (run ops m)"
  by (simp_all add: run_def)

section \<open>What the helpers leave alone\<close>

named_theorems frame_simps \<open>projections of the manager's helpers\<close>

lemma get_entry_put [simp]: "get_entry k (put_session sid s m) = (if k = sid then Some s else get_entry k m)"
  by (simp add: get_entry_def put_session_def update_conv')

lemma get_entry_remove [simp]: "get_entry k (remove_session sid m) = (if k = sid then None else get_entry k m)"
  by (simp add: get_entry_def remove_session_def delete_conv')

lemma get_entry_cong: "sessions m = sessions m' \<Longrightarrow> get_entry k m = get_entry k m'"
  by (simp add: get_entry_def)

lemma sessions_frames [frame_simps]:
  "sessions (publish_event now kind s m) = sessions m"
  "sessions (publish_transition now old s m) = sessions m"
  "sessions (mgr_registry_set_status now sid st m) = sessions m"
  "sessions (mgr_end_session_history now sid st d rec m) = sessions m"
  "sessions (record_session_history now s reason m) = sessions m"
  "sessions (mark_owner_connected sid m) = sessions m"
  "sessions (mark_owner_disconnected sid m) = sessions m"
  "sessions (session_active_inc m) = sessions m"
  "sessions (session_active_dec m) = sessions m"
  "sessions (session_total_inc m) = sessions m"
  "sessions (finish_take now sid m) = sessions m"
  "sessions (finish_reconnect now sid m) = sessions m"
  "sessions (snd (registry_sweep_stale now m)) = sessions m"
  "sessions (snd (initiate_shutdown m)) = sessions m"
  by (simp_all add: publish_event_def publish_transition_def mgr_registry_set_status_def
      mgr_end_session_history_def record_session_history_def mark_owner_connected_def
      mark_owner_disconnected_def session_active_inc_def session_active_dec_def session_total_inc_def
      finish_take_def finish_reconnect_def registry_sweep_stale_def initiate_shutdown_def Let_def
      split: option.splits prod.splits)

lemma get_entry_frames [frame_simps]:
  "get_entry k (publish_event now kind s m) = get_entry k m"
  "get_entry k (publish_transition now old s m) = get_entry k m"
  "get_entry k (mgr_registry_set_status now sid st m) = get_entry k m"
  "get_entry k (mgr_end_session_history now sid st d rec m) = get_entry k m"
  "get_entry k (record_session_history now s reason m) = get_entry k m"
  "get_entry k (mark_owner_connected sid m) = get_entry k m"
  "get_entry k (mark_owner_disconnected sid m) = get_entry k m"
  "get_entry k (session_active_inc m) = get_entry k m"
  "get_entry k (session_active_dec m) = get_entry k m"
  "get_entry k (session_total_inc m) = get_entry k m"
  "get_entry k (finish_take now sid m) = get_entry k m"
  "get_entry k (finish_reconnect now sid m) = get_entry k m"
  "get_entry k (snd (registry_sweep_stale now m)) = get_entry k m"
  "get_entry k (snd (initiate_shutdown m)) = get_entry k m"
  by (simp_all add: get_entry_def sessions_frames)

lemma get_entry_fields [frame_simps]:
  "get_entry k (m\<lparr>effects := x1\<rparr>) = get_entry k m"
  "get_entry k (m\<lparr>ended_at := x2\<rparr>) = get_entry k m"
  "get_entry k (m\<lparr>disconnected_at := x3\<rparr>) = get_entry k m"
  "get_entry k (m\<lparr>db := x4\<rparr>) = get_entry k m"
  "get_entry k (m\<lparr>session_credentials := x5\<rparr>) = get_entry k m"
  by (simp_all add: get_entry_def)

lemma get_entry_cleanup [frame_simps]:
  "get_entry k (cleanup_browser sid m) =
     (if k = sid then map_option cleaned (get_entry sid m) else get_entry k m)"
  by (auto simp: cleanup_browser_def frame_simps split: option.splits prod.splits)

lemma status_cleaned [simp]: "status (cleaned s) = status s" "s_id (cleaned s) = s_id s"
  by (simp_all add: cleaned_def)

section \<open>The abstract lifecycle\<close>

text \<open>The status changes a session may go through.\<close>

inductive lifecycle :: "SessionStatus \<Rightarrow> SessionStatus \<Rightarrow> bool" where
  connect: "lifecycle Pending Active"
| reconnect: "lifecycle Disconnected Active"
| disconnect: "lifecycle Active Disconnected"
| complete: "lifecycle Active Completed"
| complete_disconnected: "lifecycle Disconnected Completed"
| expire_pending: "lifecycle Pending Expired"
| expire_disconnected: "lifecycle Disconnected Expired"
| fail: "st \<noteq> Error \<Longrightarrow> lifecycle st Error"
| logout: "st \<noteq> LoggedOut \<Longrightarrow> lifecycle st LoggedOut"

inductive_simps lifecycle_Active [simp]: "lifecycle st Active"
inductive_simps lifecycle_Pending [simp]: "lifecycle st Pending"
inductive_simps lifecycle_Disconnected [simp]: "lifecycle st Disconnected"
inductive_simps lifecycle_Completed [simp]: "lifecycle st Completed"
inductive_simps lifecycle_Expired [simp]: "lifecycle st Expired"
inductive_simps lifecycle_Error [simp]: "lifecycle st Error"
inductive_simps lifecycle_LoggedOut [simp]: "lifecycle st LoggedOut"

lemma lifecycle_terminal: "lifecycle st st' \<Longrightarrow> is_terminal st \<Longrightarrow> is_terminal st'"
  by (induction rule: lifecycle.induct) auto

definition entry_status :: "Uuid \<Rightarrow> SessionManager \<Rightarrow> SessionStatus option" where
  "entry_status k m = map_option status (get_entry k m)"

text \<open>What one step may do to the status of session \<open>k\<close>.\<close>

definition step_ok :: "Op \<Rightarrow> Uuid \<Rightarrow> SessionStatus option \<Rightarrow> SessionStatus option \<Rightarrow> bool" where
  "step_ok op k a b \<longleftrightarrow>
     b = a \<or> b = None \<or>
     (\<exists>st st'. a = Some st \<and> b = Some st' \<and> lifecycle st st') \<or>
     (\<exists>now s. op = Register now s \<and> s_id s = k \<and> b = Some (status s))"

lemma step_okI_same [intro]: "step_ok op k a a"
  by (simp add: step_ok_def)

lemma step_okI_removed [intro]: "step_ok op k a None"
  by (simp add: step_ok_def)

lemma step_okI_moved [intro]: "lifecycle st st' \<Longrightarrow> step_ok op k (Some st) (Some st')"
  by (simp add: step_ok_def)

lemmas entry_simps = entry_status_def frame_simps

lemma connect_from_lifecycle [simp]:
  "lifecycle (connect_from rc) Active" "connect_from rc \<noteq> Error" "connect_from rc \<noteq> Active"
  "\<not> is_terminal (connect_from rc)"
  by (simp_all add: connect_from_def)

lemma claim_deferred_status: "entry_status k (snd (claim_deferred from sid m)) = entry_status k m"
  by (auto simp: claim_deferred_def entry_simps split: option.splits)

lemma install_stream_status:
  "step_ok op k (entry_status k m) (entry_status k (snd (install_stream now (connect_from rc) sid d c m)))"
  by (cases rc)
    (auto simp: install_stream_def connect_from_def Let_def entry_simps split: option.splits)

lemma entry_status_frames:
  "entry_status k (record_session_history now s reason m) = entry_status k m"
  "entry_status k (finish_take now sid m) = entry_status k m"
  "entry_status k (finish_reconnect now sid m) = entry_status k m"
  "entry_status k (mark_owner_disconnected sid m) = entry_status k m"
  "entry_status k (mgr_end_session_history now sid st d rec m) = entry_status k m"
  "entry_status k (snd (registry_sweep_stale now m)) = entry_status k m"
  "entry_status k (snd (initiate_shutdown m)) = entry_status k m"
  by (simp_all add: entry_simps)

lemma finalize_status:
  "step_ok op k (entry_status k m) (entry_status k (finalize_disconnected now (sid, s) m))"
  by (auto simp: finalize_disconnected_def stop_vdi_container_def Let_def entry_simps split: option.splits)

lemma delete_status: "entry_status k (snd (delete_session now sid m)) = (if k = sid then None else entry_status k m)"
  by (auto simp: delete_session_def Let_def entry_simps split: option.splits prod.splits)

lemma forget_status: "entry_status k (forget_session sid m) = (if k = sid then None else entry_status k m)"
  by (auto simp: forget_session_def entry_simps)

lemma cancel_all_status: "entry_status k (snd (cancel_all_sessions m)) = entry_status k m"
proof -
  have "map_of (map (\<lambda>(i, s). (i, f s)) xs) k = map_option f (map_of xs k)" for f :: "Session \<Rightarrow> Session" and xs
    by (induction xs) auto
  then show ?thesis
    by (cases "map_of (sessions m) k") (simp_all add: cancel_all_sessions_def entry_status_def get_entry_def)
qed

lemma register_status:
  "step_ok (Register now s) k (entry_status k m) (entry_status k (snd (register_session now s m)))"
proof -
  have "entry_status k (snd (register_session now s m)) =
      (if fst (register_session now s m) \<in> range Inr \<and> k = s_id s then Some (status s) else entry_status k m)"
    by (auto simp: register_session_def Let_def entry_simps publish_session_started_def
        split: option.splits)
  then show ?thesis by (auto simp: step_ok_def)
qed

text \<open>Every step of every task moves every session along the lifecycle.\<close>

lemma exec_step_ok: "step_ok op k (entry_status k m) (entry_status k (exec op m))"
proof (cases op)
  case (Register now s)
  then show ?thesis using register_status by simp
next
  case (Complete now sid)
  then show ?thesis by (auto simp: complete_session_def Let_def entry_simps split: option.splits)
next
  case (Disconnect now sid)
  then show ?thesis by (auto simp: disconnect_session_def Let_def entry_simps split: option.splits)
next
  case (Fail now sid)
  then show ?thesis by (auto simp: error_session_def Let_def entry_simps split: option.splits)
next
  case (LogoutMark now sid)
  then show ?thesis by (auto simp: logout_mark_def Let_def entry_simps split: option.splits)
next
  case (ExpirePending now sid)
  then show ?thesis by (auto simp: expire_pending_def Let_def entry_simps split: option.splits)
next
  case (ConnectFailed now rc sid)
  then show ?thesis
    by (cases rc) (auto simp: mark_connect_failed_def connect_from_def entry_simps split: option.splits)
next
  case (ReserveViewer sid cap)
  then show ?thesis by (auto simp: reserve_viewer_slot_def Let_def entry_simps split: option.splits)
next
  case (DisconnectViewer sid)
  then show ?thesis by (auto simp: disconnect_viewer_def entry_simps split: option.splits)
next
  case (StopVdi sid)
  then show ?thesis by (auto simp: stop_vdi_container_def Let_def entry_simps split: option.splits)
next
  case (MintShadow cr now raw sid issuer)
  then show ?thesis by (auto simp: mint_shadow_token_def Let_def entry_simps split: option.splits)
next
  case (UpdateActivity now sid)
  then show ?thesis by (auto simp: update_activity_def touch_activity_def entry_simps split: option.splits)
qed (auto simp: claim_deferred_status delete_status forget_status cancel_all_status entry_status_frames
     intro: install_stream_status finalize_status)

text \<open>A session is registered at most once: UUIDs are fresh.\<close>

fun registers :: "Uuid \<Rightarrow> Op \<Rightarrow> bool" where
  "registers k (Register now s) = (s_id s = k)"
| "registers k _ = False"

definition ended :: "Uuid \<Rightarrow> SessionManager \<Rightarrow> bool" where
  "ended k m = (case entry_status k m of None \<Rightarrow> True | Some st \<Rightarrow> is_terminal st)"

lemma exec_ended:
  assumes "ended k m" "\<not> registers k op"
  shows "ended k (exec op m)"
  using exec_step_ok [of op k m] assms
  by (auto simp: ended_def step_ok_def split: option.splits dest: lifecycle_terminal)

lemma exec_lifecycle:
  assumes "\<not> registers k op" "entry_status k (exec op m) = Some st'"
  obtains st where "entry_status k m = Some st" "lifecycle\<^sup>=\<^sup>= st st'"
proof -
  from exec_step_ok [of op k m] assms
  have "\<exists>st. entry_status k m = Some st \<and> lifecycle\<^sup>=\<^sup>= st st'"
    by (cases "entry_status k m") (auto simp: step_ok_def)
  with that show thesis by blast
qed

lemma run_lifecycle:
  "list_all (\<lambda>op. \<not> registers k op) ops \<Longrightarrow> entry_status k (run ops m) = Some st' \<Longrightarrow>
     \<exists>st. entry_status k m = Some st \<and> lifecycle\<^sup>*\<^sup>* st st'"
proof (induction ops arbitrary: m)
  case (Cons op ops)
  then obtain st1 where st1: "entry_status k (exec op m) = Some st1" "lifecycle\<^sup>*\<^sup>* st1 st'" by auto
  moreover obtain st where "entry_status k m = Some st" "lifecycle\<^sup>=\<^sup>= st st1"
    using exec_lifecycle [of k op m st1] Cons.prems(1) st1(1) by auto
  ultimately show ?case by (auto intro: converse_rtranclp_into_rtranclp)
qed auto

section \<open>The gauge of active sessions\<close>

definition keys_ok :: "SessionManager \<Rightarrow> bool" where
  "keys_ok m \<longleftrightarrow> distinct (map fst (sessions m))"

definition count_active :: "SessionManager \<Rightarrow> nat" where
  "count_active m = length (filter (\<lambda>(_, s). status s = Active) (sessions m))"

text \<open>How far the gauge is off the number of active sessions, as a 64-bit difference.\<close>

definition drift :: "SessionManager \<Rightarrow> 64 word" where
  "drift m = sessions_active m - word_of_nat (count_active m)"

lemma filter_update_count:
  "distinct (map fst xs) \<Longrightarrow> map_of xs k = Some s \<Longrightarrow>
     length (filter (\<lambda>(_, s). P s) (AList.update k s' xs)) + of_bool (P s) =
       length (filter (\<lambda>(_, s). P s) xs) + (of_bool (P s') :: nat)"
proof (induction xs)
  case (Cons x xs)
  obtain k' t where x: "x = (k', t)" by (cases x)
  show ?case
  proof (cases "k' = k")
    case True
    with Cons.prems x show ?thesis by auto
  next
    case False
    with Cons x show ?thesis by auto
  qed
qed simp

lemma filter_new_count:
  "map_of xs k = None \<Longrightarrow>
     length (filter (\<lambda>(_, s). P s) (AList.update k s' xs)) =
       length (filter (\<lambda>(_, s). P s) xs) + (of_bool (P s') :: nat)"
  by (induction xs) (auto split: if_splits)

lemma filter_delete_count:
  "distinct (map fst xs) \<Longrightarrow> map_of xs k = Some s \<Longrightarrow>
     length (filter (\<lambda>(_, s). P s) (AList.delete k xs)) + of_bool (P s) =
       (length (filter (\<lambda>(_, s). P s) xs) :: nat)"
proof (induction xs)
  case (Cons x xs)
  obtain k' t where x: "x = (k', t)" by (cases x)
  show ?case
  proof (cases "k' = k")
    case True
    with Cons.prems x have "map_of xs k = None" by (simp add: map_of_eq_None_iff)
    then have "AList.delete k xs = xs" by (simp add: delete_idem map_of_eq_None_iff)
    with Cons.prems x True show ?thesis by auto
  next
    case False
    with Cons x show ?thesis by auto
  qed
qed simp

lemma word_of_nat_of_bool: "a + of_bool p = b + of_bool q \<Longrightarrow>
    (word_of_nat a :: 64 word) = word_of_nat b - of_bool p + of_bool q"
  by (cases p; cases q) auto

lemma count_put:
  "keys_ok m \<Longrightarrow> get_entry sid m = Some s \<Longrightarrow>
     (word_of_nat (count_active (put_session sid s' m)) :: 64 word) =
       word_of_nat (count_active m) - of_bool (status s = Active) + of_bool (status s' = Active)"
  using filter_update_count [of "sessions m" sid s "\<lambda>s. status s = Active" s']
  by (intro word_of_nat_of_bool) (simp add: count_active_def put_session_def get_entry_def keys_ok_def)

lemma count_new:
  "get_entry sid m = None \<Longrightarrow>
     count_active (put_session sid s m) = count_active m + of_bool (status s = Active)"
  by (simp add: count_active_def put_session_def get_entry_def filter_new_count)

lemma count_remove:
  "keys_ok m \<Longrightarrow> get_entry sid m = Some s \<Longrightarrow>
     (word_of_nat (count_active (remove_session sid m)) :: 64 word) =
       word_of_nat (count_active m) - of_bool (status s = Active)"
  using filter_delete_count [of "sessions m" sid s "\<lambda>s. status s = Active"]
    word_of_nat_of_bool [of "count_active (remove_session sid m)" "status s = Active" "count_active m" False]
  by (simp add: count_active_def remove_session_def get_entry_def keys_ok_def)

lemma remove_session_absent: "get_entry sid m = None \<Longrightarrow> remove_session sid m = m"
  by (simp add: remove_session_def get_entry_def delete_idem map_of_eq_None_iff)

lemma count_cong: "sessions m = sessions m' \<Longrightarrow> count_active m = count_active m'"
  by (simp add: count_active_def)

lemma keys_ok_cong: "sessions m = sessions m' \<Longrightarrow> keys_ok m = keys_ok m'"
  by (simp add: keys_ok_def)

lemma keys_ok_put [simp]: "keys_ok m \<Longrightarrow> keys_ok (put_session sid s m)"
  by (simp add: keys_ok_def put_session_def distinct_update)

lemma keys_ok_remove [simp]: "keys_ok m \<Longrightarrow> keys_ok (remove_session sid m)"
  by (simp add: keys_ok_def remove_session_def distinct_delete)

named_theorems drift_simps \<open>how helpers move the gauge\<close>

lemma sessions_active_frames:
  "sessions_active (publish_event now kind s m) = sessions_active m"
  "sessions_active (publish_transition now old s m) = sessions_active m"
  "sessions_active (mgr_registry_set_status now sid st m) = sessions_active m"
  "sessions_active (mgr_end_session_history now sid st d rec m) = sessions_active m"
  "sessions_active (record_session_history now s reason m) = sessions_active m"
  "sessions_active (mark_owner_connected sid m) = sessions_active m"
  "sessions_active (mark_owner_disconnected sid m) = sessions_active m"
  "sessions_active (session_total_inc m) = sessions_active m"
  "sessions_active (finish_take now sid m) = sessions_active m"
  "sessions_active (finish_reconnect now sid m) = sessions_active m"
  "sessions_active (snd (registry_sweep_stale now m)) = sessions_active m"
  "sessions_active (snd (initiate_shutdown m)) = sessions_active m"
  by (simp_all add: publish_event_def publish_transition_def mgr_registry_set_status_def
      mgr_end_session_history_def record_session_history_def mark_owner_connected_def
      mark_owner_disconnected_def session_total_inc_def finish_take_def finish_reconnect_def
      registry_sweep_stale_def initiate_shutdown_def Let_def split: option.splits prod.splits)

lemma drift_frame:
  "sessions m' = sessions m \<Longrightarrow> sessions_active m' = sessions_active m \<Longrightarrow> drift m' = drift m"
  by (simp add: drift_def count_active_def)

lemma drift_frames [drift_simps]:
  "drift (publish_event now kind s m) = drift m"
  "drift (publish_transition now old s m) = drift m"
  "drift (mgr_registry_set_status now sid st m) = drift m"
  "drift (mgr_end_session_history now sid st d rec m) = drift m"
  "drift (record_session_history now s reason m) = drift m"
  "drift (mark_owner_connected sid m) = drift m"
  "drift (mark_owner_disconnected sid m) = drift m"
  "drift (session_total_inc m) = drift m"
  "drift (finish_take now sid m) = drift m"
  "drift (finish_reconnect now sid m) = drift m"
  "drift (snd (registry_sweep_stale now m)) = drift m"
  "drift (snd (initiate_shutdown m)) = drift m"
  by (rule drift_frame; simp add: sessions_frames sessions_active_frames)+

lemma drift_fields [drift_simps]:
  "drift (m\<lparr>effects := x1\<rparr>) = drift m"
  "drift (m\<lparr>ended_at := x2\<rparr>) = drift m"
  "drift (m\<lparr>disconnected_at := x3\<rparr>) = drift m"
  "drift (m\<lparr>db := x4\<rparr>) = drift m"
  by (rule drift_frame; simp)+

lemma keys_ok_frames [drift_simps]:
  "keys_ok (publish_event now kind s m) = keys_ok m"
  "keys_ok (publish_transition now old s m) = keys_ok m"
  "keys_ok (mgr_registry_set_status now sid st m) = keys_ok m"
  "keys_ok (mgr_end_session_history now sid st d rec m) = keys_ok m"
  "keys_ok (record_session_history now s reason m) = keys_ok m"
  "keys_ok (mark_owner_connected sid m) = keys_ok m"
  "keys_ok (mark_owner_disconnected sid m) = keys_ok m"
  "keys_ok (session_active_inc m) = keys_ok m"
  "keys_ok (session_active_dec m) = keys_ok m"
  "keys_ok (session_total_inc m) = keys_ok m"
  "keys_ok (finish_take now sid m) = keys_ok m"
  "keys_ok (finish_reconnect now sid m) = keys_ok m"
  "keys_ok (snd (registry_sweep_stale now m)) = keys_ok m"
  "keys_ok (snd (initiate_shutdown m)) = keys_ok m"
  "keys_ok (m\<lparr>effects := x1\<rparr>) = keys_ok m"
  "keys_ok (m\<lparr>ended_at := x2\<rparr>) = keys_ok m"
  "keys_ok (m\<lparr>disconnected_at := x3\<rparr>) = keys_ok m"
  "keys_ok (m\<lparr>db := x4\<rparr>) = keys_ok m"
  by (simp_all add: keys_ok_def sessions_frames)

lemma drift_inc_dec [drift_simps]:
  "drift (session_active_inc m) = drift m + 1"
  "drift (session_active_dec m) = drift m - 1"
  by (simp_all add: drift_def session_active_inc_def session_active_dec_def count_active_def)

lemma drift_put [drift_simps]:
  "keys_ok m \<Longrightarrow> get_entry sid m = Some s \<Longrightarrow>
     drift (put_session sid s' m) = drift m + of_bool (status s = Active) - of_bool (status s' = Active)"
  using count_put [of m sid s s'] by (simp add: drift_def put_session_def)

lemma drift_new [drift_simps]:
  "get_entry sid m = None \<Longrightarrow> drift (put_session sid s m) = drift m - of_bool (status s = Active)"
  using count_new [of sid m s] by (simp add: drift_def put_session_def)

lemma drift_remove [drift_simps]:
  "keys_ok m \<Longrightarrow> get_entry sid m = Some s \<Longrightarrow>
     drift (remove_session sid m) = drift m + of_bool (status s = Active)"
  using count_remove [of m sid s] by (simp add: drift_def remove_session_def)

lemma keys_ok_cleanup [drift_simps]: "keys_ok m \<Longrightarrow> keys_ok (cleanup_browser sid m)"
  by (simp add: cleanup_browser_def drift_simps split: option.splits prod.splits)

lemma drift_cleanup [drift_simps]: "keys_ok m \<Longrightarrow> drift (cleanup_browser sid m) = drift m"
  by (auto simp: cleanup_browser_def drift_simps split: option.splits prod.splits)

text \<open>The two steps that take the gauge off the number of active sessions.\<close>

fun drift_delta :: "Op \<Rightarrow> SessionManager \<Rightarrow> 64 word" where
  "drift_delta (Complete now sid) m = (if entry_status sid m = Some Disconnected then - 1 else 0)"
| "drift_delta (Forget sid) m = (if entry_status sid m = Some Active then 1 else 0)"
| "drift_delta _ m = 0"

fun op_ok :: "Op \<Rightarrow> SessionManager \<Rightarrow> bool" where
  "op_ok (Register now s) m = (get_entry (s_id s) m = None \<and> status s = Pending)"
| "op_ok _ m = True"

lemmas drift_op_simps = drift_simps frame_simps Let_def entry_status_def

lemma drift_register:
  "keys_ok m \<Longrightarrow> get_entry (s_id s) m = None \<Longrightarrow> status s = Pending \<Longrightarrow>
     drift (snd (register_session now s m)) = drift m \<and> keys_ok (snd (register_session now s m))"
  by (auto simp: register_session_def publish_session_started_def drift_op_simps split: option.splits)

lemma drift_cancel_all: "drift (snd (cancel_all_sessions m)) = drift m \<and> keys_ok (snd (cancel_all_sessions m)) = keys_ok m"
proof -
  have "length (filter (\<lambda>(_, s). status s = Active)
          (map (\<lambda>(i, s). (i, if is_live_status (status s) then s\<lparr>cancelled := True\<rparr> else s)) xs)) =
        length (filter (\<lambda>(_, s). status s = Active) xs)" for xs :: "(Uuid \<times> Session) list"
    by (induction xs) (auto split: if_splits)
  then show ?thesis
    by (simp add: cancel_all_sessions_def drift_def count_active_def keys_ok_def comp_def case_prod_beta)
qed

lemma drift_install:
  "keys_ok m \<Longrightarrow> drift (snd (install_stream now (connect_from rc) sid d c m)) = drift m \<and>
     keys_ok (snd (install_stream now (connect_from rc) sid d c m))"
  by (cases rc) (auto simp: install_stream_def connect_from_def drift_op_simps split: option.splits)

lemma drift_finalize:
  "keys_ok m \<Longrightarrow> drift (finalize_disconnected now (sid, s) m) = drift m \<and>
     keys_ok (finalize_disconnected now (sid, s) m)"
  by (auto simp: finalize_disconnected_def stop_vdi_container_def drift_op_simps split: option.splits)

lemma drift_delete:
  "keys_ok m \<Longrightarrow> drift (snd (delete_session now sid m)) = drift m \<and> keys_ok (snd (delete_session now sid m))"
  by (auto simp: delete_session_def drift_op_simps split: option.splits prod.splits)

lemma drift_forget:
  "keys_ok m \<Longrightarrow> drift (forget_session sid m) = drift m + (if entry_status sid m = Some Active then 1 else 0) \<and>
     keys_ok (forget_session sid m)"
  by (cases "get_entry sid m") (auto simp: forget_session_def remove_session_absent drift_op_simps)

lemma drift_exec:
  assumes "keys_ok m" "op_ok op m"
  shows "drift (exec op m) = drift m + drift_delta op m \<and> keys_ok (exec op m)"
proof (cases op)
  case (Register now s)
  with assms drift_register show ?thesis by simp
next
  case (Complete now sid)
  with assms show ?thesis by (auto simp: complete_session_def drift_op_simps split: option.splits)
next
  case (Disconnect now sid)
  with assms show ?thesis by (auto simp: disconnect_session_def drift_op_simps split: option.splits)
next
  case (Fail now sid)
  with assms show ?thesis by (auto simp: error_session_def drift_op_simps split: option.splits)
next
  case (LogoutMark now sid)
  with assms show ?thesis by (auto simp: logout_mark_def drift_op_simps split: option.splits)
next
  case (ExpirePending now sid)
  with assms show ?thesis by (auto simp: expire_pending_def drift_op_simps split: option.splits)
next
  case (Claim rc sid)
  with assms show ?thesis by (auto simp: claim_deferred_def drift_op_simps split: option.splits)
next
  case (ConnectFailed now rc sid)
  with assms show ?thesis
    by (cases rc) (auto simp: mark_connect_failed_def connect_from_def drift_op_simps split: option.splits)
next
  case (ReserveViewer sid cap)
  with assms show ?thesis by (auto simp: reserve_viewer_slot_def drift_op_simps split: option.splits)
next
  case (DisconnectViewer sid)
  with assms show ?thesis by (auto simp: disconnect_viewer_def drift_op_simps split: option.splits)
next
  case (StopVdi sid)
  with assms show ?thesis by (auto simp: stop_vdi_container_def drift_op_simps split: option.splits)
next
  case (MintShadow cr now raw sid issuer)
  with assms show ?thesis by (auto simp: mint_shadow_token_def drift_op_simps split: option.splits)
next
  case (UpdateActivity now sid)
  with assms show ?thesis
    by (auto simp: update_activity_def touch_activity_def drift_op_simps split: option.splits)
qed (use assms in \<open>auto simp: drift_simps drift_install drift_finalize drift_delete drift_forget drift_cancel_all\<close>)

text \<open>The steps of a run at which the gauge goes wrong, counted with their sign.\<close>

fun run_drift :: "Op list \<Rightarrow> SessionManager \<Rightarrow> 64 word" where
  "run_drift [] m = 0"
| "run_drift (op # ops) m = drift_delta op m + run_drift ops (exec op m)"

fun run_ok :: "Op list \<Rightarrow> SessionManager \<Rightarrow> bool" where
  "run_ok [] m = True"
| "run_ok (op # ops) m = (op_ok op m \<and> run_ok ops (exec op m))"

lemma drift_run:
  "keys_ok m \<Longrightarrow> run_ok ops m \<Longrightarrow> drift (run ops m) = drift m + run_drift ops m \<and> keys_ok (run ops m)"
  by (induction ops arbitrary: m) (auto simp: drift_exec add.assoc)

lemma manager_new_facts [simp]:
  "keys_ok (manager_new cfg database vdi)" "drift (manager_new cfg database vdi) = 0"
  "get_entry k (manager_new cfg database vdi) = None" "ended_at (manager_new cfg database vdi) k = None"
  by (simp_all add: manager_new_def keys_ok_def drift_def count_active_def get_entry_def)

section \<open>One owner at a time\<close>

lemma exec_Disconnected:
  assumes "entry_status k (exec op m) = Some Disconnected" "\<not> registers k op"
  shows "entry_status k m = Some Disconnected \<or> (\<exists>now. op = Disconnect now k)"
proof (cases op)
  case (Register now s)
  with assms show ?thesis
    by (auto simp: register_session_def publish_session_started_def Let_def entry_simps split: option.splits if_splits)
next
  case (Complete now sid)
  with assms show ?thesis by (auto simp: complete_session_def Let_def entry_simps split: option.splits if_splits)
next
  case (Disconnect now sid)
  with assms show ?thesis by (auto simp: disconnect_session_def Let_def entry_simps split: option.splits if_splits)
next
  case (Fail now sid)
  with assms show ?thesis by (auto simp: error_session_def Let_def entry_simps split: option.splits if_splits)
next
  case (LogoutMark now sid)
  with assms show ?thesis by (auto simp: logout_mark_def Let_def entry_simps split: option.splits if_splits)
next
  case (ExpirePending now sid)
  with assms show ?thesis by (auto simp: expire_pending_def Let_def entry_simps split: option.splits if_splits)
next
  case (ConnectFailed now rc sid)
  with assms show ?thesis by (auto simp: mark_connect_failed_def entry_simps split: option.splits if_splits)
next
  case (Install now rc sid d c)
  with assms show ?thesis
    by (cases rc) (auto simp: install_stream_def connect_from_def Let_def entry_simps split: option.splits if_splits)
next
  case (Finalize now sid s)
  with assms show ?thesis
    by (auto simp: finalize_disconnected_def stop_vdi_container_def Let_def entry_simps split: option.splits if_splits)
next
  case (ReserveViewer sid cap)
  with assms show ?thesis by (auto simp: reserve_viewer_slot_def Let_def entry_simps split: option.splits if_splits)
next
  case (DisconnectViewer sid)
  with assms show ?thesis by (auto simp: disconnect_viewer_def entry_simps split: option.splits if_splits)
next
  case (StopVdi sid)
  with assms show ?thesis by (auto simp: stop_vdi_container_def Let_def entry_simps split: option.splits if_splits)
next
  case (MintShadow cr now raw sid issuer)
  with assms show ?thesis by (auto simp: mint_shadow_token_def Let_def entry_simps split: option.splits if_splits)
next
  case (UpdateActivity now sid)
  with assms show ?thesis
    by (auto simp: update_activity_def touch_activity_def entry_simps split: option.splits if_splits)
qed (use assms in \<open>auto simp: claim_deferred_status delete_status forget_status cancel_all_status
       entry_status_frames split: if_splits\<close>)

fun disconnects :: "Uuid \<Rightarrow> Op \<Rightarrow> bool" where
  "disconnects k (Disconnect now sid) = (sid = k)"
| "disconnects k _ = False"

text \<open>A session that nobody can connect to as its owner.\<close>

definition owner_closed :: "Uuid \<Rightarrow> SessionManager \<Rightarrow> bool" where
  "owner_closed k m \<longleftrightarrow> entry_status k m \<notin> {Some Pending, Some Disconnected}"

lemma exec_owner_closed:
  assumes "owner_closed k m" "\<not> registers k op" "\<not> disconnects k op"
  shows "owner_closed k (exec op m)"
proof -
  have "entry_status k (exec op m) \<noteq> Some Disconnected"
    using exec_Disconnected [of k op m] assms by (auto simp: owner_closed_def)
  moreover have "entry_status k (exec op m) \<noteq> Some Pending"
    using exec_lifecycle [of k op m Pending] assms by (auto simp: owner_closed_def)
  ultimately show ?thesis by (simp add: owner_closed_def)
qed

lemma run_owner_closed:
  "owner_closed k m \<Longrightarrow> list_all (\<lambda>op. \<not> registers k op \<and> \<not> disconnects k op) ops \<Longrightarrow>
     owner_closed k (run ops m)"
  by (induction ops arbitrary: m) (auto simp: exec_owner_closed)

lemma install_success:
  "fst (install_stream now (connect_from rc) sid d c m) \<noteq> None \<Longrightarrow>
     entry_status sid (snd (install_stream now (connect_from rc) sid d c m)) = Some Active"
  by (auto simp: install_stream_def Let_def entry_simps split: option.splits if_splits)

lemma install_closed:
  "owner_closed sid m \<Longrightarrow> fst (install_stream now (connect_from rc) sid d c m) = None"
  by (cases rc) (auto simp: install_stream_def connect_from_def owner_closed_def entry_status_def split: option.splits)

section \<open>The invariant of the manager\<close>

text \<open>
  Per session: it is filed under its own id, it has a terminal timestamp exactly when its
  status is terminal, and it holds a guacd stream only while it waits for its owner (or
  after a connect that failed). A session that is gone has no terminal timestamp.
\<close>

definition entry_inv :: "Uuid \<Rightarrow> SessionManager \<Rightarrow> bool" where
  "entry_inv k m \<longleftrightarrow>
     (case get_entry k m of
        None \<Rightarrow> ended_at m k = None
      | Some s \<Rightarrow>
          s_id s = k \<and> (ended_at m k \<noteq> None \<longleftrightarrow> is_terminal (status s)) \<and>
          (status s \<noteq> Pending \<and> status s \<noteq> Error \<longrightarrow> guacd_stream s = None))"

definition manager_inv :: "SessionManager \<Rightarrow> bool" where
  "manager_inv m \<longleftrightarrow> keys_ok m \<and> (\<forall>k. entry_inv k m)"

named_theorems ended_simps \<open>terminal timestamps under the helpers\<close>

lemma ended_at_transition [ended_simps]:
  "ended_at (publish_transition now old s m) =
     (if old \<noteq> status s \<and> is_terminal (status s) then (ended_at m)(s_id s \<mapsto> now) else ended_at m)"
  by (simp add: publish_transition_def publish_event_def Let_def)

lemma ended_at_frames [ended_simps]:
  "ended_at (publish_event now kind s m) = ended_at m"
  "ended_at (put_session sid s m) = ended_at m"
  "ended_at (remove_session sid m) = ended_at m"
  "ended_at (mgr_registry_set_status now sid st m) = ended_at m"
  "ended_at (mgr_end_session_history now sid st d rec m) = ended_at m"
  "ended_at (record_session_history now s reason m) = ended_at m"
  "ended_at (mark_owner_connected sid m) = ended_at m"
  "ended_at (mark_owner_disconnected sid m) = ended_at m"
  "ended_at (session_active_inc m) = ended_at m"
  "ended_at (session_active_dec m) = ended_at m"
  "ended_at (session_total_inc m) = ended_at m"
  "ended_at (finish_take now sid m) = ended_at m"
  "ended_at (finish_reconnect now sid m) = ended_at m"
  "ended_at (cleanup_browser sid m) = ended_at m"
  "ended_at (snd (registry_sweep_stale now m)) = ended_at m"
  "ended_at (snd (initiate_shutdown m)) = ended_at m"
  "ended_at (snd (cancel_all_sessions m)) = ended_at m"
  by (simp_all add: publish_event_def put_session_def remove_session_def mgr_registry_set_status_def
      mgr_end_session_history_def record_session_history_def mark_owner_connected_def
      mark_owner_disconnected_def session_active_inc_def session_active_dec_def session_total_inc_def
      finish_take_def finish_reconnect_def cleanup_browser_def registry_sweep_stale_def
      initiate_shutdown_def cancel_all_sessions_def Let_def split: option.splits prod.splits)

lemma cleaned_stream [simp]: "guacd_stream (cleaned s) = guacd_stream s"
  by (simp add: cleaned_def)

lemmas inv_simps = entry_inv_def ended_simps frame_simps Let_def

lemma entry_inv_cancel_all: "entry_inv k m \<Longrightarrow> entry_inv k (snd (cancel_all_sessions m))"
proof -
  have "map_of (map (\<lambda>(i, s). (i, f s)) xs) k = map_option f (map_of xs k)" for f :: "Session \<Rightarrow> Session" and xs
    by (induction xs) auto
  then show "entry_inv k m \<Longrightarrow> entry_inv k (snd (cancel_all_sessions m))"
    by (cases "map_of (sessions m) k")
      (simp_all add: cancel_all_sessions_def entry_inv_def get_entry_def)
qed

text \<open>One lemma for each step that touches a session; \<open>inv\<close> gives the facts on it.\<close>

lemma entry_inv_of: "\<forall>k. entry_inv k m \<Longrightarrow> get_entry sid m = Some s \<Longrightarrow>
    s_id s = sid \<and> (ended_at m sid \<noteq> None \<longleftrightarrow> is_terminal (status s)) \<and>
    (status s \<noteq> Pending \<and> status s \<noteq> Error \<longrightarrow> guacd_stream s = None)"
  by (drule spec [of _ sid]) (simp add: entry_inv_def)

lemma entry_inv_install:
  assumes "\<forall>k. entry_inv k m"
  shows "entry_inv k (snd (install_stream now (connect_from rc) sid d c m))"
proof (cases "get_entry sid m")
  case None
  then show ?thesis using assms [rule_format, of k] by (auto simp: install_stream_def connect_from_def inv_simps split: option.splits)
next
  case (Some s)
  then show ?thesis
    using assms [rule_format, of k] entry_inv_of [OF assms Some]
    by (cases rc) (auto simp: install_stream_def connect_from_def inv_simps split: option.splits)
qed

lemma entry_inv_finalize:
  assumes "\<forall>k. entry_inv k m"
  shows "entry_inv k (finalize_disconnected now (sid, s0) m)"
proof (cases "get_entry sid m")
  case None
  then show ?thesis using assms [rule_format, of k] by (auto simp: finalize_disconnected_def stop_vdi_container_def inv_simps split: option.splits)
next
  case (Some s)
  then show ?thesis
    using assms [rule_format, of k] entry_inv_of [OF assms Some]
    by (auto simp: finalize_disconnected_def stop_vdi_container_def inv_simps split: option.splits)
qed

lemma entry_inv_register:
  assumes "\<forall>k. entry_inv k m" "get_entry (s_id s) m = None" "status s = Pending"
  shows "entry_inv k (snd (register_session now s m))"
  using assms(2,3) assms(1) [rule_format, of k]
  by (auto simp: register_session_def publish_session_started_def inv_simps split: option.splits)

lemma entry_inv_delete:
  assumes "\<forall>k. entry_inv k m"
  shows "entry_inv k (snd (delete_session now sid m))"
proof (cases "get_entry sid m")
  case None
  then show ?thesis using assms [rule_format, of k] by (auto simp: delete_session_def inv_simps split: option.splits)
next
  case (Some s)
  then show ?thesis
    using assms [rule_format, of k] entry_inv_of [OF assms Some]
    by (auto simp: delete_session_def inv_simps split: option.splits prod.splits)
qed

lemma entry_inv_complete:
  assumes "\<forall>k. entry_inv k m"
  shows "entry_inv k (complete_session now sid m)"
proof (cases "get_entry sid m")
  case None
  then show ?thesis using assms [rule_format, of k] by (auto simp: complete_session_def inv_simps split: option.splits)
next
  case (Some s)
  then show ?thesis
    using assms [rule_format, of k] entry_inv_of [OF assms Some]
    by (auto simp: complete_session_def inv_simps split: option.splits)
qed

lemma entry_inv_disconnect:
  assumes "\<forall>k. entry_inv k m"
  shows "entry_inv k (disconnect_session now sid m)"
proof (cases "get_entry sid m")
  case None
  then show ?thesis using assms [rule_format, of k] by (auto simp: disconnect_session_def inv_simps split: option.splits)
next
  case (Some s)
  then show ?thesis
    using assms [rule_format, of k] entry_inv_of [OF assms Some]
    by (auto simp: disconnect_session_def inv_simps split: option.splits)
qed

lemma entry_inv_error:
  assumes "\<forall>k. entry_inv k m"
  shows "entry_inv k (error_session now sid m)"
proof (cases "get_entry sid m")
  case None
  then show ?thesis using assms [rule_format, of k] by (auto simp: error_session_def inv_simps split: option.splits)
next
  case (Some s)
  then show ?thesis
    using assms [rule_format, of k] entry_inv_of [OF assms Some]
    by (auto simp: error_session_def inv_simps split: option.splits)
qed

lemma entry_inv_logout:
  assumes "\<forall>k. entry_inv k m"
  shows "entry_inv k (logout_mark now sid m)"
proof (cases "get_entry sid m")
  case None
  then show ?thesis using assms [rule_format, of k] by (auto simp: logout_mark_def inv_simps split: option.splits)
next
  case (Some s)
  then show ?thesis
    using assms [rule_format, of k] entry_inv_of [OF assms Some]
    by (auto simp: logout_mark_def inv_simps split: option.splits)
qed

lemma entry_inv_expire:
  assumes "\<forall>k. entry_inv k m"
  shows "entry_inv k (expire_pending now sid m)"
proof (cases "get_entry sid m")
  case None
  then show ?thesis using assms [rule_format, of k] by (auto simp: expire_pending_def inv_simps split: option.splits)
next
  case (Some s)
  then show ?thesis
    using assms [rule_format, of k] entry_inv_of [OF assms Some]
    by (auto simp: expire_pending_def inv_simps split: option.splits)
qed

lemma entry_inv_failed:
  assumes "\<forall>k. entry_inv k m"
  shows "entry_inv k (mark_connect_failed now sid (connect_from rc) m)"
proof (cases "get_entry sid m")
  case None
  then show ?thesis using assms [rule_format, of k] by (auto simp: mark_connect_failed_def connect_from_def inv_simps split: option.splits)
next
  case (Some s)
  then show ?thesis
    using assms [rule_format, of k] entry_inv_of [OF assms Some]
    by (auto simp: mark_connect_failed_def connect_from_def inv_simps split: option.splits)
qed

lemma entry_inv_claim:
  assumes "\<forall>k. entry_inv k m"
  shows "entry_inv k (snd (claim_deferred from sid m))"
proof (cases "get_entry sid m")
  case None
  then show ?thesis using assms [rule_format, of k] by (auto simp: claim_deferred_def inv_simps split: option.splits)
next
  case (Some s)
  then show ?thesis
    using assms [rule_format, of k] entry_inv_of [OF assms Some]
    by (auto simp: claim_deferred_def inv_simps split: option.splits)
qed

lemma reserve_viewer_cases:
  "snd (reserve_viewer_slot sid cap m) = m \<or>
     (\<exists>s. get_entry sid m = Some s \<and> status s = Active \<and>
        snd (reserve_viewer_slot sid cap m) = put_session sid (s\<lparr>active_connections := active_connections s + 1\<rparr>) m)"
  by (simp add: reserve_viewer_slot_def Let_def split: option.split)

lemma entry_inv_reserve:
  assumes "\<forall>k. entry_inv k m"
  shows "entry_inv k (snd (reserve_viewer_slot sid cap m))"
  using reserve_viewer_cases [of sid cap m]
proof (elim disjE exE conjE)
  fix s
  assume s: "get_entry sid m = Some s"
    "snd (reserve_viewer_slot sid cap m) = put_session sid (s\<lparr>active_connections := active_connections s + 1\<rparr>) m"
  show ?thesis
    using assms [rule_format, of k] entry_inv_of [OF assms s(1)]
    by (simp add: s(2) entry_inv_def ended_simps split: option.splits)
qed (use assms in simp)

lemma entry_inv_viewer:
  assumes "\<forall>k. entry_inv k m"
  shows "entry_inv k (disconnect_viewer sid m)"
proof (cases "get_entry sid m")
  case None
  then show ?thesis using assms [rule_format, of k] by (auto simp: disconnect_viewer_def inv_simps split: option.splits)
next
  case (Some s)
  then show ?thesis
    using assms [rule_format, of k] entry_inv_of [OF assms Some]
    by (auto simp: disconnect_viewer_def inv_simps split: option.splits)
qed

lemma entry_inv_stop_vdi:
  assumes "\<forall>k. entry_inv k m"
  shows "entry_inv k (stop_vdi_container sid m)"
proof (cases "get_entry sid m")
  case None
  then show ?thesis using assms [rule_format, of k] by (auto simp: stop_vdi_container_def inv_simps split: option.splits)
next
  case (Some s)
  then show ?thesis
    using assms [rule_format, of k] entry_inv_of [OF assms Some]
    by (auto simp: stop_vdi_container_def inv_simps split: option.splits)
qed

lemma entry_inv_mint:
  assumes "\<forall>k. entry_inv k m"
  shows "entry_inv k (snd (mint_shadow_token cr now raw sid issuer m))"
proof (cases "get_entry sid m")
  case None
  then show ?thesis using assms [rule_format, of k] by (auto simp: mint_shadow_token_def inv_simps split: option.splits)
next
  case (Some s)
  then show ?thesis
    using assms [rule_format, of k] entry_inv_of [OF assms Some]
    by (auto simp: mint_shadow_token_def inv_simps split: option.splits)
qed

lemma entry_inv_activity:
  assumes "\<forall>k. entry_inv k m"
  shows "entry_inv k (update_activity now sid m)"
proof (cases "get_entry sid m")
  case None
  then show ?thesis using assms [rule_format, of k] by (auto simp: update_activity_def touch_activity_def inv_simps split: option.splits)
next
  case (Some s)
  then show ?thesis
    using assms [rule_format, of k] entry_inv_of [OF assms Some]
    by (auto simp: update_activity_def touch_activity_def inv_simps split: option.splits)
qed

lemma entry_inv_forget:
  assumes "\<forall>k. entry_inv k m"
  shows "entry_inv k (forget_session sid m)"
proof (cases "get_entry sid m")
  case None
  then show ?thesis using assms [rule_format, of k] by (auto simp: forget_session_def inv_simps split: option.splits)
next
  case (Some s)
  then show ?thesis
    using assms [rule_format, of k] entry_inv_of [OF assms Some]
    by (auto simp: forget_session_def inv_simps split: option.splits)
qed

lemmas entry_inv_steps =
  entry_inv_complete entry_inv_disconnect entry_inv_error entry_inv_logout entry_inv_expire
  entry_inv_failed entry_inv_claim entry_inv_reserve entry_inv_viewer entry_inv_stop_vdi
  entry_inv_mint entry_inv_activity entry_inv_forget

lemma entry_inv_frame:
  assumes "\<forall>k. entry_inv k m"
  shows "entry_inv k (record_session_history now s reason m)"
    and "entry_inv k (finish_take now sid m)" and "entry_inv k (finish_reconnect now sid m)"
    and "entry_inv k (mark_owner_disconnected sid m)"
    and "entry_inv k (mgr_end_session_history now sid st du rec m)"
    and "entry_inv k (snd (registry_sweep_stale now m))" and "entry_inv k (snd (initiate_shutdown m))"
  using assms [rule_format, of k] by (auto simp: inv_simps split: option.splits)

lemma exec_manager_inv:
  assumes "manager_inv m" "op_ok op m"
  shows "manager_inv (exec op m)"
proof -
  from assms(1) have inv: "\<forall>k. entry_inv k m" and keys: "keys_ok m" by (simp_all add: manager_inv_def)
  have "entry_inv k (exec op m)" for k
    using inv assms(2)
    by (cases op) (simp_all add: entry_inv_register entry_inv_install entry_inv_finalize entry_inv_delete
        entry_inv_steps entry_inv_frame entry_inv_cancel_all)
  with drift_exec [OF keys assms(2)] show ?thesis by (simp add: manager_inv_def)
qed

text \<open>The states that a manager can get into.\<close>

inductive reachable :: "SessionManager \<Rightarrow> bool" where
  start: "reachable (manager_new cfg database vdi)"
| step: "reachable m \<Longrightarrow> op_ok op m \<Longrightarrow> reachable (exec op m)"

lemma reachable_inv: "reachable m \<Longrightarrow> manager_inv m"
proof (induction rule: reachable.induct)
  case (start cfg database vdi)
  then show ?case by (simp add: manager_inv_def entry_inv_def)
next
  case (step m op)
  then show ?case by (simp add: exec_manager_inv)
qed

lemma reachable_run: "reachable m \<Longrightarrow> run_ok ops m \<Longrightarrow> reachable (run ops m)"
  by (induction ops arbitrary: m) (auto intro: reachable.step)

end
