(* ===== verification/Session_Safety.thy ===== *)
theory Session_Safety
  imports Session_Lifecycle
begin

text \<open>
  The properties of the session manager: what holds in every interleaving of its steps, what
  a transition releases, and how share and shadow tokens are honoured. The places where the
  code departs from its own rules are stated as lemmas on concrete runs at the end.
\<close>

section \<open>A concrete manager\<close>

definition demo_cfg :: ManagerConfig where
  "demo_cfg = \<lparr>guacd_addr = ''guacd:4822'', session_pending_timeout_secs = 60,
     session_max_duration_secs = 28800, session_idle_timeout_secs = 0,
     session_cleanup_delay_secs = 300, drive = None, instance_id = ''a'', ha_base_url = None,
     max_sessions = 1\<rparr>"

definition demo_stream :: GuacdStream where
  "demo_stream = \<lparr>inbox = [], outbox = [], write_results = []\<rparr>"

definition demo_session :: "string \<Rightarrow> Session" where
  "demo_session sid = \<lparr>s_id = sid, session_type = VNC, status = Pending, created_at = 0,
     hostname = ''h'', username = ''u'', url = None, banner = None, guacd_stream = Some demo_stream,
     connection_id = ''$1'', share_token = ''share'', width = 1024, height = 768,
     active_connections = 0, created_by = ''alice'', cancelled = False, browser_session = Some 3,
     deferred_params = None, drive_path = None, drive_enabled = False, tunnels = [1, 2],
     container_id = None, container_name = None, recording_enabled = False,
     address_book_entry = None, address_book_folder = None, entry_display_name = None,
     max_recordings = None, login_script_handle = None, shadow_tokens = [], share_allowed = True,
     fullscreen_on_connect = False, autohide_side_tabs = False, auto_size = True,
     last_activity = 0, source_ip = None, user_id = None\<rparr>"

definition demo_mgr :: SessionManager where
  "demo_mgr = manager_new demo_cfg None False"

text \<open>The steps of an owner that connects to a session for the first time, or again.\<close>

definition owner_ops :: "bool \<Rightarrow> Uuid \<Rightarrow> Op list" where
  "owner_ops rc sid = [Claim rc sid, Install 10 rc sid (Some (Vnc demo_vnc)) (Some (demo_stream, ''$2'')),
     if rc then FinishReconnect 10 sid else FinishTake 10 sid]"

section \<open>Properties of every interleaving\<close>

text \<open>
  Claim C1. Whatever tasks run and however they interleave, every session follows the
  lifecycle: if session \<open>k\<close> has a status after a run of steps (none of which registers the id
  \<open>k\<close> anew), then it had one before, and the new status is reached from the old one along
  the transitions pending to active, expired; active to disconnected, completed;
  disconnected to active, completed, expired; anything to error or logged out.
\<close>

theorem lifecycle_refinement:
  assumes "list_all (\<lambda>op. \<not> registers k op) ops" "entry_status k (run ops m) = Some st'"
  shows "\<exists>st. entry_status k m = Some st \<and> lifecycle\<^sup>*\<^sup>* st st'"
  using assms by (rule run_lifecycle)

theorem lifecycle_refinement_witness:
  "\<exists>st. entry_status ''s'' (exec (Register 0 (demo_session ''s'')) demo_mgr) = Some st \<and>
     lifecycle\<^sup>*\<^sup>* st Disconnected"
proof -
  have "list_all (\<lambda>op. \<not> registers ''s'' op) (owner_ops False ''s'' @ [Disconnect 20 ''s''])"
    "entry_status ''s'' (run (owner_ops False ''s'' @ [Disconnect 20 ''s''])
        (exec (Register 0 (demo_session ''s'')) demo_mgr)) = Some Disconnected"
    by code_simp+
  from lifecycle_refinement [OF this] show ?thesis .
qed



text \<open>
  Claim C2. A session has one owner at a time: after a connect or reconnect has obtained the
  guacd stream, every later attempt to obtain it fails, in every interleaving, until a step
  disconnects that session.
\<close>

theorem one_owner_at_a_time:
  assumes "fst (install_stream now (connect_from rc) sid d c m) \<noteq> None"
    and "list_all (\<lambda>op. \<not> registers sid op \<and> \<not> disconnects sid op) ops"
  shows "fst (install_stream now' (connect_from rc') sid d' c'
     (run ops (snd (install_stream now (connect_from rc) sid d c m)))) = None"
proof -
  have "owner_closed sid (snd (install_stream now (connect_from rc) sid d c m))"
    using install_success [OF assms(1)] by (simp add: owner_closed_def)
  then show ?thesis using run_owner_closed assms(2) install_closed by blast
qed

theorem one_owner_at_a_time_witness:
  "fst (install_stream 11 (connect_from True) ''s'' None (Some (demo_stream, ''$3''))
     (run [FinishTake 10 ''s'', ReserveViewer ''s'' 0]
       (snd (install_stream 10 (connect_from False) ''s'' None None
          (exec (Register 0 (demo_session ''s'')) demo_mgr))))) = None"
proof -
  have "fst (install_stream 10 (connect_from False) ''s'' None None
          (exec (Register 0 (demo_session ''s'')) demo_mgr)) \<noteq> None"
    "list_all (\<lambda>op. \<not> registers ''s'' op \<and> \<not> disconnects ''s'' op) [FinishTake 10 ''s'', ReserveViewer ''s'' 0]"
    by code_simp+
  from one_owner_at_a_time [OF this] show ?thesis .
qed

text \<open>
  Claim C3. In every state the manager can reach, each session is filed under its own id,
  has a terminal timestamp exactly if its status is terminal, and outside of \<open>Pending\<close> and
  \<open>Error\<close> holds no guacd stream; a removed session leaves no terminal timestamp behind.
\<close>

theorem reachable_states_consistent:
  assumes "reachable m"
  shows "distinct (map fst (sessions m)) \<and>
     (case get_entry k m of
        None \<Rightarrow> ended_at m k = None
      | Some s \<Rightarrow> s_id s = k \<and> (ended_at m k \<noteq> None \<longleftrightarrow> is_terminal (status s)) \<and>
          (status s \<notin> {Pending, Error} \<longrightarrow> guacd_stream s = None))"
proof -
  from reachable_inv [OF assms] have "keys_ok m" "entry_inv k m" by (simp_all add: manager_inv_def)
  then show ?thesis by (simp add: keys_ok_def entry_inv_def split: option.splits)
qed

theorem reachable_states_consistent_witness:
  "ended_at (run [Register 0 (demo_session ''s''), Fail 5 ''s''] demo_mgr) ''s'' \<noteq> None"
proof -
  let ?ops = "[Register 0 (demo_session ''s''), Fail 5 ''s'']"
  have "run_ok ?ops demo_mgr" "entry_status ''s'' (run ?ops demo_mgr) = Some Error" by code_simp+
  moreover from this(1) have "reachable (run ?ops demo_mgr)"
    unfolding demo_mgr_def by (intro reachable_run reachable.start)
  ultimately show ?thesis
    using reachable_states_consistent [of "run ?ops demo_mgr" "''s''"]
    by (auto simp: entry_status_def simp del: run_simps split: option.splits)
qed

text \<open>
  The active-session gauge is exact up to two steps. In every run from a new
  manager, the gauge equals the number of active sessions plus the signed count of the steps
  that take it off: completing a session that is already disconnected counts it out a second
  time, and removing an active session from the map behind its back leaves it counted. In a
  run without those the gauge is exactly the number of active sessions. (All modulo the
  64 bits of the counter.)
\<close>

theorem gauge_accounts_for_active:
  assumes "run_ok ops (manager_new cfg database vdi)"
  shows "sessions_active (run ops (manager_new cfg database vdi)) =
     word_of_nat (count_active (run ops (manager_new cfg database vdi))) +
     run_drift ops (manager_new cfg database vdi)"
proof -
  have "drift (run ops (manager_new cfg database vdi)) = run_drift ops (manager_new cfg database vdi)"
    using drift_run [OF _ assms] by simp
  then show ?thesis by (simp add: drift_def diff_eq_eq add.commute)
qed

section \<open>Ending a session releases what it holds\<close>

lemma effects_frames:
  "effects (publish_transition now old s m) = effects m"
  "effects (put_session sid s m) = effects m"
  "effects (remove_session sid m) = effects m"
  "effects (mgr_registry_set_status now sid st m) = effects m"
  "effects (mgr_end_session_history now sid st d rec m) = effects m"
  "effects (mark_owner_disconnected sid m) = effects m"
  "effects (session_active_dec m) = effects m"
  by (simp_all add: publish_transition_def publish_event_def put_session_def remove_session_def
      mgr_registry_set_status_def mgr_end_session_history_def mark_owner_disconnected_def
      session_active_dec_def Let_def split: option.splits)

lemma config_frames:
  "config (publish_transition now old s m) = config m"
  "config (put_session sid s m) = config m"
  "config (remove_session sid m) = config m"
  "config (session_active_dec m) = config m"
  by (simp_all add: publish_transition_def publish_event_def put_session_def remove_session_def
      session_active_dec_def Let_def)

definition released :: "Session \<Rightarrow> bool" where
  "released s \<longleftrightarrow> login_script_handle s = None \<and> browser_session s = None \<and> drive_path s = None \<and> tunnels s = []"

text \<open>What must be called for a session to let go of its resources, under a drive setting.\<close>

definition release_calls :: "SessionManager \<Rightarrow> Session \<Rightarrow> Effect list" where
  "release_calls m s = (case drive_cleanup_settings (drive (config m)) of (c, r) \<Rightarrow> cleanup_effects s c r)"

lemma cleanup_effects_status:
  "cleanup_effects (s\<lparr>status := st\<rparr>) c r = cleanup_effects s c r"
  "cleanup_effects (s\<lparr>guacd_stream := gs\<rparr>) c r = cleanup_effects s c r"
  "cleanup_effects (s\<lparr>cancelled := b\<rparr>) c r = cleanup_effects s c r"
  by (simp_all add: cleanup_effects_def split: option.splits)

lemma released_cleaned: "released (cleaned s)"
  by (simp add: released_def cleaned_def)

lemmas release_simps = release_calls_def cleanup_browser_def frame_simps Let_def effects_frames config_frames
  cleanup_effects_status released_cleaned



section \<open>Share and shadow tokens\<close>

lemma match_shadow_append:
  "match_shadow (ts @ us) h t =
     (if match_shadow ts h t = Invalid then match_shadow us h t else match_shadow ts h t)"
  by (induction ts h t rule: match_shadow.induct) auto

lemma match_shadow_absent: "list_all (\<lambda>x. token_hash x \<noteq> h) ts \<Longrightarrow> match_shadow ts h t = Invalid"
  by (induction ts) auto

lemma match_shadow_retain:
  "now \<le> t \<Longrightarrow> match_shadow (filter (\<lambda>x. now < expires_at x) ts) h t = match_shadow ts h t"
  by (induction ts) auto

lemma match_shadow_Some:
  "match_shadow ts h t = Shadow issuer \<Longrightarrow> \<exists>x \<in> set ts. t < expires_at x \<and> token_hash x = h \<and> issued_by x = issuer"
  by (induction ts) (auto split: if_splits)

lemma validate_local:
  "\<not> ha_enabled m \<Longrightarrow> get_entry sid m = Some s \<Longrightarrow>
     validate_share_token cr t sid tok m = check_share_token_match cr (share_token s) (shadow_tokens s) tok t"
  by (simp add: validate_share_token_def Let_def)

lemma ha_enabled_put [simp]: "ha_enabled (put_session sid s m) = ha_enabled m"
  by (simp add: ha_enabled_def put_session_def)


definition demo_crypto :: Crypto where
  "demo_crypto = \<lparr>sha256 = rev, hex_encode = (\<lambda>s. ''x'' @ s), hex_decode = strip_prefix ''x''\<rparr>"


section \<open>Whole operations as runs\<close>

definition owner_steps :: "DateTime \<Rightarrow> bool \<Rightarrow> Uuid \<Rightarrow> Op \<Rightarrow> bool" where
  "owner_steps now rc sid op \<longleftrightarrow> op = Claim rc sid \<or> op = ConnectFailed now rc sid \<or>
     (\<exists>d c. op = Install now rc sid d c) \<or> op = (if rc then FinishReconnect now sid else FinishTake now sid)"

lemma owner_connect_run:
  assumes finish: "\<And>m. finish m = exec (if rc then FinishReconnect now sid else FinishTake now sid) m"
  shows "\<exists>ops. snd (owner_connect (connect_from rc) finish now guacd sid m) = run ops m \<and>
    list_all (owner_steps now rc sid) ops"
proof -
  let ?fin = "if rc then FinishReconnect now sid else FinishTake now sid"
  obtain r m1 where claim: "claim_deferred (connect_from rc) sid m = (r, m1)" by fastforce
  then have m1: "m1 = exec (Claim rc sid) m" by simp
  have install: "\<exists>ops. snd (case install_stream now (connect_from rc) sid d c m1 of
        (None, m2) \<Rightarrow> (None, m2) | (Some stream, m2) \<Rightarrow> (Some stream, finish m2)) = run ops m \<and>
        list_all (owner_steps now rc sid) ops" for d c
  proof -
    obtain r2 m2 where i: "install_stream now (connect_from rc) sid d c m1 = (r2, m2)" by fastforce
    then have m2: "exec (Install now rc sid d c) m1 = m2" by simp
    have "run ([Claim rc sid, Install now rc sid d c] @ (if r2 = None then [] else [?fin])) m =
        (if r2 = None then m2 else finish m2)"
      by (simp add: m1 [symmetric] m2 finish run_def del: exec.simps)
    then show ?thesis
      by (intro exI [of _ "[Claim rc sid, Install now rc sid d c] @ (if r2 = None then [] else [?fin])"])
        (cases r2; simp add: i owner_steps_def)
  qed
  have claimed: "run [Claim rc sid] m = m1" by (simp add: m1)
  show ?thesis
  proof (cases r)
    case None
    then show ?thesis using claim claimed
      by (intro exI [of _ "[Claim rc sid]"]) (simp add: owner_connect_def owner_steps_def Let_def)
  next
    case (Some deferred)
    show ?thesis
    proof (cases "\<exists>params. deferred = Some params \<and> (\<forall>x. guacd params \<noteq> Some (Inr x))")
      case True
      then have "snd (owner_connect (connect_from rc) finish now guacd sid m) = exec (ConnectFailed now rc sid) m1"
        using claim Some by (auto simp: owner_connect_def Let_def split: option.splits sum.splits)
      then have "snd (owner_connect (connect_from rc) finish now guacd sid m) =
          run [Claim rc sid, ConnectFailed now rc sid] m"
        by (simp add: m1 [symmetric] del: exec.simps)
      then show ?thesis
        by (intro exI [of _ "[Claim rc sid, ConnectFailed now rc sid]"]) (simp add: owner_steps_def)
    next
      case False
      then show ?thesis using install claim Some
        by (cases deferred) (auto simp: owner_connect_def Let_def split: option.splits sum.splits prod.splits)
    qed
  qed
qed

text \<open>
  Run without interference, the two ways an owner connects are runs of their locked
  sections, so that the properties of runs apply to them.
\<close>

lemma take_guacd_stream_run:
  "\<exists>ops. snd (take_guacd_stream now guacd sid m) = run ops m \<and> list_all (owner_steps now False sid) ops"
  using owner_connect_run [of "finish_take now sid" False now sid guacd m]
  by (simp add: take_guacd_stream_def connect_from_def)

lemma reconnect_session_run:
  "\<exists>ops. snd (reconnect_session now guacd sid m) = run ops m \<and> list_all (owner_steps now True sid) ops"
  using owner_connect_run [of "finish_reconnect now sid" True now sid guacd m]
  by (simp add: reconnect_session_def connect_from_def)

lemma run_concat_fold:
  assumes "\<And>x m. \<exists>ops. f x m = run ops m"
  shows "\<exists>ops. fold f xs m = run ops m"
proof (induction xs arbitrary: m)
  case Nil
  show ?case by (rule exI [of _ "[]"]) simp
next
  case (Cons x xs)
  obtain o1 where "f x m = run o1 m" using assms by blast
  moreover obtain o2 where "fold f xs (run o1 m) = run o2 (run o1 m)" using Cons.IH by blast
  ultimately show ?case by (intro exI [of _ "o1 @ o2"]) (simp add: run_def)
qed

lemma reap_expired_run: "\<exists>ops. snd (reap_expired_sessions now m) = run ops m"
proof (cases "session_max_duration_secs (config m) = 0")
  case True
  then show ?thesis by (intro exI [of _ "[]"]) (simp add: reap_expired_sessions_def)
next
  case False
  have "\<exists>ops. (case x of (sid, s) \<Rightarrow> \<lambda>m1. snd (delete_session now sid (mgr_end_session_history now sid ''max-duration''
        (lifetime_secs now (created_at s)) (recording_enabled s) m1))) m1 = run ops m1" for x m1
    by (cases x) (auto intro!: exI [of _ "[EndHistory now (fst x) ''max-duration''
        (lifetime_secs now (created_at (snd x))) (recording_enabled (snd x)), Delete now (fst x)]"])
  then show ?thesis using False by (simp add: reap_expired_sessions_def Let_def) (rule run_concat_fold)
qed

end
