(* ===== verification/Session_Caps.thy ===== *)
theory Session_Caps
  imports Session_Safety
begin

text \<open>
  Limits on sessions: the global cap that the tail of \<open>create_session\<close> enforces, and the
  reapers that enforce the age, idle and cleanup limits. The cap is proved over every
  interleaving of the steps of \<open>Session_Lifecycle\<close>; the reapers are proved exact, each
  removing the sessions over its limit and leaving the others as they were.
\<close>

section \<open>The live sessions\<close>

definition live_keys :: "SessionManager \<Rightarrow> Uuid set" where
  "live_keys m = {k. \<exists>s. get_entry k m = Some s \<and> is_live_status (status s)}"

lemma map_of_filter_keys:
  "distinct (map fst xs) \<Longrightarrow> k \<in> fst ` set (filter P xs) \<longleftrightarrow> (\<exists>v. map_of xs k = Some v \<and> P (k, v))"
  by (auto simp: map_of_eq_Some_iff image_iff)

lemma live_keys_entry: "k \<in> live_keys m \<longleftrightarrow> (\<exists>st. entry_status k m = Some st \<and> is_live_status st)"
  by (auto simp: live_keys_def entry_status_def)

lemma live_keys_set: "keys_ok m \<Longrightarrow> live_keys m = fst ` set (filter (\<lambda>(_, s). is_live_status (status s)) (sessions m))"
  by (auto simp: live_keys_def get_entry_def keys_ok_def map_of_eq_Some_iff image_iff)

lemma finite_live_keys [simp]: "keys_ok m \<Longrightarrow> finite (live_keys m)"
  by (simp add: live_keys_set)

lemma count_live_card:
  assumes "keys_ok m"
  shows "count_live_sessions m = card (live_keys m)"
proof -
  let ?xs = "filter (\<lambda>(_, s). is_live_status (status s)) (sessions m)"
  have "distinct (map fst ?xs)" using assms by (simp add: keys_ok_def distinct_map_filter)
  then have "length (map fst ?xs) = card (set (map fst ?xs))" by (rule distinct_card [symmetric])
  then show ?thesis using assms by (simp add: live_keys_set count_live_sessions_def)
qed

lemma exec_Active:
  assumes "entry_status k (exec op m) = Some Active" "entry_status k m \<noteq> Some Active" "\<not> registers k op"
  shows "\<exists>now rc d c. op = Install now rc k d c \<and> entry_status k m = Some (connect_from rc)"
proof (cases op)
  case (Register now s)
  with assms show ?thesis
    by (auto simp: register_session_def publish_session_started_def Let_def entry_simps split: option.splits if_splits)
next
  case (Install now rc sid d c)
  with assms show ?thesis
    by (auto simp: install_stream_def Let_def entry_simps split: option.splits if_splits)
next
  case (Complete now sid)
  with assms show ?thesis by (auto simp: complete_session_def Let_def entry_simps split: option.splits if_splits)
next
  case (Disconnect now sid)
  with assms show ?thesis by (auto simp: disconnect_session_def Let_def entry_simps split: option.splits if_splits)
next
  case (Fail now sid)
  with assms show ?thesis by (auto simp: error_session_def Let_def entry_simps split: option.splits if_splits)
next
  case (LogoutMark now sid)
  with assms show ?thesis by (auto simp: logout_mark_def Let_def entry_simps split: option.splits if_splits)
next
  case (ExpirePending now sid)
  with assms show ?thesis by (auto simp: expire_pending_def Let_def entry_simps split: option.splits if_splits)
next
  case (ConnectFailed now rc sid)
  with assms show ?thesis by (auto simp: mark_connect_failed_def entry_simps split: option.splits if_splits)
next
  case (ReserveViewer sid cap)
  with assms show ?thesis by (auto simp: reserve_viewer_slot_def Let_def entry_simps split: option.splits if_splits)
next
  case (DisconnectViewer sid)
  with assms show ?thesis by (auto simp: disconnect_viewer_def entry_simps split: option.splits if_splits)
next
  case (StopVdi sid)
  with assms show ?thesis by (auto simp: stop_vdi_container_def Let_def entry_simps split: option.splits if_splits)
next
  case (MintShadow cr now raw sid issuer)
  with assms show ?thesis by (auto simp: mint_shadow_token_def Let_def entry_simps split: option.splits if_splits)
next
  case (UpdateActivity now sid)
  with assms show ?thesis by (auto simp: update_activity_def touch_activity_def entry_simps split: option.splits if_splits)
next
  case (Finalize now sid s)
  with assms show ?thesis
    by (auto simp: finalize_disconnected_def stop_vdi_container_def Let_def entry_simps split: option.splits if_splits)
qed (use assms in \<open>auto simp: claim_deferred_status delete_status forget_status cancel_all_status
       entry_status_frames split: if_splits\<close>)

section \<open>The global cap\<close>

text \<open>A reconnect takes a session that does not count back among those that count.\<close>

fun reconnects :: "Op \<Rightarrow> Uuid option" where
  "reconnects (Install now rc sid d c) = (if rc then Some sid else None)"
| "reconnects _ = None"

lemma exec_live_keys:
  assumes "reconnects op \<noteq> Some k" "k \<in> live_keys (exec op m)" "\<not> registers k op"
  shows "k \<in> live_keys m"
proof -
  from assms(2) obtain st where st: "entry_status k (exec op m) = Some st" "is_live_status st"
    by (auto simp: live_keys_entry)
  show ?thesis
  proof (cases "st = Active")
    case True
    show ?thesis
    proof (cases "entry_status k m = Some Active")
      case False
      then obtain now rc d c where "op = Install now rc k d c" "entry_status k m = Some (connect_from rc)"
        using exec_Active st(1) True assms(3) by blast
      then show ?thesis using assms(1)
        by (auto simp: live_keys_entry connect_from_def is_live_status_def split: if_splits)
    qed (simp add: live_keys_entry is_live_status_def)
  next
    case False
    then have "st = Pending" using st(2) by (simp add: is_live_status_def)
    moreover have "step_ok op k (entry_status k m) (entry_status k (exec op m))" by (rule exec_step_ok)
    ultimately have "entry_status k m = Some Pending" using st(1) assms(3) by (auto simp: step_ok_def)
    then show ?thesis by (simp add: live_keys_entry is_live_status_def)
  qed
qed

lemma config_more [simp]:
  "config (cleanup_browser sid m) = config m"
  "config (mgr_end_session_history now sid st d r m) = config m"
  "config (mgr_registry_set_status now sid st m) = config m"
  "config (mark_owner_disconnected sid m) = config m"
  "config (mark_owner_connected sid m) = config m"
  "config (stop_vdi_container sid m) = config m"
  "config (session_active_inc m) = config m"
  "config (session_total_inc m) = config m"
  "config (publish_session_started now s m) = config m"
  by (auto simp: cleanup_browser_def mgr_end_session_history_def mgr_registry_set_status_def
      mark_owner_disconnected_def mark_owner_connected_def stop_vdi_container_def
      session_active_inc_def session_total_inc_def publish_session_started_def publish_event_def
      config_frames Let_def split: option.splits prod.splits)

lemma config_exec: "config (exec op m) = config m"
  by (cases op) (auto simp: register_session_def record_session_history_def expire_pending_def
      claim_deferred_def mark_connect_failed_def install_stream_def finish_take_def finish_reconnect_def
      reserve_viewer_slot_def disconnect_viewer_def complete_session_def disconnect_session_def
      error_session_def logout_mark_def delete_session_def mint_shadow_token_def update_activity_def
      finalize_disconnected_def forget_session_def registry_sweep_stale_def initiate_shutdown_def
      cancel_all_sessions_def config_frames Let_def split: option.splits prod.splits)

lemma live_keys_register:
  "live_keys (snd (register_session now s m)) \<subseteq>
     (if 0 < max_sessions (config m) \<and> max_sessions (config m) \<le> count_live_sessions m
      then live_keys m else insert (s_id s) (live_keys m))"
proof -
  have "sessions (publish_session_started now s m) = sessions m"
    by (simp add: publish_session_started_def frame_simps)
  then have "count_live_sessions (publish_session_started now s m) = count_live_sessions m"
    "\<And>k. get_entry k (publish_session_started now s m) = get_entry k m"
    by (simp_all add: count_live_sessions_def get_entry_def)
  then show ?thesis
    by (auto simp: register_session_def live_keys_def frame_simps Let_def split: option.splits if_splits)
qed

lemma card_mono_insert: "finite B \<Longrightarrow> A \<subseteq> insert x B \<Longrightarrow> card A \<le> Suc (card B)"
  by (metis card_insert_if card_mono finite_insert le_SucI)

lemma count_live_exec:
  assumes "keys_ok m" "op_ok op m" "0 < max_sessions (config m)"
  shows "count_live_sessions (exec op m) \<le>
    (case reconnects op of None \<Rightarrow> max (count_live_sessions m) (max_sessions (config m))
     | Some _ \<Rightarrow> Suc (count_live_sessions m))"
proof -
  have ok: "keys_ok (exec op m)" using drift_exec assms(1,2) by blast
  consider (register) now s where "op = Register now s" | (reconnect) k where "reconnects op = Some k"
    | (other) "\<forall>k. \<not> registers k op" "reconnects op = None"
    by (cases op) (auto split: if_splits)
  then show ?thesis
  proof cases
    case register
    then have "live_keys (exec op m) \<subseteq>
        (if max_sessions (config m) \<le> count_live_sessions m then live_keys m else insert (s_id s) (live_keys m))"
      using live_keys_register [of now s m] assms(3) by simp
    then have "card (live_keys (exec op m)) \<le>
        (if max_sessions (config m) \<le> count_live_sessions m then card (live_keys m) else Suc (card (live_keys m)))"
      using assms(1) by (auto simp: card_mono intro!: card_mono_insert split: if_splits)
    then show ?thesis using register assms(1) ok by (auto simp: count_live_card split: if_splits)
  next
    case (reconnect k)
    then have "live_keys (exec op m) \<subseteq> insert k (live_keys m)"
      using exec_live_keys [of op _ m] by (cases op) (fastforce split: if_splits)+
    then have "card (live_keys (exec op m)) \<le> Suc (card (live_keys m))"
      using assms(1) by (intro card_mono_insert) simp_all
    then show ?thesis using reconnect assms(1) ok by (simp add: count_live_card)
  next
    case other
    then have "live_keys (exec op m) \<subseteq> live_keys m" using exec_live_keys [of op _ m] by auto
    then have "card (live_keys (exec op m)) \<le> card (live_keys m)" using assms(1) by (simp add: card_mono)
    then show ?thesis using other assms(1) ok by (simp add: count_live_card)
  qed
qed

lemma count_live_run:
  assumes "keys_ok m" "run_ok ops m" "0 < max_sessions (config m)"
  shows "count_live_sessions (run ops m) \<le> max (count_live_sessions m) (max_sessions (config m)) +
     length (filter (\<lambda>op. reconnects op \<noteq> None) ops)"
  using assms
proof (induction ops arbitrary: m)
  case (Cons op ops)
  then have "keys_ok (exec op m)" using drift_exec by auto
  with Cons have "count_live_sessions (run ops (exec op m)) \<le>
      max (count_live_sessions (exec op m)) (max_sessions (config m)) +
      length (filter (\<lambda>op. reconnects op \<noteq> None) ops)"
    by (metis config_exec run_ok.simps(2))
  then show ?case using count_live_exec [of m op] Cons.prems by (auto split: option.splits)
qed simp

text \<open>
  Claim C20. The global cap holds under concurrency: over every interleaving, starting from a
  fresh manager, the number of pending and active sessions never exceeds the configured
  maximum by more than the number of reconnects that were carried out, and not at all when
  no disconnected session is reconnected.
\<close>

theorem session_cap_respected:
  assumes "run_ok ops (manager_new cfg database vdi)" "0 < max_sessions cfg"
  shows "count_live_sessions (run ops (manager_new cfg database vdi)) \<le>
     max_sessions cfg + length (filter (\<lambda>op. reconnects op \<noteq> None) ops)"
proof -
  have "config (manager_new cfg database vdi) = cfg" "count_live_sessions (manager_new cfg database vdi) = 0"
    by (simp_all add: manager_new_def count_live_sessions_def)
  then show ?thesis using count_live_run [of "manager_new cfg database vdi" ops] assms by simp
qed

definition busy_ops :: "Op list" where
  "busy_ops = Register 0 (demo_session ''s'') # owner_ops False ''s'' @
     [Register 1 (demo_session ''t''), Disconnect 2 ''s'', Register 3 (demo_session ''t'')]"

theorem session_cap_respected_witness:
  "count_live_sessions (run busy_ops demo_mgr) \<le> 1 \<and> entry_status ''t'' (run busy_ops demo_mgr) = Some Pending"
proof -
  have "(run_ok busy_ops demo_mgr) \<and>
       (filter (\<lambda>op. reconnects op \<noteq> None) busy_ops = []) \<and>
       (entry_status ''t'' (run busy_ops demo_mgr) = Some Pending) \<and>
       (max_sessions demo_cfg = 1)"
    by code_simp
  then show ?thesis using session_cap_respected [of busy_ops demo_cfg None False] by (simp add: demo_mgr_def)
qed

text \<open>A reconnect is not checked against the cap: here two sessions are live under a cap of one.\<close>

lemma reconnect_exceeds_cap:
  "count_live_sessions (run (busy_ops @ owner_ops True ''s'') demo_mgr) = 2 \<and> max_sessions demo_cfg = 1"
  by code_simp

section \<open>The reapers\<close>

lemma get_entry_delete: "get_entry k (snd (delete_session now sid m)) = (if k = sid then None else get_entry k m)"
  by (auto simp: delete_session_def frame_simps Let_def split: option.splits prod.splits)

lemma get_entry_forget: "get_entry k (forget_session sid m) = (if k = sid then None else get_entry k m)"
proof -
  have "get_entry k (forget_session sid m) = get_entry k (remove_session sid m)"
    unfolding forget_session_def by (simp add: frame_simps)
  then show ?thesis by simp
qed

text \<open>Steps that each remove one key of a list and keep the other entries, in sequence.\<close>

lemma get_entry_fold_remove:
  assumes "\<And>k x m. get_entry k (f x m) = (if k = key x then None else get_entry k m)"
  shows "get_entry k (fold f xs m) = (if k \<in> key ` set xs then None else get_entry k m)"
  by (induction xs arbitrary: m) (auto simp: assms)

text \<open>What a reaper leaves of the map: the entries it does not select, untouched.\<close>

definition keep_unless :: "(Session \<Rightarrow> bool) \<Rightarrow> Session option \<Rightarrow> Session option" where
  "keep_unless sel e = (case e of None \<Rightarrow> None | Some s \<Rightarrow> if sel s then None else Some s)"

lemma keep_unless_selected:
  assumes "keys_ok m"
  shows "(if k \<in> fst ` set (filter (\<lambda>(_, s). sel s) (sessions m)) then None else get_entry k m) =
    keep_unless sel (get_entry k m)"
proof -
  have "k \<in> fst ` set (filter (\<lambda>(_, s). sel s) (sessions m)) \<longleftrightarrow> (\<exists>s. get_entry k m = Some s \<and> sel s)"
    using map_of_filter_keys [of "sessions m" k "\<lambda>(_, s). sel s"] assms by (simp add: get_entry_def keys_ok_def)
  then show ?thesis by (simp add: keep_unless_def split: option.split del: set_filter)
qed

lemma get_entry_reap_one:
  "get_entry k (snd (delete_session now sid (mgr_end_session_history now sid st d r m))) =
     (if k = sid then None else get_entry k m)"
  by (simp add: get_entry_delete frame_simps)

definition expired_by_age :: "DateTime \<Rightarrow> SessionManager \<Rightarrow> Session \<Rightarrow> bool" where
  "expired_by_age now m s \<longleftrightarrow> session_max_duration_secs (config m) \<noteq> 0 \<and> is_live_status (status s) \<and>
     over_age now (created_at s) (session_max_duration_secs (config m))"

definition idle_too_long :: "DateTime \<Rightarrow> SessionManager \<Rightarrow> Session \<Rightarrow> bool" where
  "idle_too_long now m s \<longleftrightarrow> session_idle_timeout_secs (config m) \<noteq> 0 \<and> is_live_status (status s) \<and>
     0 < last_activity s \<and> sint (session_idle_timeout_secs (config m)) < timestamp now - last_activity s"

definition past_cleanup :: "DateTime \<Rightarrow> SessionManager \<Rightarrow> Uuid \<Rightarrow> Session \<Rightarrow> bool" where
  "past_cleanup now m k s \<longleftrightarrow>
     (status s \<in> {Completed, Error, Expired} \<and> over_age now (created_at s) (session_cleanup_delay_secs (config m))) \<or>
     (status s = Disconnected \<and>
        over_age now (case disconnected_at m k of Some t \<Rightarrow> t | None \<Rightarrow> created_at s)
          (session_cleanup_delay_secs (config m)))"

lemma reap_expired_entry:
  assumes "keys_ok m"
  shows "get_entry k (snd (reap_expired_sessions now m)) = keep_unless (expired_by_age now m) (get_entry k m)"
proof (cases "session_max_duration_secs (config m) = 0")
  case False
  let ?sel = "filter (\<lambda>(_, s). expired_by_age now m s) (sessions m)"
  have "get_entry k (snd (reap_expired_sessions now m)) = (if k \<in> fst ` set ?sel then None else get_entry k m)"
    using False by (simp add: reap_expired_sessions_def Let_def expired_by_age_def
        get_entry_fold_remove [where key = fst] get_entry_reap_one split: prod.splits)
  then show ?thesis using keep_unless_selected [OF assms] by simp
qed (simp add: reap_expired_sessions_def keep_unless_def expired_by_age_def split: option.splits)

lemma reap_idle_entry:
  assumes "keys_ok m"
  shows "get_entry k (snd (reap_idle_sessions now m)) = keep_unless (idle_too_long now m) (get_entry k m)"
proof (cases "session_idle_timeout_secs (config m) = 0")
  case False
  let ?sel = "filter (\<lambda>(_, s). idle_too_long now m s) (sessions m)"
  have one: "get_entry k' (case get_entry sid m1 of None \<Rightarrow> m1
      | Some s \<Rightarrow> snd (delete_session now sid (mgr_end_session_history now sid ''idle-timeout''
             (lifetime_secs now (created_at s)) (recording_enabled s) m1))) =
      (if k' = id sid then None else get_entry k' m1)" for k' sid m1
    by (auto simp: get_entry_reap_one split: option.splits)
  have "get_entry k (snd (reap_idle_sessions now m)) =
      (if k \<in> id ` set (get_idle_sessions now (sint (session_idle_timeout_secs (config m))) m)
       then None else get_entry k m)"
    using False unfolding reap_idle_sessions_def Let_def
    by (simp add: get_entry_fold_remove [where key = id, OF one])
  moreover have "set (get_idle_sessions now (sint (session_idle_timeout_secs (config m))) m) = fst ` set ?sel"
    using False by (simp add: get_idle_sessions_def idle_too_long_def)
  ultimately show ?thesis using keep_unless_selected [OF assms] by simp
qed (simp add: reap_idle_sessions_def keep_unless_def idle_too_long_def split: option.splits)

lemma get_entry_finalize: "k \<noteq> fst x \<Longrightarrow> get_entry k (finalize_disconnected now x m) = get_entry k m"
  by (cases x) (auto simp: finalize_disconnected_def stop_vdi_container_def frame_simps Let_def split: option.splits)

lemma get_entry_finalize_all:
  "k \<notin> fst ` set xs \<Longrightarrow> get_entry k (fold (finalize_disconnected now) xs m) = get_entry k m"
  by (induction xs arbitrary: m) (auto simp: get_entry_finalize)

lemma get_entry_reap_apply:
  "get_entry k (snd (reap_apply live now removable finals m)) =
     (if k \<in> set removable \<or> k \<in> fst ` set finals then None else get_entry k m)"
  by (auto simp: reap_apply_def Let_def get_entry_fields get_entry_fold_remove [where key = id]
      get_entry_forget get_entry_finalize_all)

lemma reap_completed_entry:
  assumes "keys_ok m"
  shows "get_entry k (snd (reap_completed_sessions live now m)) = keep_unless (past_cleanup now m k) (get_entry k m)"
proof -
  have sel: "k \<in> fst ` set (filter P (sessions m)) \<longleftrightarrow> (\<exists>s. get_entry k m = Some s \<and> P (k, s))" for P
    using map_of_filter_keys [of "sessions m" k P] assms by (simp add: get_entry_def keys_ok_def)
  show ?thesis
    by (auto simp: reap_completed_sessions_def get_entry_reap_apply reap_removable_def reap_finalizable_def
        sel keep_unless_def past_cleanup_def simp del: set_filter split: option.splits)
qed

text \<open>
  The reapers are exact. The age reaper removes the live sessions older than the
  maximum duration, the idle reaper the live sessions without activity for longer than the
  idle timeout, the cleanup reaper the ended and the long disconnected sessions past the
  cleanup delay; a limit of zero removes nothing, and every other session stays in the map
  exactly as it was.
\<close>

theorem reapers_exact:
  assumes "keys_ok m"
  shows "get_entry k (snd (reap_expired_sessions now m)) = keep_unless (expired_by_age now m) (get_entry k m) \<and>
    get_entry k (snd (reap_idle_sessions now m)) = keep_unless (idle_too_long now m) (get_entry k m) \<and>
    get_entry k (snd (reap_completed_sessions live now m)) = keep_unless (past_cleanup now m k) (get_entry k m)"
  using assms by (simp add: reap_expired_entry reap_idle_entry reap_completed_entry)

section \<open>Where the code departs from its own rules\<close>

text \<open>
  Completing a disconnected session decrements the gauge a second time: after one session
  that connected, lost its browser and was completed, the gauge wraps around.
\<close>

lemma gauge_wraps:
  "sessions_active (run (Register 0 (demo_session ''s'') # owner_ops False ''s'' @
     [Disconnect 20 ''s'', Complete 30 ''s'']) demo_mgr) = - 1"
  by code_simp

text \<open>
  The cleanup reaper decides on a scan and removes after it: an owner that reconnects in
  between loses the active session it has just got back.
\<close>

lemma reaper_removes_reconnected_session:
  "let m = run busy_ops demo_mgr;
       removable = reap_removable (400 * nanos) m;
       finals = reap_finalizable (400 * nanos) m;
       m' = run (owner_ops True ''s'') m
   in entry_status ''s'' m' = Some Active \<and>
      entry_status ''s'' (snd (reap_apply (\<lambda>_. True) (400 * nanos) removable finals m')) = None"
  by code_simp

text \<open>
  The teardown of an owner gives its connection back before it clears the owner mark: a
  viewer that joins in between is let in over the cap of one viewer.
\<close>

lemma viewer_cap_exceeded:
  "let viewers = (\<lambda>m. case get_entry ''s'' m of
         Some s \<Rightarrow> active_connections s - (if owner_is_connected ''s'' m then 1 else 0) | None \<Rightarrow> 0);
       m = run (Register 0 (demo_session ''s'') # owner_ops False ''s'' @
             [ReserveViewer ''s'' 1, DisconnectViewer ''s'', ReserveViewer ''s'' 1, OwnerGone ''s'']) demo_mgr
   in viewers m = 2"
  by code_simp

text \<open>Logging a session out publishes its end twice, with two different statuses.\<close>

lemma logout_ends_twice:
  "map (\<lambda>e. (ev_event e, ev_status e))
     (filter (\<lambda>e. ev_event e = SessionEnded) (snd (replay_events 0 (event_bus (run (Register 0 (demo_session ''s'') #
        owner_ops False ''s'' @ [LogoutMark 20 ''s'', Delete 21 ''s'']) demo_mgr))))) =
   [(SessionEnded, LoggedOut), (SessionEnded, Completed)]"
  by code_simp

text \<open>A session that is refused by the cap has been announced as started all the same.\<close>

lemma refused_session_announced:
  "let m = run [Register 0 (demo_session ''s''), Register 1 (demo_session ''t'')] demo_mgr
   in get_entry ''t'' m = None \<and>
      map (\<lambda>e. (ev_event e, ev_session_id e)) (snd (replay_events 0 (event_bus m))) =
        [(SessionStarted, ''s''), (SessionStarted, ''t'')]"
  by code_simp

end
