(* ===== verification/App_Error.thy ===== *)
theory App_Error
  imports Session_Types "HOL-Library.Sublist"
begin

text \<open>
  \<open>src/src/error.rs\<close>: the error type of the handlers, the conversions of the module errors
  into it, and the choice of the HTTP status and of the text a client gets to see. The
  rendering as JSON or as an HTML page takes place after this choice and is left out.
\<close>

datatype AppError =
    AppSession string
  | AppGuacd string
  | AppVault string
  | AppAuth string
  | AppForbidden string
  | AppConflict string
  | AppBrowser string
  | AppVdi string
  | AppTunnel string
  | AppProtocol string
  | AppDrive string
  | AppPve string
  | AppVsphere string
  | AppValidation string
  | AppNotFound string
  | AppInternal string

fun show_app_error :: "AppError \<Rightarrow> string" where
  "show_app_error (AppSession msg) = ''session error: '' @ msg"
| "show_app_error (AppGuacd msg) = ''guacd error: '' @ msg"
| "show_app_error (AppVault msg) = ''vault error: '' @ msg"
| "show_app_error (AppAuth msg) = ''auth error: '' @ msg"
| "show_app_error (AppForbidden msg) = ''forbidden: '' @ msg"
| "show_app_error (AppConflict msg) = ''conflict: '' @ msg"
| "show_app_error (AppBrowser msg) = ''browser error: '' @ msg"
| "show_app_error (AppVdi msg) = ''vdi error: '' @ msg"
| "show_app_error (AppTunnel msg) = ''tunnel error: '' @ msg"
| "show_app_error (AppProtocol msg) = ''protocol error: '' @ msg"
| "show_app_error (AppDrive msg) = ''drive error: '' @ msg"
| "show_app_error (AppPve msg) = ''pve error: '' @ msg"
| "show_app_error (AppVsphere msg) = ''vsphere error: '' @ msg"
| "show_app_error (AppValidation msg) = ''validation error: '' @ msg"
| "show_app_error (AppNotFound msg) = ''not found: '' @ msg"
| "show_app_error (AppInternal msg) = msg"

text \<open>\<open>str::contains\<close>.\<close>

fun contains :: "string \<Rightarrow> string \<Rightarrow> bool" where
  "contains [] pat = (pat = [])"
| "contains (c # s) pat = (prefix pat (c # s) \<or> contains s pat)"

lemma contains_iff: "contains s pat \<longleftrightarrow> sublist pat s"
  by (induction s) (auto simp: sublist_Cons_right)

text \<open>
  The match of \<open>into_response\<close>, arm by arm: the status, and the text that goes into the
  response.
\<close>

definition infrastructure_error :: "nat \<times> string" where
  "infrastructure_error = (502, ''infrastructure error'')"

fun response_of :: "AppError \<Rightarrow> nat \<times> string" where
  "response_of (AppSession msg) =
     (if contains msg ''not found'' then (404, show_app_error (AppSession msg))
      else if contains msg ''validation'' then (400, show_app_error (AppSession msg))
      else if contains msg ''not active'' then (409, show_app_error (AppSession msg))
      else if contains msg ''not supported on Windows'' then (503, show_app_error (AppSession msg))
      else infrastructure_error)"
| "response_of (AppVault msg) =
     (if contains msg ''not found'' then (404, show_app_error (AppVault msg))
      else if contains msg ''forbidden'' \<or> contains msg ''access denied'' then (403, show_app_error (AppVault msg))
      else if contains msg ''unavailable'' then (503, show_app_error (AppVault msg))
      else if contains msg ''invalid name'' then (400, show_app_error (AppVault msg))
      else infrastructure_error)"
| "response_of (AppAuth msg) = (401, show_app_error (AppAuth msg))"
| "response_of (AppForbidden msg) = (403, show_app_error (AppForbidden msg))"
| "response_of (AppConflict msg) = (409, show_app_error (AppConflict msg))"
| "response_of (AppNotFound msg) = (404, show_app_error (AppNotFound msg))"
| "response_of (AppValidation msg) = (400, show_app_error (AppValidation msg))"
| "response_of (AppVdi msg) =
     (if contains msg ''not enabled'' then (503, show_app_error (AppVdi msg))
      else if contains msg ''timeout'' then (504, show_app_error (AppVdi msg))
      else if contains msg ''not supported on Windows'' then (503, show_app_error (AppVdi msg))
      else infrastructure_error)"
| "response_of (AppBrowser msg) =
     (if contains msg ''not supported on Windows'' then (503, show_app_error (AppBrowser msg))
      else infrastructure_error)"
| "response_of (AppGuacd msg) = infrastructure_error"
| "response_of (AppTunnel msg) = infrastructure_error"
| "response_of (AppProtocol msg) = infrastructure_error"
| "response_of (AppPve msg) = infrastructure_error"
| "response_of (AppVsphere msg) = infrastructure_error"
| "response_of (AppDrive msg) = (500, ''drive error'')"
| "response_of (AppInternal msg) = (500, ''An internal error occurred'')"

text \<open>\<open>status_for_response\<close>: the error code of the JSON body.\<close>

definition error_code :: "nat \<Rightarrow> string" where
  "error_code st =
     (if st = 404 then ''NOT_FOUND'' else if st = 400 then ''VALIDATION_ERROR''
      else if st = 409 then ''CONFLICT'' else if st = 502 then ''BAD_GATEWAY''
      else if st = 401 then ''UNAUTHORIZED'' else if st = 403 then ''FORBIDDEN''
      else if st = 503 then ''SERVICE_UNAVAILABLE'' else if st = 504 then ''GATEWAY_TIMEOUT''
      else if st = 413 then ''PAYLOAD_TOO_LARGE'' else ''INTERNAL_ERROR'')"

section \<open>Conversions\<close>

definition app_from_session :: "SessionError \<Rightarrow> AppError" where
  "app_from_session e = AppSession (show_session_error e)"

definition app_from_guacd :: "GuacdError \<Rightarrow> AppError" where
  "app_from_guacd e = AppGuacd (show_guacd_error e)"

definition app_from_parse :: "ParseError \<Rightarrow> AppError" where
  "app_from_parse e = AppProtocol (show_parse_error e)"

section \<open>Properties\<close>

text \<open>The variants whose message must never reach a client, whatever it says.\<close>

fun always_sanitised :: "AppError \<Rightarrow> bool" where
  "always_sanitised (AppGuacd _) = True"
| "always_sanitised (AppTunnel _) = True"
| "always_sanitised (AppProtocol _) = True"
| "always_sanitised (AppPve _) = True"
| "always_sanitised (AppVsphere _) = True"
| "always_sanitised (AppDrive _) = True"
| "always_sanitised (AppInternal _) = True"
| "always_sanitised _ = False"

text \<open>
  Every response either shows the error as printed or one of three fixed texts, the fixed
  texts come with a 5xx status, and an error of an infrastructure module gets one of them.
\<close>

lemma response_sanitised:
  "snd (response_of e) \<in> {''infrastructure error'', ''drive error'', ''An internal error occurred''} \<and>
     500 \<le> fst (response_of e) \<or>
   snd (response_of e) = show_app_error e \<and> \<not> always_sanitised e"
  by (cases e) (auto simp: infrastructure_error_def)

lemma contains_append: "contains s pat \<Longrightarrow> contains (t @ s) pat" "contains s pat \<Longrightarrow> contains (s @ t) pat"
  by (simp_all add: contains_iff sublist_append sublist_appendI)

text \<open>
  What a client learns of a failed session operation: unknown ids give 404, sessions that
  cannot be joined 409, refused parameters 400 with the reason unless the reason itself
  talks of something not found, and the viewer limit is hidden behind the generic 502.
\<close>

lemma session_error_statuses:
  "fst (response_of (app_from_session NotFound)) = 404"
  "fst (response_of (app_from_session NotActive)) = 409"
  "fst (response_of (app_from_session (ValidationError msg))) =
     (if contains (''validation error: '' @ msg) ''not found'' then 404 else 400)"
  by (simp_all add: app_from_session_def)

end
