(* ===== verification/Text_Util.thy ===== *)
theory Text_Util
  imports App_Error
begin

text \<open>
  The text helpers of \<open>src/src/slugify.rs\<close>, \<open>src/src/validation.rs\<close> and
  \<open>src/src/net_util.rs\<close>, with the parts of \<open>str\<close> they rest on: code points, white space and
  \<open>trim\<close>. The lemmas show that a slug is a path-safe identifier and that taking the slug of
  a slug changes nothing, that a validated address has the checked shape, and how a
  host and port text is cut.
\<close>

section \<open>White space\<close>

text \<open>The code point of a well-formed character.\<close>

fun code_point :: "string \<Rightarrow> nat" where
  "code_point [a] = byte a"
| "code_point [a, b] = (byte a - 0xC0) * 64 + (byte b - 0x80)"
| "code_point [a, b, c] = ((byte a - 0xE0) * 64 + (byte b - 0x80)) * 64 + (byte c - 0x80)"
| "code_point [a, b, c, d] =
     (((byte a - 0xF0) * 64 + (byte b - 0x80)) * 64 + (byte c - 0x80)) * 64 + (byte d - 0x80)"
| "code_point _ = 0xFFFD"

text \<open>\<open>char::is_whitespace\<close>: the code points with the Unicode property White_Space.\<close>

definition is_whitespace :: "string \<Rightarrow> bool" where
  "is_whitespace c = (let n = code_point c in
     9 \<le> n \<and> n \<le> 13 \<or> n = 0x20 \<or> n = 0x85 \<or> n = 0xA0 \<or> n = 0x1680 \<or>
     0x2000 \<le> n \<and> n \<le> 0x200A \<or> n = 0x2028 \<or> n = 0x2029 \<or> n = 0x202F \<or> n = 0x205F \<or> n = 0x3000)"

definition trim_chars :: "string list \<Rightarrow> string list" where
  "trim_chars cs = rev (dropWhile is_whitespace (rev (dropWhile is_whitespace cs)))"

definition trim :: "string \<Rightarrow> string" where
  "trim s = concat (trim_chars (chars s))"

lemma trim_chars_infix: "\<exists>pre post. cs = pre @ trim_chars cs @ post"
proof -
  obtain pre where "cs = pre @ dropWhile is_whitespace cs"
    by (metis takeWhile_dropWhile_id)
  moreover obtain post where "dropWhile is_whitespace cs = trim_chars cs @ post"
    unfolding trim_chars_def by (metis rev_append rev_rev_ident takeWhile_dropWhile_id)
  ultimately show ?thesis by metis
qed

lemma set_trim_chars: "set (trim_chars cs) \<subseteq> set cs"
  using trim_chars_infix [of cs] by (metis Un_upper1 Un_upper2 order.trans set_append)

lemma dropWhile_none: "xs = [] \<or> \<not> P (hd xs) \<Longrightarrow> dropWhile P xs = xs"
  by (cases xs) auto

lemma trim_chars_id:
  "cs = [] \<or> \<not> is_whitespace (hd cs) \<and> \<not> is_whitespace (last cs) \<Longrightarrow> trim_chars cs = cs"
  by (auto simp: trim_chars_def dropWhile_none hd_rev)

section \<open>Identifiers from friendly names\<close>

definition is_ascii_alphanumeric :: "char \<Rightarrow> bool" where
  "is_ascii_alphanumeric c = (let b = byte c in
     48 \<le> b \<and> b \<le> 57 \<or> 65 \<le> b \<and> b \<le> 90 \<or> 97 \<le> b \<and> b \<le> 122)"

definition to_ascii_lowercase :: "char \<Rightarrow> char" where
  "to_ascii_lowercase c = (if 65 \<le> byte c \<and> byte c \<le> 90 then char_of (byte c + 32) else c)"

definition is_separator :: "char \<Rightarrow> bool" where
  "is_separator c \<longleftrightarrow> c = CHR ''.'' \<or> c = CHR ''_'' \<or> c = CHR ''-''"

text \<open>
  One round of the loop over the characters: the state is what has been pushed so far and
  whether the last kept character was a separator (\<open>prev_sep\<close>). A character of more than one
  byte is not ASCII.
\<close>

definition push_separator :: "char \<Rightarrow> string \<times> bool \<Rightarrow> string \<times> bool" where
  "push_separator x st =
     (case st of (slug, prev_sep) \<Rightarrow> (if \<not> prev_sep \<and> slug \<noteq> [] then slug @ [x] else slug, True))"

definition slug_step :: "string \<times> bool \<Rightarrow> string \<Rightarrow> string \<times> bool" where
  "slug_step st c =
     (let lower = (case c of [a] \<Rightarrow> Some (to_ascii_lowercase a) | _ \<Rightarrow> None)
      in case lower of
           Some x \<Rightarrow>
             if is_ascii_alphanumeric x then (fst st @ [x], False)
             else if is_whitespace c then push_separator CHR ''-'' st
             else if is_separator x then push_separator x st
             else st
         | None \<Rightarrow> if is_whitespace c then push_separator CHR ''-'' st else st)"

definition trim_end_separators :: "string \<Rightarrow> string" where
  "trim_end_separators s = rev (dropWhile is_separator (rev s))"

definition slugify :: "string \<Rightarrow> string" where
  "slugify name = trim_end_separators (fst (foldl slug_step ([], False) (trim_chars (chars name))))"

text \<open>The shape of a slug: separators only between two letters or digits, one at a time.\<close>

definition is_lower_alnum :: "char \<Rightarrow> bool" where
  "is_lower_alnum c = (let b = byte c in 48 \<le> b \<and> b \<le> 57 \<or> 97 \<le> b \<and> b \<le> 122)"

fun separated :: "string \<Rightarrow> bool" where
  "separated [] = True"
| "separated [c] = (is_lower_alnum c \<or> is_separator c)"
| "separated (c # d # s) =
     ((is_lower_alnum c \<or> is_separator c) \<and> \<not> (is_separator c \<and> is_separator d) \<and> separated (d # s))"

definition is_slug :: "string \<Rightarrow> bool" where
  "is_slug s \<longleftrightarrow> separated s \<and> (s \<noteq> [] \<longrightarrow> is_lower_alnum (hd s) \<and> is_lower_alnum (last s))"

lemma lower_alnum: "is_ascii_alphanumeric (to_ascii_lowercase a) \<Longrightarrow> is_lower_alnum (to_ascii_lowercase a)"
  by (auto simp: is_ascii_alphanumeric_def to_ascii_lowercase_def is_lower_alnum_def Let_def byte_char_of
      split: if_splits)

lemma lower_alnum_not_separator: "is_lower_alnum c \<Longrightarrow> \<not> is_separator c"
  by (auto simp: is_lower_alnum_def is_separator_def Let_def byte_def)

lemma separated_snoc:
  "separated (s @ [c]) \<longleftrightarrow> separated s \<and> (is_lower_alnum c \<or> is_separator c) \<and>
     (s \<noteq> [] \<longrightarrow> \<not> (is_separator (last s) \<and> is_separator c))"
  by (induction s rule: separated.induct) auto

text \<open>The invariant of the loop: \<open>prev_sep\<close> is set when the slug is empty or ends in a separator.\<close>

definition slug_inv :: "string \<times> bool \<Rightarrow> bool" where
  "slug_inv st \<longleftrightarrow> (case st of (slug, prev_sep) \<Rightarrow> separated slug \<and> (slug \<noteq> [] \<longrightarrow> is_lower_alnum (hd slug)) \<and>
     (\<not> prev_sep \<and> slug \<noteq> [] \<longrightarrow> is_lower_alnum (last slug)))"

lemma slug_step_cases:
  "slug_step st c = st \<or> (\<exists>x. is_lower_alnum x \<and> slug_step st c = (fst st @ [x], False)) \<or>
     (\<exists>x. is_separator x \<and> slug_step st c = push_separator x st)"
proof -
  have dash: "is_separator CHR ''-''" by (simp add: is_separator_def)
  have "lower = None \<or> (\<exists>a. lower = Some (to_ascii_lowercase a))"
    if "lower = (case c of [a] \<Rightarrow> Some (to_ascii_lowercase a) | _ \<Rightarrow> None)" for lower
    using that by (auto split: list.splits)
  then show ?thesis
    using dash lower_alnum unfolding slug_step_def Let_def
    by (cases "case c of [a] \<Rightarrow> Some (to_ascii_lowercase a) | _ \<Rightarrow> None") (fastforce)+
qed

lemma slug_step_inv: "slug_inv st \<Longrightarrow> slug_inv (slug_step st c)"
  using slug_step_cases [of st c] lower_alnum_not_separator
  by (cases st) (auto simp: slug_inv_def separated_snoc push_separator_def hd_append)

lemma slug_fold_inv: "slug_inv st \<Longrightarrow> slug_inv (foldl slug_step st cs)"
  by (induction cs arbitrary: st) (simp_all add: slug_step_inv)

lemma separated_prefix: "separated (a @ b) \<Longrightarrow> separated a"
  by (induction b rule: rev_induct) (simp_all add: separated_snoc flip: append_assoc)

lemma trim_end_separators_slug:
  assumes "slug_inv (s, p)"
  shows "is_slug (trim_end_separators s)"
proof -
  let ?t = "trim_end_separators s"
  have decomp: "s = ?t @ rev (takeWhile is_separator (rev s))"
    unfolding trim_end_separators_def by (metis rev_append rev_rev_ident takeWhile_dropWhile_id)
  then obtain post where post: "s = ?t @ post" by blast
  have inv: "separated (?t @ post)" "?t @ post \<noteq> [] \<Longrightarrow> is_lower_alnum (hd (?t @ post))"
    using assms unfolding post [symmetric] by (simp_all add: slug_inv_def)
  then have sep: "separated ?t" using separated_prefix by blast
  have hd: "?t \<noteq> [] \<Longrightarrow> is_lower_alnum (hd ?t)" using inv(2) by simp
  have "\<not> is_separator (last ?t)" if "?t \<noteq> []"
    using that hd_dropWhile [of is_separator "rev s"] by (simp add: trim_end_separators_def last_rev)
  moreover have "is_lower_alnum (last ?t) \<or> is_separator (last ?t)" if "?t \<noteq> []"
    using that sep separated_snoc [of "butlast ?t" "last ?t"] by simp
  ultimately show ?thesis using sep hd by (auto simp: is_slug_def)
qed

lemma slugify_is_slug: "is_slug (slugify name)"
proof -
  have "slug_inv (foldl slug_step ([], False) (trim_chars (chars name)))"
    by (rule slug_fold_inv) (simp add: slug_inv_def)
  then show ?thesis
    unfolding slugify_def by (metis prod.collapse trim_end_separators_slug)
qed

text \<open>A slug passes through the loop unchanged.\<close>

lemma slug_char_ascii: "is_lower_alnum c \<or> is_separator c \<Longrightarrow> byte c < 0x80 \<and> \<not> is_whitespace [c]"
  by (auto simp: is_lower_alnum_def is_separator_def is_whitespace_def Let_def byte_def)

lemma slug_step_alnum: "is_lower_alnum c \<Longrightarrow> slug_step st [c] = (fst st @ [c], False)"
  by (auto simp: slug_step_def Let_def is_lower_alnum_def to_ascii_lowercase_def is_ascii_alphanumeric_def)

lemma slug_step_sep: "is_separator c \<Longrightarrow> slug_step st [c] = push_separator c st"
  by (auto simp: slug_step_def Let_def is_separator_def to_ascii_lowercase_def is_ascii_alphanumeric_def
      is_whitespace_def byte_def)

lemma separated_chars: "separated s \<Longrightarrow> list_all (\<lambda>c. is_lower_alnum c \<or> is_separator c) s"
  by (induction s rule: separated.induct) auto

lemma slug_fold_id:
  assumes "separated (pre @ s)" "pre @ s \<noteq> [] \<longrightarrow> is_lower_alnum (hd (pre @ s))"
  shows "fst (foldl slug_step (pre, pre \<noteq> [] \<and> is_separator (last pre)) (map (\<lambda>c. [c]) s)) = pre @ s"
  using assms
proof (induction s arbitrary: pre)
  case (Cons c s)
  have pre: "separated (pre @ [c])" using Cons.prems(1) separated_prefix [of "pre @ [c]" s] by simp
  then have c: "is_lower_alnum c \<or> is_separator c" by (simp add: separated_snoc)
  have "slug_step (pre, pre \<noteq> [] \<and> is_separator (last pre)) [c] =
      (pre @ [c], pre @ [c] \<noteq> [] \<and> is_separator (last (pre @ [c])))"
  proof (cases "is_separator c")
    case True
    then have "pre \<noteq> []" "\<not> is_separator (last pre)"
      using Cons.prems(2) pre lower_alnum_not_separator by (auto simp: separated_snoc)
    with True show ?thesis by (simp add: slug_step_sep push_separator_def)
  qed (use c in \<open>simp add: slug_step_alnum\<close>)
  with Cons.IH [of "pre @ [c]"] Cons.prems show ?case by simp
qed simp

lemma slugify_slug:
  assumes "is_slug s"
  shows "slugify s = s"
proof -
  have chars: "list_all (\<lambda>c. is_lower_alnum c \<or> is_separator c) s"
    using assms separated_chars by (simp add: is_slug_def)
  then have ascii: "chars s = map (\<lambda>c. [c]) s"
    by (intro chars_ascii) (auto simp: is_ascii_def list_all_iff slug_char_ascii)
  have "s = [] \<or> \<not> is_whitespace [hd s] \<and> \<not> is_whitespace [last s]"
    using chars slug_char_ascii by (auto simp: list_all_iff)
  then have "trim_chars (chars s) = map (\<lambda>c. [c]) s"
    unfolding ascii by (intro trim_chars_id) (auto simp: hd_map last_map)
  moreover have "fst (foldl slug_step ([], False) (map (\<lambda>c. [c]) s)) = s"
    using slug_fold_id [of "[]" s] assms by (auto simp: is_slug_def)
  moreover have "trim_end_separators s = s"
    using assms lower_alnum_not_separator
    by (auto simp: trim_end_separators_def is_slug_def dropWhile_none hd_rev)
  ultimately show ?thesis by (simp add: slugify_def)
qed

text \<open>
  A slug is a stable, path-safe identifier: it consists of lower-case letters,
  digits and single separators between them, it is its own slug, and a text is its own slug
  exactly when it has this shape.
\<close>

theorem slugify_stable:
  "is_slug (slugify name) \<and> slugify (slugify name) = slugify name \<and> (slugify s = s \<longleftrightarrow> is_slug s)"
  using slugify_is_slug slugify_slug by metis

section \<open>Email addresses\<close>

definition validate_email :: "string option \<Rightarrow> (string option, AppError) result" where
  "validate_email email =
     (case email of
        None \<Rightarrow> Inr None
      | Some value \<Rightarrow>
          let trimmed = trim value
          in if trimmed = [] \<or> \<not> contains trimmed ''@'' \<or> list_ex is_whitespace (chars trimmed)
             then Inl (AppValidation ''invalid email address'')
             else Inr (Some trimmed))"

section \<open>Hosts and ports\<close>

definition split_host_port :: "string \<Rightarrow> string \<times> string" where
  "split_host_port addr = (case rsplit_once CHR '':'' addr of Some (host, port) \<Rightarrow> (host, port) | None \<Rightarrow> (addr, []))"

definition parse_port :: "string \<Rightarrow> nat option" where
  "parse_port s = parse_unsigned 65535 s"

definition has_valid_trailing_port :: "string \<Rightarrow> bool" where
  "has_valid_trailing_port addr = (parse_port (last (split_on CHR '':'' addr)) \<noteq> None)"

lemma last_split_on: "c \<notin> set b \<Longrightarrow> last (split_on c (a @ c # b)) = b"
proof (induction a)
  case (Cons x a)
  obtain p ps where split: "split_on c (a @ c # b) = p # ps" by (cases "split_on c (a @ c # b)") auto
  have "ps \<noteq> []"
  proof
    assume "ps = []"
    with split have "split_on c (a @ c # b) = [p]" by simp
    then have "p = a @ c # b" by (metis join.simps(2) join_split_on)
    moreover have "c \<notin> set p" using split_on_no_sep [of p c "a @ c # b"] split by simp
    ultimately show False by simp
  qed
  with split Cons show ?case by simp
qed simp

text \<open>
  The two views of a trailing port agree, and cutting an endpoint gives back the host and
  the port it was built from, whatever colons the host contains.
\<close>

lemma split_host_port_endpoint:
  assumes "p \<le> 65535"
  shows "split_host_port (host @ CHR '':'' # show_nat p) = (host, show_nat p) \<and>
     parse_port (show_nat p) = Some p \<and> has_valid_trailing_port (host @ CHR '':'' # show_nat p)"
proof -
  have free: "CHR '':'' \<notin> set (show_nat p)"
    using show_nat_digits [of p] by (auto simp: list_all_iff is_ascii_digit_def byte_def)
  then have "rsplit_once CHR '':'' (host @ CHR '':'' # show_nat p) = Some (host, show_nat p)"
    by (simp add: rsplit_once_Some)
  moreover have "parse_port (show_nat p) = Some p"
    using assms by (simp add: parse_port_def parse_unsigned_show_nat)
  ultimately show ?thesis
    by (simp add: split_host_port_def has_valid_trailing_port_def last_split_on [OF free])
qed

end
