(* ===== verification/Auth_Store.thy ===== *)
theory Auth_Store
  imports Text_Util
begin

text \<open>
  The accounts of \<open>src/src/db.rs\<close>: admins with their API keys, users, browser sessions, user
  API tokens, the log of failed logins behind the lockout, and the re-validation of scoped
  tokens. The tables are lists of rows and each store function is the function it has on
  them, as its local SQLite statements spell it out. A statement that violates a UNIQUE
  constraint is the error \<open>None\<close>; other failures of the database are not modelled.

  Times the database writes itself (\<open>datetime('now')\<close>) are seconds, which compare as their
  texts do. The expiry texts of keys and tokens are free text; how \<open>chrono\<close> reads them, how
  \<open>ipnetwork\<close> matches an address, and the digests are given by an environment.
\<close>

section \<open>The environment\<close>

datatype IpAddr = V4 "32 word" | V6 "128 word"

record AuthEnv =
  env_crypto :: Crypto
  parse_rfc3339 :: "string \<Rightarrow> DateTime option"
  parse_naive :: "string \<Rightarrow> string \<Rightarrow> DateTime option"
  parse_date :: "string \<Rightarrow> DateTime option"
  network_contains :: "string \<Rightarrow> IpAddr \<Rightarrow> bool option"

section \<open>Rows\<close>

record AdminInfo =
  adm_id :: int
  adm_name :: string
  adm_allowed_ips :: "string option"
  adm_expires_at :: "string option"
  adm_disabled :: bool
  adm_created_at :: RegistryTs
  adm_last_used_at :: "RegistryTs option"

record User =
  u_id :: int
  u_email :: string
  u_name :: string
  u_oidc_subject :: "string option"
  u_role :: string
  u_custom_role_id :: "string option"
  u_disabled :: bool
  u_created_at :: RegistryTs
  u_last_login_at :: "RegistryTs option"
  u_oidc_groups :: string
  u_auth_source :: string

definition groups_vec :: "User \<Rightarrow> string list" where
  "groups_vec u = (if u_oidc_groups u = [] then [] else split_on CHR '','' (u_oidc_groups u))"

record UserApiToken =
  t_id :: int
  t_user_id :: int
  t_name :: string
  t_max_role :: "string option"
  t_expires_at :: "string option"
  t_token_type :: string
  t_disabled :: bool
  t_created_at :: RegistryTs
  t_last_used_at :: "RegistryTs option"

record AuthSession =
  as_token_hash :: string
  as_user_id :: int
  as_created_at :: RegistryTs
  as_expires_at :: RegistryTs

record FailedLogin =
  fl_username :: string
  fl_ip_address :: string
  fl_attempted_at :: RegistryTs
  fl_success :: bool

record TokenEvent =
  te_token_id :: "int option"
  te_token_name :: "string option"
  te_user_email :: string
  te_action :: string
  te_ip_addr :: "string option"
  te_details :: "string option"
  te_created_at :: RegistryTs

text \<open>
  The tables, with the key hash beside an admin or token and the password hash beside a
  user, and the counters of the AUTOINCREMENT columns.
\<close>

record AuthDb =
  admins :: "(AdminInfo \<times> string) list"
  users :: "(User \<times> string option) list"
  auth_sessions :: "AuthSession list"
  user_api_tokens :: "(UserApiToken \<times> string) list"
  failed_login_attempts :: "FailedLogin list"
  token_audit_log :: "TokenEvent list"
  admins_seq :: int
  users_seq :: int
  tokens_seq :: int

datatype AuthError =
    InvalidKey
  | Disabled
  | ExpiredKey
  | IpNotAllowed
  | InvalidSession
  | AccountRevalidationFailed

fun show_auth_error :: "AuthError \<Rightarrow> string" where
  "show_auth_error InvalidKey = ''invalid API key''"
| "show_auth_error Disabled = ''admin account is disabled''"
| "show_auth_error ExpiredKey = ''API key has expired''"
| "show_auth_error IpNotAllowed = ''client IP not in allowed list''"
| "show_auth_error InvalidSession = ''invalid or expired session''"
| "show_auth_error AccountRevalidationFailed = ''account re-validation failed; sign in again''"

section \<open>Key hashes\<close>

definition hash_key :: "Crypto \<Rightarrow> string \<Rightarrow> string" where
  "hash_key cr key = hex_encode cr (sha256 cr key)"

definition hash_key_salt :: "Crypto \<Rightarrow> string \<Rightarrow> string \<Rightarrow> string" where
  "hash_key_salt cr salt key = hex_encode cr salt @ '':'' @ hex_encode cr (sha256 cr (salt @ key))"

definition validate_stored_hash :: "Crypto \<Rightarrow> string \<Rightarrow> string \<Rightarrow> bool" where
  "validate_stored_hash cr key stored =
     (case split_once CHR '':'' stored of
        Some (salt_hex, hash_hex) \<Rightarrow>
          (case (hex_decode cr salt_hex, hex_decode cr hash_hex) of
             (Some salt, Some expected) \<Rightarrow> sha256 cr (salt @ key) = expected
           | _ \<Rightarrow> False)
      | None \<Rightarrow> hash_key cr key = stored)"

text \<open>A bare date stands for the end of its day, 23:59:59.\<close>

definition parse_expires_at :: "AuthEnv \<Rightarrow> string \<Rightarrow> DateTime option" where
  "parse_expires_at env text =
     (let s = trim text
      in case parse_rfc3339 env s of
           Some dt \<Rightarrow> Some dt
         | None \<Rightarrow>
             (case parse_naive env ''%Y-%m-%d %H:%M:%S'' s of
                Some dt \<Rightarrow> Some dt
              | None \<Rightarrow>
                  (case parse_naive env ''%Y-%m-%dT%H:%M:%S'' s of
                     Some dt \<Rightarrow> Some dt
                   | None \<Rightarrow> map_option (\<lambda>d. d + 86399 * nanos) (parse_date env s))))"

definition not_expired :: "AuthEnv \<Rightarrow> DateTime \<Rightarrow> string option \<Rightarrow> bool" where
  "not_expired env now expiry =
     (case expiry of
        None \<Rightarrow> True
      | Some text \<Rightarrow> (case parse_expires_at env text of Some expires \<Rightarrow> now \<le> expires | None \<Rightarrow> False))"

section \<open>Admins\<close>

definition add_admin ::
    "Crypto \<Rightarrow> DateTime \<Rightarrow> string \<Rightarrow> string \<Rightarrow> string \<Rightarrow> string option \<Rightarrow> string option \<Rightarrow> AuthDb \<Rightarrow>
     string option \<times> AuthDb" where
  "add_admin cr now key salt name allowed_ips expiry d =
     (if list_ex (\<lambda>(a, _). adm_name a = name) (admins d) then (None, d)
      else (Some key,
            d\<lparr>admins := admins d @
                [(\<lparr>adm_id = admins_seq d + 1, adm_name = name, adm_allowed_ips = allowed_ips,
                   adm_expires_at = expiry, adm_disabled = False, adm_created_at = registry_ts now,
                   adm_last_used_at = None\<rparr>, hash_key_salt cr salt key)],
              admins_seq := admins_seq d + 1\<rparr>))"

definition allowed_from :: "AuthEnv \<Rightarrow> string option \<Rightarrow> IpAddr option \<Rightarrow> bool" where
  "allowed_from env allowed_ips client_ip =
     (case (allowed_ips, client_ip) of
        (Some cidrs, Some ip) \<Rightarrow>
          list_ex (\<lambda>cidr. network_contains env (trim cidr) ip = Some True) (split_on CHR '','' cidrs)
      | _ \<Rightarrow> True)"

definition validate_api_key ::
    "AuthEnv \<Rightarrow> DateTime \<Rightarrow> string \<Rightarrow> IpAddr option \<Rightarrow> AuthDb \<Rightarrow> (AdminInfo, AuthError) result \<times> AuthDb" where
  "validate_api_key env now key client_ip d =
     (case find (\<lambda>(_, stored). validate_stored_hash (env_crypto env) key stored) (admins d) of
        None \<Rightarrow> (Inl InvalidKey, d)
      | Some (admin, _) \<Rightarrow>
          if adm_disabled admin then (Inl Disabled, d)
          else if \<not> not_expired env now (adm_expires_at admin) then (Inl ExpiredKey, d)
          else if \<not> allowed_from env (adm_allowed_ips admin) client_ip then (Inl IpNotAllowed, d)
          else (Inr admin,
                d\<lparr>admins := map (\<lambda>(a, h). (if adm_id a = adm_id admin
                     then a\<lparr>adm_last_used_at := Some (registry_ts now)\<rparr> else a, h)) (admins d)\<rparr>))"

definition set_admin_disabled :: "bool \<Rightarrow> string \<Rightarrow> AuthDb \<Rightarrow> bool \<times> AuthDb" where
  "set_admin_disabled b name d =
     (list_ex (\<lambda>(a, _). adm_name a = name) (admins d),
      d\<lparr>admins := map (\<lambda>(a, h). (if adm_name a = name then a\<lparr>adm_disabled := b\<rparr> else a, h)) (admins d)\<rparr>)"

definition disable_admin :: "string \<Rightarrow> AuthDb \<Rightarrow> bool \<times> AuthDb" where
  "disable_admin = set_admin_disabled True"

definition enable_admin :: "string \<Rightarrow> AuthDb \<Rightarrow> bool \<times> AuthDb" where
  "enable_admin = set_admin_disabled False"

definition delete_admin :: "string \<Rightarrow> AuthDb \<Rightarrow> bool \<times> AuthDb" where
  "delete_admin name d =
     (list_ex (\<lambda>(a, _). adm_name a = name) (admins d),
      d\<lparr>admins := filter (\<lambda>(a, _). adm_name a \<noteq> name) (admins d)\<rparr>)"

definition rotate_key :: "Crypto \<Rightarrow> string \<Rightarrow> string \<Rightarrow> string \<Rightarrow> AuthDb \<Rightarrow> string option \<times> AuthDb" where
  "rotate_key cr key salt name d =
     (if list_ex (\<lambda>(a, _). adm_name a = name) (admins d)
      then (Some key, d\<lparr>admins := map (\<lambda>(a, h). (a, if adm_name a = name then hash_key_salt cr salt key else h)) (admins d)\<rparr>)
      else (None, d))"

section \<open>Users\<close>

definition get_user_by_email :: "string \<Rightarrow> AuthDb \<Rightarrow> User option" where
  "get_user_by_email email d = map_option fst (find (\<lambda>(u, _). u_email u = email) (users d))"

definition upsert_user ::
    "DateTime \<Rightarrow> string \<Rightarrow> string \<Rightarrow> string option \<Rightarrow> string \<Rightarrow> string list \<Rightarrow> AuthDb \<Rightarrow> User option \<times> AuthDb" where
  "upsert_user now email name oidc_subject default_role groups d =
     (let groups_str = join '','' groups;
          source = (if oidc_subject \<noteq> None then ''oidc'' else ''database'');
          d' = (if list_ex (\<lambda>(u, _). u_email u = email) (users d)
                then d\<lparr>users := map (\<lambda>(u, h). (if u_email u = email
                       then u\<lparr>u_name := name,
                              u_oidc_subject := (if oidc_subject \<noteq> None then oidc_subject else u_oidc_subject u),
                              u_oidc_groups := groups_str, u_auth_source := source,
                              u_last_login_at := Some (registry_ts now)\<rparr>
                       else u, h)) (users d)\<rparr>
                else d\<lparr>users := users d @
                       [(\<lparr>u_id = users_seq d + 1, u_email = email, u_name = name, u_oidc_subject = oidc_subject,
                          u_role = default_role, u_custom_role_id = None, u_disabled = False,
                          u_created_at = registry_ts now, u_last_login_at = None, u_oidc_groups = groups_str,
                          u_auth_source = source\<rparr>, None)],
                     users_seq := users_seq d + 1\<rparr>)
      in (get_user_by_email email d', d'))"

definition update_user_where :: "string \<Rightarrow> (User \<Rightarrow> User) \<Rightarrow> AuthDb \<Rightarrow> bool \<times> AuthDb" where
  "update_user_where email f d =
     (list_ex (\<lambda>(u, _). u_email u = email) (users d),
      d\<lparr>users := map (\<lambda>(u, h). (if u_email u = email then f u else u, h)) (users d)\<rparr>)"

definition set_user_role :: "string \<Rightarrow> string \<Rightarrow> AuthDb \<Rightarrow> bool \<times> AuthDb" where
  "set_user_role email role = update_user_where email (\<lambda>u. u\<lparr>u_role := role\<rparr>)"

definition update_user_name :: "string \<Rightarrow> string \<Rightarrow> AuthDb \<Rightarrow> bool \<times> AuthDb" where
  "update_user_name email name = update_user_where email (\<lambda>u. u\<lparr>u_name := name\<rparr>)"

definition disable_user :: "string \<Rightarrow> AuthDb \<Rightarrow> bool \<times> AuthDb" where
  "disable_user email = update_user_where email (\<lambda>u. u\<lparr>u_disabled := True\<rparr>)"

definition enable_user :: "string \<Rightarrow> AuthDb \<Rightarrow> bool \<times> AuthDb" where
  "enable_user email = update_user_where email (\<lambda>u. u\<lparr>u_disabled := False\<rparr>)"

text \<open>\<open>update_user\<close>: a new address that another user has violates the UNIQUE constraint.\<close>

definition update_user ::
    "string \<Rightarrow> string option \<Rightarrow> string option \<Rightarrow> string option \<Rightarrow> AuthDb \<Rightarrow> User option option \<times> AuthDb" where
  "update_user email new_name new_email new_password_hash d =
     (let email' = (case new_email of Some e \<Rightarrow> e | None \<Rightarrow> email)
      in if \<not> list_ex (\<lambda>(u, _). u_email u = email) (users d) then (Some None, d)
         else if email' \<noteq> email \<and> list_ex (\<lambda>(u, _). u_email u = email') (users d) then (None, d)
         else let d' = d\<lparr>users := map (\<lambda>(u, h).
                     if u_email u = email
                     then (u\<lparr>u_name := (case new_name of Some n \<Rightarrow> n | None \<Rightarrow> u_name u), u_email := email'\<rparr>,
                           case new_password_hash of Some p \<Rightarrow> Some p | None \<Rightarrow> h)
                     else (u, h)) (users d)\<rparr>
              in (Some (get_user_by_email email' d'), d'))"

text \<open>\<open>delete_user\<close>, without the statements on the personal folders.\<close>

definition delete_user :: "string \<Rightarrow> AuthDb \<Rightarrow> bool \<times> AuthDb" where
  "delete_user email d =
     (let ids = map (\<lambda>(u, _). u_id u) (filter (\<lambda>(u, _). u_email u = email) (users d))
      in (list_ex (\<lambda>(u, _). u_email u = email) (users d),
          d\<lparr>auth_sessions := filter (\<lambda>s. as_user_id s \<notin> set ids) (auth_sessions d),
            user_api_tokens := filter (\<lambda>(t, _). t_user_id t \<notin> set ids) (user_api_tokens d),
            users := filter (\<lambda>(u, _). u_email u \<noteq> email) (users d)\<rparr>))"

section \<open>Browser sessions\<close>

text \<open>\<open>token\<close> is the random key; its hash is the primary key of the table.\<close>

definition create_auth_session ::
    "Crypto \<Rightarrow> DateTime \<Rightarrow> string \<Rightarrow> int \<Rightarrow> nat \<Rightarrow> AuthDb \<Rightarrow> string option \<times> AuthDb" where
  "create_auth_session cr now token uid ttl_secs d =
     (if list_ex (\<lambda>s. as_token_hash s = hash_key cr token) (auth_sessions d) then (None, d)
      else (Some token,
            d\<lparr>auth_sessions := auth_sessions d @
                [\<lparr>as_token_hash = hash_key cr token, as_user_id = uid, as_created_at = registry_ts now,
                  as_expires_at = registry_ts now + int ttl_secs\<rparr>]\<rparr>))"

definition delete_user_sessions :: "int \<Rightarrow> AuthDb \<Rightarrow> nat \<times> AuthDb" where
  "delete_user_sessions uid d =
     (length (filter (\<lambda>s. as_user_id s = uid) (auth_sessions d)),
      d\<lparr>auth_sessions := filter (\<lambda>s. as_user_id s \<noteq> uid) (auth_sessions d)\<rparr>)"

text \<open>The rows of the join of sessions and users, in table order.\<close>

definition session_users :: "(AuthSession \<Rightarrow> bool) \<Rightarrow> AuthDb \<Rightarrow> User list" where
  "session_users sel d =
     concat (map (\<lambda>s. map fst (filter (\<lambda>(u, _). u_id u = as_user_id s) (users d))) (filter sel (auth_sessions d)))"

definition validate_auth_session :: "Crypto \<Rightarrow> DateTime \<Rightarrow> string \<Rightarrow> AuthDb \<Rightarrow> (User, AuthError) result" where
  "validate_auth_session cr now token d =
     (case session_users (\<lambda>s. as_token_hash s = hash_key cr token \<and> registry_ts now < as_expires_at s) d of
        [] \<Rightarrow> Inl InvalidSession
      | u # _ \<Rightarrow> if u_disabled u then Inl Disabled else Inr u)"

definition delete_auth_session :: "Crypto \<Rightarrow> string \<Rightarrow> AuthDb \<Rightarrow> bool \<times> AuthDb" where
  "delete_auth_session cr token d =
     (list_ex (\<lambda>s. as_token_hash s = hash_key cr token) (auth_sessions d),
      d\<lparr>auth_sessions := filter (\<lambda>s. as_token_hash s \<noteq> hash_key cr token) (auth_sessions d)\<rparr>)"

definition auth_session_is_live :: "DateTime \<Rightarrow> string \<Rightarrow> AuthDb \<Rightarrow> bool" where
  "auth_session_is_live now th d =
     list_ex (\<lambda>s. as_token_hash s = th \<and> registry_ts now < as_expires_at s) (auth_sessions d)"

definition cleanup_expired_sessions :: "DateTime \<Rightarrow> AuthDb \<Rightarrow> nat \<times> AuthDb" where
  "cleanup_expired_sessions now d =
     (length (filter (\<lambda>s. as_expires_at s \<le> registry_ts now) (auth_sessions d)),
      d\<lparr>auth_sessions := filter (\<lambda>s. registry_ts now < as_expires_at s) (auth_sessions d)\<rparr>)"

section \<open>Failed logins\<close>

definition record_failed_login_attempt :: "DateTime \<Rightarrow> string \<Rightarrow> string \<Rightarrow> AuthDb \<Rightarrow> AuthDb" where
  "record_failed_login_attempt now uname ip d =
     d\<lparr>failed_login_attempts := failed_login_attempts d @
         [\<lparr>fl_username = uname, fl_ip_address = ip, fl_attempted_at = registry_ts now, fl_success = False\<rparr>]\<rparr>"

definition mark_success :: "(FailedLogin \<Rightarrow> bool) \<Rightarrow> AuthDb \<Rightarrow> AuthDb" where
  "mark_success sel d =
     d\<lparr>failed_login_attempts := map (\<lambda>f. if sel f \<and> \<not> fl_success f then f\<lparr>fl_success := True\<rparr> else f)
         (failed_login_attempts d)\<rparr>"

definition record_successful_login :: "string \<Rightarrow> string \<Rightarrow> AuthDb \<Rightarrow> AuthDb" where
  "record_successful_login uname ip = mark_success (\<lambda>f. fl_username f = uname \<and> fl_ip_address f = ip)"

definition clear_user_failed_attempts :: "string \<Rightarrow> AuthDb \<Rightarrow> AuthDb" where
  "clear_user_failed_attempts uname = mark_success (\<lambda>f. fl_username f = uname)"

definition count_recent_failures :: "DateTime \<Rightarrow> string \<Rightarrow> string \<Rightarrow> nat \<Rightarrow> AuthDb \<Rightarrow> nat" where
  "count_recent_failures now uname ip window_secs d =
     length (filter (\<lambda>f. fl_username f = uname \<and> fl_ip_address f = ip \<and> \<not> fl_success f \<and>
       registry_ts now - int window_secs \<le> fl_attempted_at f) (failed_login_attempts d))"

definition is_locked_out :: "DateTime \<Rightarrow> string \<Rightarrow> string \<Rightarrow> AuthDb \<Rightarrow> bool" where
  "is_locked_out now uname ip d = (5 < count_recent_failures now uname ip (15 * 60) d)"

section \<open>User API tokens\<close>

definition insert_token ::
    "Crypto \<Rightarrow> DateTime \<Rightarrow> string \<Rightarrow> string \<Rightarrow> int \<Rightarrow> string \<Rightarrow> string option \<Rightarrow> string option \<Rightarrow> AuthDb \<Rightarrow>
     (int \<times> string) option \<times> AuthDb" where
  "insert_token cr now token_type raw_key uid name max_role expiry d =
     (let token = ''rgu_'' @ raw_key
      in if list_ex (\<lambda>(t, h). h = hash_key cr token \<or> t_user_id t = uid \<and> t_name t = name) (user_api_tokens d)
         then (None, d)
         else (Some (tokens_seq d + 1, token),
               d\<lparr>user_api_tokens := user_api_tokens d @
                   [(\<lparr>t_id = tokens_seq d + 1, t_user_id = uid, t_name = name, t_max_role = max_role,
                      t_expires_at = expiry, t_token_type = token_type, t_disabled = False,
                      t_created_at = registry_ts now, t_last_used_at = None\<rparr>, hash_key cr token)],
                 tokens_seq := tokens_seq d + 1\<rparr>))"

definition create_user_token ::
    "Crypto \<Rightarrow> DateTime \<Rightarrow> string \<Rightarrow> int \<Rightarrow> string \<Rightarrow> string option \<Rightarrow> string option \<Rightarrow> AuthDb \<Rightarrow>
     (int \<times> string) option \<times> AuthDb" where
  "create_user_token cr now = insert_token cr now ''user''"

definition create_scoped_user_token ::
    "Crypto \<Rightarrow> DateTime \<Rightarrow> string \<Rightarrow> int \<Rightarrow> string \<Rightarrow> string option \<Rightarrow> string option \<Rightarrow> AuthDb \<Rightarrow>
     (int \<times> string) option \<times> AuthDb" where
  "create_scoped_user_token cr now = insert_token cr now ''scoped''"

definition delete_tokens :: "(UserApiToken \<Rightarrow> bool) \<Rightarrow> AuthDb \<Rightarrow> nat \<times> AuthDb" where
  "delete_tokens sel d =
     (length (filter (\<lambda>(t, _). sel t) (user_api_tokens d)),
      d\<lparr>user_api_tokens := filter (\<lambda>(t, _). \<not> sel t) (user_api_tokens d)\<rparr>)"

definition revoke_user_token :: "int \<Rightarrow> int \<Rightarrow> AuthDb \<Rightarrow> bool \<times> AuthDb" where
  "revoke_user_token uid tid d =
     (case delete_tokens (\<lambda>t. t_id t = tid \<and> t_user_id t = uid) d of (n, d') \<Rightarrow> (0 < n, d'))"

definition admin_revoke_user_token :: "int \<Rightarrow> AuthDb \<Rightarrow> bool \<times> AuthDb" where
  "admin_revoke_user_token tid d =
     (case delete_tokens (\<lambda>t. t_id t = tid) d of (n, d') \<Rightarrow> (0 < n, d'))"

definition revoke_all_user_tokens :: "int \<Rightarrow> AuthDb \<Rightarrow> nat \<times> AuthDb" where
  "revoke_all_user_tokens uid = delete_tokens (\<lambda>t. t_user_id t = uid)"

text \<open>
  The cleanup compares texts byte by byte, as SQLite does: \<open>sql_now\<close> is the text of
  \<open>datetime('now')\<close>.
\<close>

fun text_le :: "string \<Rightarrow> string \<Rightarrow> bool" where
  "text_le [] _ = True"
| "text_le (_ # _) [] = False"
| "text_le (a # s) (b # t) = (if a = b then text_le s t else byte a < byte b)"

definition cleanup_expired_user_tokens :: "string \<Rightarrow> AuthDb \<Rightarrow> nat \<times> AuthDb" where
  "cleanup_expired_user_tokens sql_now =
     delete_tokens (\<lambda>t. case t_expires_at t of None \<Rightarrow> False | Some e \<Rightarrow> text_le e sql_now)"

definition log_token_event ::
    "DateTime \<Rightarrow> int option \<Rightarrow> string option \<Rightarrow> string \<Rightarrow> string \<Rightarrow> string option \<Rightarrow> string option \<Rightarrow> AuthDb \<Rightarrow> AuthDb" where
  "log_token_event now tid name email action ip details d =
     d\<lparr>token_audit_log := token_audit_log d @
         [\<lparr>te_token_id = tid, te_token_name = name, te_user_email = email, te_action = action,
           te_ip_addr = ip, te_details = details, te_created_at = registry_ts now\<rparr>]\<rparr>"

section \<open>Re-validation of scoped tokens\<close>

datatype RecheckVerdict =
    RecheckValid "string option"
  | RecheckInvalid
  | RecheckNotApplicable
  | RecheckUnavailable

text \<open>
  A provider answers for a subject and the marker of its last valid check. The cache maps a
  user and subject to the last verdict; times are those of a monotonic clock.
\<close>

type_synonym Revalidator = "string \<Rightarrow> string option \<Rightarrow> RecheckVerdict"

record CacheEntry =
  ce_verdict :: RecheckVerdict
  ce_checked_at :: int
  ce_pwd_last_set :: "string option"

type_synonym RecheckCache = "((int \<times> string) \<times> CacheEntry) list"

definition MAX_ENTRIES :: nat where
  "MAX_ENTRIES = 4096"

fun entry_ttl :: "RecheckVerdict \<Rightarrow> int" where
  "entry_ttl (RecheckValid _) = 60 * nanos"
| "entry_ttl RecheckNotApplicable = 3600 * nanos"
| "entry_ttl RecheckUnavailable = 10 * nanos"
| "entry_ttl RecheckInvalid = 60 * nanos"

text \<open>The oldest entry; among equally old ones the first the map yields.\<close>

fun oldest_key :: "RecheckCache \<Rightarrow> (int \<times> string) option" where
  "oldest_key [] = None"
| "oldest_key ((k, e) # c) =
     (case oldest_key c of
        None \<Rightarrow> Some k
      | Some k' \<Rightarrow>
          (case map_of c k' of
             Some e' \<Rightarrow> if ce_checked_at e \<le> ce_checked_at e' then Some k else Some k'
           | None \<Rightarrow> Some k))"

definition evict :: "RecheckCache \<Rightarrow> RecheckCache" where
  "evict c =
     (if length c \<le> MAX_ENTRIES then c
      else case oldest_key c of None \<Rightarrow> c | Some k \<Rightarrow> AList.delete k c)"

definition cache_insert :: "int \<times> string \<Rightarrow> CacheEntry \<Rightarrow> RecheckCache \<Rightarrow> RecheckCache" where
  "cache_insert k e c = evict (AList.update k e c)"

text \<open>The loop over the providers: the first that manages the subject decides.\<close>

fun consult :: "Revalidator list \<Rightarrow> string \<Rightarrow> string option \<Rightarrow> RecheckVerdict" where
  "consult [] subject previous = RecheckNotApplicable"
| "consult (p # ps) subject previous =
     (case p subject previous of
        RecheckNotApplicable \<Rightarrow> consult ps subject previous
      | v \<Rightarrow> v)"

definition recheck ::
    "Revalidator list \<Rightarrow> int \<Rightarrow> int \<Rightarrow> string \<Rightarrow> RecheckCache \<Rightarrow> RecheckVerdict \<times> RecheckCache" where
  "recheck providers now uid subject c =
     (let fresh = (\<lambda>previous.
        if providers = [] then (RecheckNotApplicable, c)
        else case consult providers subject previous of
               RecheckInvalid \<Rightarrow> (RecheckInvalid, c)
             | RecheckUnavailable \<Rightarrow>
                 (RecheckUnavailable, cache_insert (uid, subject)
                    \<lparr>ce_verdict = RecheckUnavailable, ce_checked_at = now, ce_pwd_last_set = previous\<rparr> c)
             | RecheckValid marker \<Rightarrow>
                 (RecheckValid marker, cache_insert (uid, subject)
                    \<lparr>ce_verdict = RecheckValid marker, ce_checked_at = now, ce_pwd_last_set = marker\<rparr> c)
             | RecheckNotApplicable \<Rightarrow>
                 (RecheckNotApplicable, cache_insert (uid, subject)
                    \<lparr>ce_verdict = RecheckNotApplicable, ce_checked_at = now, ce_pwd_last_set = None\<rparr> c))
      in case map_of c (uid, subject) of
           Some e \<Rightarrow>
             if now - ce_checked_at e < entry_ttl (ce_verdict e) then (ce_verdict e, c)
             else fresh (ce_pwd_last_set e)
         | None \<Rightarrow> fresh None)"

text \<open>
  \<open>validate_user_token\<close> in its two locked sections: the scan with its checks, and, after the
  re-check of the account, the stamp of the use. The re-check runs between them without the
  database, so other requests may change it there.
\<close>

definition token_users :: "AuthDb \<Rightarrow> (User \<times> UserApiToken \<times> string) list" where
  "token_users d =
     concat (map (\<lambda>(t, h). map (\<lambda>(u, _). (u, t, h)) (filter (\<lambda>(u, _). u_id u = t_user_id t) (users d)))
       (user_api_tokens d))"

definition token_scan :: "AuthEnv \<Rightarrow> DateTime \<Rightarrow> string \<Rightarrow> AuthDb \<Rightarrow> (User \<times> UserApiToken, AuthError) result" where
  "token_scan env now token d =
     (case find (\<lambda>(_, _, h). hash_key (env_crypto env) token = h) (token_users d) of
        None \<Rightarrow> Inl InvalidKey
      | Some (u, t, _) \<Rightarrow>
          if t_disabled t then Inl Disabled
          else if u_disabled u then Inl Disabled
          else if \<not> not_expired env now (t_expires_at t) then Inl ExpiredKey
          else Inr (u, t))"

definition token_reject :: "DateTime \<Rightarrow> User \<Rightarrow> UserApiToken \<Rightarrow> AuthDb \<Rightarrow> AuthDb" where
  "token_reject now u t d =
     log_token_event now (Some (t_id t)) (Some (t_name t)) (u_email u) ''revalidation_failed'' None
       (Some ''account re-validation failed (rotated, locked, disabled, or expired)'')
       (snd (delete_tokens (\<lambda>x. t_id x = t_id t) d))"

definition token_stamp ::
    "DateTime \<Rightarrow> User \<Rightarrow> UserApiToken \<Rightarrow> AuthDb \<Rightarrow> (User \<times> UserApiToken, AuthError) result \<times> AuthDb" where
  "token_stamp now u t d =
     (if list_ex (\<lambda>(x, _). t_id x = t_id t) (user_api_tokens d)
      then (Inr (u, t),
            d\<lparr>user_api_tokens := map (\<lambda>(x, h). (if t_id x = t_id t
                 then x\<lparr>t_last_used_at := Some (registry_ts now)\<rparr> else x, h)) (user_api_tokens d)\<rparr>)
      else (Inl InvalidKey, d))"

definition validate_user_token ::
    "AuthEnv \<Rightarrow> Revalidator list \<Rightarrow> DateTime \<Rightarrow> int \<Rightarrow> string \<Rightarrow> AuthDb \<times> RecheckCache \<Rightarrow>
     (User \<times> UserApiToken, AuthError) result \<times> AuthDb \<times> RecheckCache" where
  "validate_user_token env providers now instant token st =
     (case st of (d, c) \<Rightarrow>
        (case token_scan env now token d of
           Inl e \<Rightarrow> (Inl e, d, c)
         | Inr (u, t) \<Rightarrow>
             let (verdict, c') = (if t_token_type t = ''scoped''
                   then recheck providers instant (t_user_id t) (u_email u) c
                   else (RecheckNotApplicable, c))
             in if verdict = RecheckInvalid
                then (Inl AccountRevalidationFailed, token_reject now u t d, c')
                else case token_stamp now u t d of (r, d') \<Rightarrow> (r, d', c')))"

section \<open>Accounts that lost access\<close>

lemma find_SomeD: "find P xs = Some x \<Longrightarrow> x \<in> set xs \<and> P x"
  by (induction xs) (auto split: if_splits)

lemma session_users_in: "u \<in> set (session_users sel d) \<Longrightarrow> \<exists>h. (u, h) \<in> set (users d)"
  by (auto simp: session_users_def)

lemma session_users_user: "u \<in> set (session_users sel d) \<Longrightarrow> \<exists>s \<in> set (auth_sessions d). sel s \<and> as_user_id s = u_id u"
  by (auto simp: session_users_def)

lemma token_users_in: "(u, t, h) \<in> set (token_users d) \<Longrightarrow> (\<exists>p. (u, p) \<in> set (users d)) \<and> (t, h) \<in> set (user_api_tokens d)"
  by (auto simp: token_users_def)

lemma validate_auth_session_Inr:
  assumes "validate_auth_session cr now token d = Inr u"
  shows "\<exists>h. (u, h) \<in> set (users d)" "\<not> u_disabled u"
    "\<exists>s \<in> set (auth_sessions d). as_token_hash s = hash_key cr token \<and> registry_ts now < as_expires_at s"
proof -
  let ?sel = "\<lambda>s. as_token_hash s = hash_key cr token \<and> registry_ts now < as_expires_at s"
  have u: "u \<in> set (session_users ?sel d)" and "\<not> u_disabled u"
    using assms by (auto simp: validate_auth_session_def split: list.splits if_splits)
  then show "\<exists>h. (u, h) \<in> set (users d)" "\<not> u_disabled u" using session_users_in by blast+
  show "\<exists>s \<in> set (auth_sessions d). as_token_hash s = hash_key cr token \<and> registry_ts now < as_expires_at s"
    using session_users_user [OF u] by blast
qed

lemma token_scan_Inr:
  assumes "token_scan env now token d = Inr (u, t)"
  shows "\<exists>p. (u, p) \<in> set (users d)" "\<not> u_disabled u" "\<not> t_disabled t" "not_expired env now (t_expires_at t)"
    "(t, hash_key (env_crypto env) token) \<in> set (user_api_tokens d)"
proof -
  obtain h where f: "find (\<lambda>(_, _, h). hash_key (env_crypto env) token = h) (token_users d) = Some (u, t, h)"
      and ok: "\<not> u_disabled u" "\<not> t_disabled t" "not_expired env now (t_expires_at t)"
    using assms by (auto simp: token_scan_def split: option.splits if_splits prod.splits)
  then have "(u, t, h) \<in> set (token_users d)" "h = hash_key (env_crypto env) token"
    using find_SomeD [OF f] by auto
  with token_users_in ok show "\<exists>p. (u, p) \<in> set (users d)" "\<not> u_disabled u" "\<not> t_disabled t"
    "not_expired env now (t_expires_at t)" "(t, hash_key (env_crypto env) token) \<in> set (user_api_tokens d)"
    by blast+
qed

lemma validate_user_token_Inr:
  "fst (validate_user_token env ps now i token (d, c)) = Inr (u, t) \<Longrightarrow> token_scan env now token d = Inr (u, t)"
  by (auto simp: validate_user_token_def token_stamp_def Let_def split: sum.splits prod.splits if_splits)

definition authenticates_as :: "string \<Rightarrow> AuthEnv \<Rightarrow> Revalidator list \<Rightarrow> DateTime \<Rightarrow> int \<Rightarrow> string \<Rightarrow> AuthDb \<Rightarrow> RecheckCache \<Rightarrow> bool" where
  "authenticates_as email env ps now i cred d c \<longleftrightarrow>
     (\<exists>u. validate_auth_session (env_crypto env) now cred d = Inr u \<and> u_email u = email) \<or>
     (\<exists>u t. fst (validate_user_token env ps now i cred (d, c)) = Inr (u, t) \<and> u_email u = email)"

lemma authenticates_enabled:
  "authenticates_as email env ps now i cred d c \<Longrightarrow> \<exists>u p. (u, p) \<in> set (users d) \<and> u_email u = email \<and> \<not> u_disabled u"
  using validate_auth_session_Inr(1,2) validate_user_token_Inr token_scan_Inr(1,2)
  unfolding authenticates_as_def by metis

text \<open>
  Claim C38. A disabled or deleted user cannot authenticate any more: right after the
  account is disabled or deleted, no browser session and no API token, whatever its value,
  is accepted for that address, even though disabling leaves the sessions and tokens in the
  tables.
\<close>

theorem disabled_users_locked_out:
  "\<not> authenticates_as email env ps now i cred (snd (disable_user email d)) c \<and>
   \<not> authenticates_as email env ps now i cred (snd (delete_user email d)) c"
proof -
  have "u_disabled u" if in_users: "(u, p) \<in> set (users (snd (disable_user email d)))" and "u_email u = email" for u p
  proof -
    obtain a where "u = (if u_email a = email then a\<lparr>u_disabled := True\<rparr> else a)"
      using in_users by (auto simp: disable_user_def update_user_where_def)
    with \<open>u_email u = email\<close> show ?thesis by (cases "u_email a = email") simp_all
  qed
  moreover have "u_email u \<noteq> email" if "(u, p) \<in> set (users (snd (delete_user email d)))" for u p
    using that by (auto simp: delete_user_def Let_def)
  ultimately show ?thesis using authenticates_enabled by meson
qed

section \<open>Browser sessions expire\<close>

lemma session_users_append:
  "session_users sel (d\<lparr>auth_sessions := xs @ ys\<rparr>) =
     session_users sel (d\<lparr>auth_sessions := xs\<rparr>) @ session_users sel (d\<lparr>auth_sessions := ys\<rparr>)"
  by (simp add: session_users_def)

lemma session_users_none: "list_all (\<lambda>s. \<not> sel s) (auth_sessions d) \<Longrightarrow> session_users sel d = []"
  by (simp add: session_users_def list_all_iff)

lemma users_by_id:
  "distinct (map (\<lambda>(u, _). u_id u) xs) \<Longrightarrow> (u, h) \<in> set xs \<Longrightarrow>
     map fst (filter (\<lambda>(v, _). u_id v = u_id u) xs) = [u]"
  by (induction xs) (force simp: filter_empty_conv image_iff)+

lemma created_session_judged:
  assumes "distinct (map (\<lambda>(u, _). u_id u) (users d))" "(u, h) \<in> set (users d)"
    and "create_auth_session cr now token (u_id u) ttl d = (Some tok, d')"
  shows "validate_auth_session cr t tok d' =
       (if registry_ts t < registry_ts now + int ttl then if u_disabled u then Inl Disabled else Inr u
        else Inl InvalidSession)"
    and "hash_key cr other \<noteq> hash_key cr tok \<Longrightarrow> validate_auth_session cr t other d' = validate_auth_session cr t other d"
proof -
  let ?row = "\<lparr>as_token_hash = hash_key cr token, as_user_id = u_id u, as_created_at = registry_ts now,
      as_expires_at = registry_ts now + int ttl\<rparr>"
  have tok: "tok = token" and d': "d' = d\<lparr>auth_sessions := auth_sessions d @ [?row]\<rparr>"
    and new: "list_all (\<lambda>s. as_token_hash s \<noteq> hash_key cr token) (auth_sessions d)"
    using assms(3) by (auto simp: create_auth_session_def list_ex_iff list_all_iff split: if_splits)
  define sel where "sel x = (\<lambda>s :: AuthSession. as_token_hash s = hash_key cr x \<and> registry_ts t < as_expires_at s)" for x
  have users: "session_users (sel x) d' = session_users (sel x) d @ (if sel x ?row then [u] else [])" for x
    using users_by_id [OF assms(1,2)] unfolding d' session_users_append by (simp add: session_users_def)
  have "session_users (sel token) d = []"
    using new by (intro session_users_none) (auto simp: sel_def list_all_iff)
  then show "validate_auth_session cr t tok d' =
       (if registry_ts t < registry_ts now + int ttl then if u_disabled u then Inl Disabled else Inr u
        else Inl InvalidSession)"
    using users [of token] tok by (auto simp: validate_auth_session_def sel_def split: list.splits)
  show "validate_auth_session cr t other d' = validate_auth_session cr t other d"
    if "hash_key cr other \<noteq> hash_key cr tok"
    using users [of other] that tok by (simp add: validate_auth_session_def sel_def)
qed

lemma deleted_session_refused:
  "validate_auth_session cr t tok (snd (delete_auth_session cr tok d)) = Inl InvalidSession"
proof -
  have "session_users (\<lambda>s. as_token_hash s = hash_key cr tok \<and> registry_ts t < as_expires_at s)
      (snd (delete_auth_session cr tok d)) = []"
    by (intro session_users_none) (auto simp: delete_auth_session_def list_all_iff)
  then show ?thesis by (simp add: validate_auth_session_def)
qed

text \<open>
  Claim C39. A browser session lives exactly as long as it was given: the token handed out
  by \<open>create_auth_session\<close> is accepted as its user (unless the account is disabled) strictly
  before its expiry and refused from then on, tokens with another hash are judged as before,
  and logging out ends it at once.
\<close>

theorem auth_session_lifetime:
  assumes "distinct (map (\<lambda>(u, _). u_id u) (users d))" "(u, h) \<in> set (users d)"
    and "create_auth_session cr now token (u_id u) ttl d = (Some tok, d')"
  shows "validate_auth_session cr t tok d' =
       (if registry_ts t < registry_ts now + int ttl then if u_disabled u then Inl Disabled else Inr u
        else Inl InvalidSession) \<and>
     (hash_key cr other \<noteq> hash_key cr tok \<longrightarrow> validate_auth_session cr t other d' = validate_auth_session cr t other d) \<and>
     validate_auth_session cr t tok (snd (delete_auth_session cr tok d')) = Inl InvalidSession"
  using created_session_judged [OF assms] deleted_session_refused by simp

section \<open>A small store for the witnesses\<close>

definition demo_nibbles :: "char \<Rightarrow> string" where
  "demo_nibbles c = [char_of (97 + byte c div 16), char_of (97 + byte c mod 16)]"

fun demo_decode :: "string \<Rightarrow> string option" where
  "demo_decode [] = Some []"
| "demo_decode [_] = None"
| "demo_decode (a # b # s) = map_option ((#) (char_of ((byte a - 97) * 16 + (byte b - 97)))) (demo_decode s)"

definition demo_env :: AuthEnv where
  "demo_env = \<lparr>env_crypto = \<lparr>sha256 = rev, hex_encode = (\<lambda>s. concat (map demo_nibbles s)), hex_decode = demo_decode\<rparr>,
     parse_rfc3339 = (\<lambda>_. None), parse_naive = (\<lambda>_ _. None),
     parse_date = (\<lambda>s. if s = ''1970-01-02'' then Some (86400 * nanos) else None),
     network_contains = (\<lambda>_ _. Some True)\<rparr>"

lemma demo_nibble:
  assumes "k < 16"
  shows "byte (char_of (97 + k)) = 97 + k" "char_of (97 + k) \<noteq> CHR '':''"
proof -
  show "byte (char_of (97 + k)) = 97 + k" using assms by (simp add: byte_char_of)
  then have "byte (char_of (97 + k)) \<noteq> byte CHR '':''" by (simp add: byte_simps)
  then show "char_of (97 + k) \<noteq> CHR '':''" by (metis byte_eq_iff)
qed

lemma byte_div_16: "byte c div 16 < 16"
  by (rule less_mult_imp_div_less) simp

lemma demo_decode_encode: "demo_decode (concat (map demo_nibbles s)) = Some s"
  by (induction s) (simp_all add: demo_nibbles_def demo_nibble(1) [OF byte_div_16] demo_nibble(1), simp add: byte_def)

lemma demo_env_crypto:
  "hex_decode (env_crypto demo_env) (hex_encode (env_crypto demo_env) s) = Some s"
  "CHR '':'' \<notin> set (hex_encode (env_crypto demo_env) s)"
  "inj (sha256 (env_crypto demo_env))" "inj (hash_key (env_crypto demo_env))"
proof -
  show decode: "hex_decode (env_crypto demo_env) (hex_encode (env_crypto demo_env) s) = Some s" for s
    by (simp add: demo_env_def demo_decode_encode)
  have "CHR '':'' \<notin> set (demo_nibbles c)" for c
    using demo_nibble(2) [OF byte_div_16 [of c]] demo_nibble(2) [of "byte c mod 16"]
    by (auto simp: demo_nibbles_def dest: sym)
  then show "CHR '':'' \<notin> set (hex_encode (env_crypto demo_env) s)" by (simp add: demo_env_def)
  show sha: "inj (sha256 (env_crypto demo_env))" by (simp add: demo_env_def inj_def)
  show "inj (hash_key (env_crypto demo_env))"
    by (rule injI) (metis decode hash_key_def injD option.inject sha)
qed

definition demo_user :: User where
  "demo_user = \<lparr>u_id = 7, u_email = ''a@x'', u_name = ''A'', u_oidc_subject = None, u_role = ''operator'',
     u_custom_role_id = None, u_disabled = False, u_created_at = 0, u_last_login_at = None, u_oidc_groups = [],
     u_auth_source = ''database''\<rparr>"

definition demo_admin :: AdminInfo where
  "demo_admin = \<lparr>adm_id = 1, adm_name = ''root'', adm_allowed_ips = None, adm_expires_at = None, adm_disabled = False,
     adm_created_at = 0, adm_last_used_at = None\<rparr>"

definition demo_auth_db :: AuthDb where
  "demo_auth_db = \<lparr>admins = [(demo_admin, hash_key_salt (env_crypto demo_env) ''salt'' ''old'')],
     users = [(demo_user, None)], auth_sessions = [], user_api_tokens = [], failed_login_attempts = [],
     token_audit_log = [], admins_seq = 1, users_seq = 7, tokens_seq = 0\<rparr>"

theorem auth_session_lifetime_witness:
  "\<exists>d'. create_auth_session (env_crypto demo_env) 0 ''tok'' 7 3600 demo_auth_db = (Some ''tok'', d') \<and>
     validate_auth_session (env_crypto demo_env) (3599 * nanos) ''tok'' d' = Inr demo_user \<and>
     validate_auth_session (env_crypto demo_env) (3600 * nanos) ''tok'' d' = Inl InvalidSession"
proof -
  let ?d' = "snd (create_auth_session (env_crypto demo_env) 0 ''tok'' 7 3600 demo_auth_db)"
  have c: "create_auth_session (env_crypto demo_env) 0 ''tok'' (u_id demo_user) 3600 demo_auth_db = (Some ''tok'', ?d')"
    by (simp add: create_auth_session_def demo_auth_db_def demo_user_def)
  have u: "distinct (map (\<lambda>(u, _). u_id u) (users demo_auth_db))" "(demo_user, None) \<in> set (users demo_auth_db)"
    by (simp_all add: demo_auth_db_def)
  show ?thesis
    using auth_session_lifetime [OF u c, of "3599 * nanos"]
      auth_session_lifetime [OF u c, of "3600 * nanos"] c
    by (auto simp: registry_ts_def nanos_def demo_user_def)
qed

section \<open>API keys\<close>

lemma stored_hash_salted:
  assumes "\<And>x. hex_decode cr (hex_encode cr x) = Some x" "\<And>x. CHR '':'' \<notin> set (hex_encode cr x)"
  shows "validate_stored_hash cr key (hash_key_salt cr salt key') \<longleftrightarrow> sha256 cr (salt @ key) = sha256 cr (salt @ key')"
proof -
  have "split_once CHR '':'' (hash_key_salt cr salt key') = Some (hex_encode cr salt, hex_encode cr (sha256 cr (salt @ key')))"
    unfolding hash_key_salt_def using split_once_append [OF assms(2)] by simp
  then show ?thesis using assms(1) by (auto simp: validate_stored_hash_def)
qed

lemma find_unique: "x \<in> set xs \<Longrightarrow> P x \<Longrightarrow> \<forall>y \<in> set xs. y \<noteq> x \<longrightarrow> \<not> P y \<Longrightarrow> find P xs = Some x"
  by (induction xs) (auto split: if_splits)

lemma find_none: "(\<And>y. y \<in> set xs \<Longrightarrow> \<not> P y) \<Longrightarrow> find P xs = None"
  by (simp add: find_None_iff)

text \<open>
  An accepted API key passed every check: it matches the stored hash of an admin
  that is enabled, whose expiry (if any) could be read and has not passed, and whose
  allow-list (if any) contains the client; validating it changes nothing but the time of
  last use.
\<close>

theorem api_key_checked:
  "case validate_api_key env now key ip d of
     (Inr a, d') \<Rightarrow> (\<exists>h. (a, h) \<in> set (admins d) \<and> validate_stored_hash (env_crypto env) key h) \<and>
       adm_disabled a = False \<and> not_expired env now (adm_expires_at a) \<and> allowed_from env (adm_allowed_ips a) ip \<and>
       map (\<lambda>(x, h). (x\<lparr>adm_last_used_at := None\<rparr>, h)) (admins d') =
         map (\<lambda>(x, h). (x\<lparr>adm_last_used_at := None\<rparr>, h)) (admins d)
   | (Inl _, d') \<Rightarrow> d' = d"
proof (cases "find (\<lambda>(_, stored). validate_stored_hash (env_crypto env) key stored) (admins d)")
  case (Some r)
  obtain a h where r: "r = (a, h)" by (cases r)
  have "(a, h) \<in> set (admins d)" "validate_stored_hash (env_crypto env) key h"
    using find_SomeD [OF Some] r by auto
  then show ?thesis using Some r
    by (auto simp: validate_api_key_def comp_def split: prod.splits if_splits)
qed (simp add: validate_api_key_def)

text \<open>
  Rotating a key replaces it: the old key is refused from then on and the new one
  is recognised as the same admin. The hypotheses are that the hexadecimal text is faithful,
  that names are unique, that no other admin accepts either key, and that the salted digests
  of the two keys differ.
\<close>

theorem rotate_key_replaces:
  assumes "\<And>x. hex_decode (env_crypto env) (hex_encode (env_crypto env) x) = Some x"
    and "\<And>x. CHR '':'' \<notin> set (hex_encode (env_crypto env) x)"
    and "sha256 (env_crypto env) (salt @ old) \<noteq> sha256 (env_crypto env) (salt @ new)"
    and "(a, h) \<in> set (admins d)" "distinct (map (\<lambda>(a, _). adm_name a) (admins d))"
    and "\<And>b hb. (b, hb) \<in> set (admins d) \<Longrightarrow> adm_name b \<noteq> adm_name a \<Longrightarrow>
      \<not> validate_stored_hash (env_crypto env) old hb \<and> \<not> validate_stored_hash (env_crypto env) new hb"
    and "\<not> adm_disabled a" "not_expired env now (adm_expires_at a)" "allowed_from env (adm_allowed_ips a) ip"
    and "rotate_key (env_crypto env) new salt (adm_name a) d = (Some k, d')"
  shows "k = new \<and> fst (validate_api_key env now old ip d') = Inl InvalidKey \<and>
    fst (validate_api_key env now new ip d') = Inr a"
proof -
  let ?P = "\<lambda>key (_ :: AdminInfo, stored). validate_stored_hash (env_crypto env) key stored"
  let ?h = "hash_key_salt (env_crypto env) salt new"
  have k: "k = new" and d': "admins d' = map (\<lambda>(b, hb). (b, if adm_name b = adm_name a then ?h else hb)) (admins d)"
    using assms(10) by (auto simp: rotate_key_def split: if_splits)
  have hash: "validate_stored_hash (env_crypto env) x ?h \<longleftrightarrow>
      sha256 (env_crypto env) (salt @ x) = sha256 (env_crypto env) (salt @ new)" for x
    using stored_hash_salted assms(1,2) by blast
  have same: "b = a" if "(b, hb) \<in> set (admins d)" "adm_name b = adm_name a" for b hb
    using that assms(4,5) by (auto simp: distinct_map inj_on_def)
  have "find (?P old) (admins d') = None"
    using assms(3,6) hash unfolding d' by (intro find_none) (auto split: if_splits)
  moreover have "find (?P new) (admins d') = Some (a, ?h)"
  proof (rule find_unique)
    show "(a, ?h) \<in> set (admins d')" unfolding d' using assms(4) by force
    show "?P new (a, ?h)" by (simp add: hash)
    show "\<forall>y \<in> set (admins d'). y \<noteq> (a, ?h) \<longrightarrow> \<not> ?P new y"
      using assms(6) same unfolding d' by (auto split: if_splits)
  qed
  ultimately show ?thesis using assms(7-9) k by (simp add: validate_api_key_def)
qed

theorem rotate_key_replaces_witness:
  "\<exists>d'. rotate_key (env_crypto demo_env) ''new'' ''s'' ''root'' demo_auth_db = (Some ''new'', d') \<and>
     fst (validate_api_key demo_env 0 ''old'' None d') = Inl InvalidKey \<and>
     fst (validate_api_key demo_env 0 ''new'' None d') = Inr demo_admin"
proof -
  let ?d' = "snd (rotate_key (env_crypto demo_env) ''new'' ''s'' (adm_name demo_admin) demo_auth_db)"
  have r: "rotate_key (env_crypto demo_env) ''new'' ''s'' (adm_name demo_admin) demo_auth_db = (Some ''new'', ?d')"
    by (simp add: rotate_key_def demo_auth_db_def)
  have only: "b = demo_admin" if "(b, hb) \<in> set (admins demo_auth_db)" for b hb
    using that by (simp add: demo_auth_db_def)
  have a: "(demo_admin, hash_key_salt (env_crypto demo_env) ''salt'' ''old'') \<in> set (admins demo_auth_db)"
    "distinct (map (\<lambda>(a, _). adm_name a) (admins demo_auth_db))"
    by (simp_all add: demo_auth_db_def)
  have checks: "\<not> adm_disabled demo_admin" "not_expired demo_env 0 (adm_expires_at demo_admin)"
    "allowed_from demo_env (adm_allowed_ips demo_admin) None"
    by (simp_all add: demo_admin_def not_expired_def allowed_from_def)
  have "''new'' = ''new'' \<and> fst (validate_api_key demo_env 0 ''old'' None ?d') = Inl InvalidKey \<and>
      fst (validate_api_key demo_env 0 ''new'' None ?d') = Inr demo_admin"
    by (rule rotate_key_replaces [OF demo_env_crypto(1,2) _ a _ checks r]) (use only demo_env_crypto(3) in \<open>auto dest: injD\<close>)
  then show ?thesis using r by (auto simp: demo_admin_def)
qed

section \<open>Lockout\<close>

text \<open>What happens at the login form, and what a sequence of it leaves in the log.\<close>

datatype LoginEvent = LoginFailed DateTime string string | LoginSucceeded string string | LockoutCleared string

fun login_event :: "LoginEvent \<Rightarrow> AuthDb \<Rightarrow> AuthDb" where
  "login_event (LoginFailed now name ip) d = record_failed_login_attempt now name ip d"
| "login_event (LoginSucceeded name ip) d = record_successful_login name ip d"
| "login_event (LockoutCleared name) d = clear_user_failed_attempts name d"

text \<open>
  The specification: the failures of this name and address since the last success of both
  or the last clearing of the name.
\<close>

fun open_failures :: "string \<Rightarrow> string \<Rightarrow> LoginEvent list \<Rightarrow> RegistryTs list" where
  "open_failures name ip [] = []"
| "open_failures name ip (LoginFailed now n i # evs) =
     (if n = name \<and> i = ip then registry_ts now # open_failures name ip evs else open_failures name ip evs)"
| "open_failures name ip (LoginSucceeded n i # evs) =
     (if n = name \<and> i = ip then [] else open_failures name ip evs)"
| "open_failures name ip (LockoutCleared n # evs) = (if n = name then [] else open_failures name ip evs)"

definition open_rows :: "string \<Rightarrow> string \<Rightarrow> AuthDb \<Rightarrow> RegistryTs list" where
  "open_rows name ip d = map fl_attempted_at
     (filter (\<lambda>f. fl_username f = name \<and> fl_ip_address f = ip \<and> \<not> fl_success f) (failed_login_attempts d))"

lemma open_rows_mark:
  "open_rows name ip (mark_success sel d) =
     map fl_attempted_at (filter (\<lambda>f. fl_username f = name \<and> fl_ip_address f = ip \<and> \<not> fl_success f \<and> \<not> sel f)
       (failed_login_attempts d))"
proof -
  have "map fl_attempted_at (filter (\<lambda>f. fl_username f = name \<and> fl_ip_address f = ip \<and> \<not> fl_success f)
        (map (\<lambda>f. if sel f \<and> \<not> fl_success f then f\<lparr>fl_success := True\<rparr> else f) xs)) =
      map fl_attempted_at (filter (\<lambda>f. fl_username f = name \<and> fl_ip_address f = ip \<and> \<not> fl_success f \<and> \<not> sel f) xs)"
    for xs :: "FailedLogin list"
    by (induction xs) auto
  then show ?thesis by (simp add: open_rows_def mark_success_def)
qed

lemma open_rows_event:
  "open_rows name ip (login_event (LoginFailed now n i) d) =
     open_rows name ip d @ (if n = name \<and> i = ip then [registry_ts now] else [])"
  "open_rows name ip (login_event (LoginSucceeded n i) d) =
     (if n = name \<and> i = ip then [] else open_rows name ip d)"
  "open_rows name ip (login_event (LockoutCleared n) d) = (if n = name then [] else open_rows name ip d)"
proof -
  show "open_rows name ip (login_event (LoginFailed now n i) d) =
      open_rows name ip d @ (if n = name \<and> i = ip then [registry_ts now] else [])"
    by (simp add: open_rows_def record_failed_login_attempt_def)
  show "open_rows name ip (login_event (LoginSucceeded n i) d) =
      (if n = name \<and> i = ip then [] else open_rows name ip d)"
    unfolding login_event.simps record_successful_login_def open_rows_mark
    by (auto simp: open_rows_def filter_empty_conv intro!: arg_cong [where f = "map fl_attempted_at"] filter_cong)
  show "open_rows name ip (login_event (LockoutCleared n) d) = (if n = name then [] else open_rows name ip d)"
    unfolding login_event.simps clear_user_failed_attempts_def open_rows_mark
    by (auto simp: open_rows_def filter_empty_conv intro!: arg_cong [where f = "map fl_attempted_at"] filter_cong)
qed

lemma open_rows_run:
  assumes "failed_login_attempts d = []"
  shows "open_rows name ip (fold login_event evs d) = rev (open_failures name ip (rev evs))"
proof (induction evs rule: rev_induct)
  case Nil
  then show ?case using assms by (simp add: open_rows_def)
next
  case (snoc e evs)
  then show ?case by (cases e) (simp_all add: open_rows_event del: login_event.simps)
qed

text \<open>
  The lockout is exact: after any sequence of failed logins, successful logins
  and clearings, a name is locked out for an address if and only if more than five of the
  failures of that name from that address, since the last success of both or the last
  clearing of the name, happened within the last 900 seconds; failures from other addresses
  do not count.
\<close>

theorem lockout_exact:
  assumes "failed_login_attempts d = []"
  shows "is_locked_out now name ip (fold login_event evs d) \<longleftrightarrow>
    5 < length (filter (\<lambda>t. registry_ts now - 900 \<le> t) (open_failures name ip (rev evs)))"
proof -
  have "count_recent_failures now name ip 900 (fold login_event evs d) =
      length (filter (\<lambda>t. registry_ts now - 900 \<le> t) (open_rows name ip (fold login_event evs d)))"
    by (simp add: count_recent_failures_def open_rows_def filter_map comp_def conj_ac)
  then show ?thesis
    using open_rows_run [OF assms] by (simp add: is_locked_out_def rev_filter [symmetric])
qed

theorem lockout_exact_witness:
  "is_locked_out (7 * nanos) ''a'' ''ip'' (fold login_event (map (\<lambda>k. LoginFailed (k * nanos) ''a'' ''ip'') [1..6]) demo_auth_db) \<and>
   \<not> is_locked_out (902 * nanos) ''a'' ''ip'' (fold login_event (map (\<lambda>k. LoginFailed (k * nanos) ''a'' ''ip'') [1..6]) demo_auth_db)"
proof -
  have e: "failed_login_attempts demo_auth_db = []" by (simp add: demo_auth_db_def)
  have "(5 < length (filter (\<lambda>t. registry_ts (7 * nanos) - 900 \<le> t)
      (open_failures ''a'' ''ip'' (rev (map (\<lambda>k. LoginFailed (k * nanos) ''a'' ''ip'') [1..6]))))) \<and>
       (\<not> 5 < length (filter (\<lambda>t. registry_ts (902 * nanos) - 900 \<le> t)
      (open_failures ''a'' ''ip'' (rev (map (\<lambda>k. LoginFailed (k * nanos) ''a'' ''ip'') [1..6])))))"
    by code_simp
  then show ?thesis using lockout_exact [OF e] by blast
qed

section \<open>Scoped tokens of accounts that are gone\<close>

lemma oldest_key_in: "oldest_key c = Some k \<Longrightarrow> k \<in> fst ` set c"
  by (induction c arbitrary: k rule: oldest_key.induct) (auto split: option.splits if_splits)

lemma oldest_key_None: "oldest_key c = None \<longleftrightarrow> c = []"
  by (cases c rule: oldest_key.cases) (auto split: option.splits)

definition cache_ok :: "RecheckCache \<Rightarrow> bool" where
  "cache_ok c \<longleftrightarrow> distinct (map fst c) \<and> length c \<le> MAX_ENTRIES"

lemma cache_insert_ok:
  assumes "cache_ok c"
  shows "cache_ok (cache_insert k e c)"
proof -
  let ?c = "AList.update k e c"
  have "length (AList.update k e xs) \<le> Suc (length xs)" for xs by (induction xs) auto
  then have d: "distinct (map fst ?c)" and l: "length ?c \<le> Suc (length c)"
    using assms by (simp_all add: cache_ok_def distinct_update)
  show ?thesis
  proof (cases "length ?c \<le> MAX_ENTRIES")
    case False
    then have "?c \<noteq> []" by auto
    then obtain o1 where o1: "oldest_key ?c = Some o1" using oldest_key_None [of ?c] by (cases "oldest_key ?c") auto
    then have "o1 \<in> fst ` set ?c" by (rule oldest_key_in)
    then obtain v where "(o1, v) \<in> set ?c" by auto
    then have "length (AList.delete o1 ?c) < length ?c"
      unfolding AList.delete_eq by (rule length_filter_less) simp
    then show ?thesis
      using o1 d l assms False by (simp add: cache_ok_def cache_insert_def evict_def distinct_delete)
  qed (use d in \<open>simp add: cache_ok_def cache_insert_def evict_def\<close>)
qed

lemma recheck_cache_ok: "cache_ok c \<Longrightarrow> cache_ok (snd (recheck ps now uid s c))"
  by (auto simp: recheck_def Let_def cache_insert_ok split: option.splits RecheckVerdict.splits)

definition stale :: "int \<Rightarrow> int \<Rightarrow> string \<Rightarrow> RecheckCache \<Rightarrow> bool" where
  "stale instant uid subject c =
     (case map_of c (uid, subject) of
        None \<Rightarrow> True
      | Some e \<Rightarrow> entry_ttl (ce_verdict e) \<le> instant - ce_checked_at e)"

lemma recheck_stale_invalid:
  assumes "stale i uid s c" "ps \<noteq> []" "\<And>m. consult ps s m = RecheckInvalid"
  shows "recheck ps i uid s c = (RecheckInvalid, c)"
  using assms by (auto simp: recheck_def stale_def Let_def split: option.splits)

lemma hash_gone:
  assumes "distinct (map snd rows)" "(t, h) \<in> set rows"
  shows "(x, h) \<notin> set (filter (\<lambda>(y, _). t_id y \<noteq> t_id t) rows)"
proof
  assume "(x, h) \<in> set (filter (\<lambda>(y, _). t_id y \<noteq> t_id t) rows)"
  then have "(x, h) \<in> set rows" "t_id x \<noteq> t_id t" by auto
  moreover have "inj_on snd (set rows)" using assms(1) by (simp add: distinct_map)
  ultimately show False using assms(2) inj_onD [of snd "set rows" "(x, h)" "(t, h)"] by auto
qed

text \<open>
  A scoped token does not survive its account: once the last verdict is older
  than its lifetime (60 seconds after a good check) and the directory answers that the
  account is invalid, the next use of the token is refused, its row is deleted and an audit
  entry is written, and every later use of the same token is refused as unknown.
\<close>

theorem scoped_token_dies_with_account:
  assumes "token_scan env now token d = Inr (u, t)" "t_token_type t = ''scoped''"
    and "distinct (map snd (user_api_tokens d))" "stale i (t_user_id t) (u_email u) c"
    and "ps \<noteq> []" "\<And>m. consult ps (u_email u) m = RecheckInvalid"
    and "validate_user_token env ps now i token (d, c) = (r, d', c')"
  shows "r = Inl AccountRevalidationFailed \<and> length (token_audit_log d') = length (token_audit_log d) + 1 \<and>
    fst (validate_user_token env ps' now' i' token (d', c'')) = Inl InvalidKey"
proof -
  have d': "r = Inl AccountRevalidationFailed" "d' = token_reject now u t d"
    using assms(1,2,7) recheck_stale_invalid [OF assms(4-6)] by (simp_all add: validate_user_token_def)
  have rows: "user_api_tokens d' = filter (\<lambda>(y, _). t_id y \<noteq> t_id t) (user_api_tokens d)"
    unfolding d' by (simp add: token_reject_def log_token_event_def delete_tokens_def case_prod_beta)
  have "(x, hash_key (env_crypto env) token) \<notin> set (user_api_tokens d')" for x
    using hash_gone [OF assms(3) token_scan_Inr(5) [OF assms(1)]] unfolding rows .
  then have "find (\<lambda>(_, _, h). hash_key (env_crypto env) token = h) (token_users d') = None"
    by (intro find_none) (auto simp: token_users_def)
  then have "token_scan env now' token d' = Inl InvalidKey" by (simp add: token_scan_def)
  then show ?thesis
    using d' by (simp add: validate_user_token_def token_reject_def log_token_event_def delete_tokens_def)
qed

definition demo_token_db :: AuthDb where
  "demo_token_db = snd (create_scoped_user_token (env_crypto demo_env) 0 ''k'' 7 ''desktop'' None None demo_auth_db)"

theorem scoped_token_dies_with_account_witness:
  "\<exists>d' c'. validate_user_token demo_env [\<lambda>_ _. RecheckInvalid] 5 0 ''rgu_k'' (demo_token_db, []) =
      (Inl AccountRevalidationFailed, d', c') \<and>
    fst (validate_user_token demo_env [] 6 1 ''rgu_k'' (d', c')) = Inl InvalidKey"
proof -
  let ?t = "\<lparr>t_id = 1, t_user_id = 7, t_name = ''desktop'', t_max_role = None, t_expires_at = None,
     t_token_type = ''scoped'', t_disabled = False, t_created_at = 0, t_last_used_at = None\<rparr>"
  obtain r d' c' where v: "validate_user_token demo_env [\<lambda>_ _. RecheckInvalid] 5 0 ''rgu_k'' (demo_token_db, []) = (r, d', c')"
    by (metis prod_cases3)
  have "token_scan demo_env 5 ''rgu_k'' demo_token_db = Inr (demo_user, ?t)" by code_simp
  moreover have "distinct (map snd (user_api_tokens demo_token_db))" by code_simp
  ultimately show ?thesis
    using scoped_token_dies_with_account [of demo_env 5 "''rgu_k''" demo_token_db demo_user ?t 0 "[]"
        "[\<lambda>_ _. RecheckInvalid]" r d' c' "[]" 6 1 c'] v
    by (auto simp: stale_def)
qed

text \<open>A token revoked while its account is re-checked is not accepted any more.\<close>

lemma token_revoked_during_recheck:
  "fst (token_stamp now u t (snd (admin_revoke_user_token (t_id t) d))) = Inl InvalidKey"
  by (auto simp: token_stamp_def admin_revoke_user_token_def delete_tokens_def list_ex_iff)

section \<open>The cleanup of expired tokens\<close>

text \<open>
  The cleanup compares the stored text with the text of the current time. A token that
  expires on a date is deleted from the first second of that day on, although it is valid
  until the last.
\<close>

lemma text_le_prefix: "text_le s (s @ t)"
  by (induction s) auto

lemma cleanup_deletes_valid_token:
  "let d = snd (create_user_token (env_crypto demo_env) 0 ''k'' 7 ''cli'' None (Some ''1970-01-02'') demo_auth_db);
       now = 86400 * nanos
   in is_ok (token_scan demo_env (now + 86399 * nanos) ''rgu_k'' d) \<and>
      user_api_tokens (snd (cleanup_expired_user_tokens ''1970-01-02 00:00:00'' d)) = []"
  by code_simp

end
