(* ===== verification/Identity.thy ===== *)
theory Identity
  imports Auth_Store
begin

text \<open>
  Roles and their order (\<open>src/src/role.rs\<close>), and the identity of an authenticated caller with
  the role guard of the handlers (\<open>AuthIdentity\<close>, \<open>require_role\<close>, \<open>compute_effective_role\<close> and
  the compliance gates of \<open>src/src/auth.rs\<close>).
\<close>

section \<open>Roles\<close>

definition VALID_ROLES :: "string list" where
  "VALID_ROLES = [''admin'', ''poweruser'', ''operator'', ''viewer'']"

datatype Role = Admin | PowerUser | Operator | Viewer

fun level :: "Role \<Rightarrow> nat" where
  "level Admin = 4"
| "level PowerUser = 3"
| "level Operator = 2"
| "level Viewer = 1"

fun show_role :: "Role \<Rightarrow> string" where
  "show_role Admin = ''admin''"
| "show_role PowerUser = ''poweruser''"
| "show_role Operator = ''operator''"
| "show_role Viewer = ''viewer''"

definition role_from_str :: "string \<Rightarrow> (Role, string) result" where
  "role_from_str s =
     (if s = ''admin'' then Inr Admin
      else if s = ''poweruser'' then Inr PowerUser
      else if s = ''operator'' then Inr Operator
      else if s = ''viewer'' then Inr Viewer
      else Inl (''unknown role: '' @ s))"

definition role_level :: "string \<Rightarrow> nat" where
  "role_level role = (case role_from_str role of Inr r \<Rightarrow> level r | Inl _ \<Rightarrow> 0)"

definition role_is_valid :: "string \<Rightarrow> bool" where
  "role_is_valid s = (case role_from_str s of Inr _ \<Rightarrow> True | Inl _ \<Rightarrow> False)"

definition is_valid_role :: "string \<Rightarrow> bool" where
  "is_valid_role role = (role \<in> set VALID_ROLES)"

lemma role_roundtrip: "role_from_str (show_role r) = Inr r"
  by (cases r) (simp_all add: role_from_str_def)

lemma role_is_valid_iff: "role_is_valid s \<longleftrightarrow> is_valid_role s"
  by (auto simp: role_is_valid_def role_from_str_def is_valid_role_def VALID_ROLES_def)

lemma role_level_positive: "0 < role_level s \<longleftrightarrow> is_valid_role s"
  by (auto simp: role_level_def role_from_str_def is_valid_role_def VALID_ROLES_def)

lemma level_inj: "level r = level r' \<longleftrightarrow> r = r'"
  by (cases r; cases r') simp_all

section \<open>Identities\<close>

datatype AuthIdentity =
    ApiKey string
  | UserId (id_email: string) (id_name: string) (id_role: string) (id_groups: "string list")

fun display_name :: "AuthIdentity \<Rightarrow> string" where
  "display_name (ApiKey name) = name"
| "display_name (UserId email name _ _) = (if name = [] then email else name)"

fun identity_role :: "AuthIdentity \<Rightarrow> string" where
  "identity_role (ApiKey _) = ''admin''"
| "identity_role (UserId _ _ role _) = role"

fun identity_groups :: "AuthIdentity \<Rightarrow> string list" where
  "identity_groups (ApiKey _) = []"
| "identity_groups (UserId _ _ _ groups) = groups"

definition has_role :: "AuthIdentity \<Rightarrow> string \<Rightarrow> bool" where
  "has_role ident min_role = (role_level min_role \<le> role_level (identity_role ident))"

definition require_role :: "AuthIdentity option \<Rightarrow> string \<Rightarrow> (AuthIdentity, AppError) result" where
  "require_role identity role =
     (case identity of
        Some ident \<Rightarrow> if has_role ident role then Inr ident else Inl (AppForbidden (role @ '' role required''))
      | None \<Rightarrow> Inl (AppForbidden ''authentication required''))"

definition compute_effective_role :: "string \<Rightarrow> string option \<Rightarrow> string" where
  "compute_effective_role user_role max_role =
     (case max_role of
        Some m \<Rightarrow> if role_level m < role_level user_role then m else user_role
      | None \<Rightarrow> user_role)"

lemma effective_role_min:
  "role_level (compute_effective_role r m) = (case m of None \<Rightarrow> role_level r | Some c \<Rightarrow> min (role_level c) (role_level r))"
  by (auto simp: compute_effective_role_def split: option.splits)

definition admin_api_key_allowed :: "bool \<Rightarrow> bool" where
  "admin_api_key_allowed compliance_mode = (\<not> compliance_mode)"

definition user_token_allowed :: "bool \<Rightarrow> string \<Rightarrow> bool" where
  "user_token_allowed compliance_mode token_type = (\<not> compliance_mode \<or> token_type = ''scoped'')"

end
