(* ===== verification/Ws_Tickets.thy ===== *)
theory Ws_Tickets
  imports Identity
begin

text \<open>
  WebSocket tickets (\<open>WsTicketStore\<close> of \<open>src/src/auth.rs\<close> with the \<open>ws_tickets\<close> table of
  \<open>src/src/db.rs\<close>): single-use credentials of thirty seconds that stand in for an identity in
  a WebSocket URL. Every instance has a map of its own tickets; with a shared backend the
  hash of a ticket is also in a table all instances see. The theory ends with runs of a fleet
  of instances.
\<close>

section \<open>The store\<close>

definition WS_TICKET_TTL_SECS :: int where
  "WS_TICKET_TTL_SECS = 30"

record WsTicket =
  wt_identity :: AuthIdentity
  wt_created :: int

type_synonym TicketMap = "(string \<times> WsTicket) list"

text \<open>
  A row of the table. The identity is stored as its JSON text, which reads back as the
  identity it was written from, so the row holds the identity itself. The hash is the
  primary key.
\<close>

record WsTicketRow =
  wr_hash :: string
  wr_identity :: AuthIdentity
  wr_session_id :: "string option"
  wr_issued_by :: string
  wr_expires_at :: RegistryTs

definition ticket_hash :: "Crypto \<Rightarrow> string \<Rightarrow> string" where
  "ticket_hash cr ticket = hex_encode cr (sha256 cr ticket)"

definition ws_ticket_insert ::
    "string \<Rightarrow> AuthIdentity \<Rightarrow> string option \<Rightarrow> string \<Rightarrow> RegistryTs \<Rightarrow> WsTicketRow list \<Rightarrow> WsTicketRow list" where
  "ws_ticket_insert h ident session_id issuer expiry rows =
     (if list_ex (\<lambda>r. wr_hash r = h) rows then rows
      else rows @ [\<lparr>wr_hash = h, wr_identity = ident, wr_session_id = session_id, wr_issued_by = issuer,
                    wr_expires_at = expiry\<rparr>])"

definition ws_ticket_get :: "string \<Rightarrow> WsTicketRow list \<Rightarrow> (AuthIdentity \<times> RegistryTs) option" where
  "ws_ticket_get h rows = map_option (\<lambda>r. (wr_identity r, wr_expires_at r)) (find (\<lambda>r. wr_hash r = h) rows)"

definition ws_ticket_delete :: "string \<Rightarrow> WsTicketRow list \<Rightarrow> bool \<times> WsTicketRow list" where
  "ws_ticket_delete h rows = (list_ex (\<lambda>r. wr_hash r = h) rows, filter (\<lambda>r. wr_hash r \<noteq> h) rows)"

definition ws_ticket_cleanup_expired :: "RegistryTs \<Rightarrow> WsTicketRow list \<Rightarrow> nat \<times> WsTicketRow list" where
  "ws_ticket_cleanup_expired cutoff rows =
     (length (filter (\<lambda>r. wr_expires_at r < cutoff) rows), filter (\<lambda>r. cutoff \<le> wr_expires_at r) rows)"

text \<open>
  The clocks and the outcomes of the database calls of one operation: \<open>instant\<close> is the
  monotonic clock of the instance and \<open>now\<close> the time of day, both in nanoseconds, \<open>stored\<close>,
  \<open>fetched\<close> and \<open>deleted\<close> say which calls reach the backend.
\<close>

record TicketIo =
  instant :: int
  now_utc :: DateTime
  stored :: bool
  fetched :: bool
  deleted :: bool

text \<open>The shared table is \<open>None\<close> when no shared backend is active.\<close>

type_synonym WsTicketStore = "TicketMap \<times> WsTicketRow list option"

definition ticket_create :: "Crypto \<Rightarrow> TicketIo \<Rightarrow> string \<Rightarrow> AuthIdentity \<Rightarrow> WsTicketStore \<Rightarrow> WsTicketStore" where
  "ticket_create cr io ticket ident st =
     (case st of (mine, shared) \<Rightarrow>
        (AList.update ticket \<lparr>wt_identity = ident, wt_created = instant io\<rparr>
           (filter (\<lambda>(_, t). instant io - WS_TICKET_TTL_SECS * nanos < wt_created t) mine),
         map_option (\<lambda>rows. if stored io
           then ws_ticket_insert (ticket_hash cr ticket) ident None (display_name ident)
                  (registry_ts (now_utc io + WS_TICKET_TTL_SECS * nanos)) rows
           else rows) shared))"

definition consume_local :: "int \<Rightarrow> string \<Rightarrow> TicketMap \<Rightarrow> AuthIdentity option \<times> TicketMap" where
  "consume_local inst ticket mine =
     (case map_of mine ticket of
        Some t \<Rightarrow>
          (if (inst - wt_created t) div nanos \<le> WS_TICKET_TTL_SECS then Some (wt_identity t) else None,
           AList.delete ticket mine)
      | None \<Rightarrow> (None, mine))"

definition consume_shared :: "Crypto \<Rightarrow> TicketIo \<Rightarrow> string \<Rightarrow> WsTicketRow list \<Rightarrow> AuthIdentity option \<times> WsTicketRow list" where
  "consume_shared cr io ticket rows =
     (let h = ticket_hash cr ticket
      in case (if fetched io then ws_ticket_get h rows else None) of
           None \<Rightarrow> (None, rows)
         | Some (ident, expiry) \<Rightarrow>
             (if now_utc io < expiry * nanos then Some ident else None,
              if deleted io then snd (ws_ticket_delete h rows) else rows))"

definition ticket_consume :: "Crypto \<Rightarrow> TicketIo \<Rightarrow> string \<Rightarrow> WsTicketStore \<Rightarrow> AuthIdentity option \<times> WsTicketStore" where
  "ticket_consume cr io ticket st =
     (case st of (mine, shared) \<Rightarrow>
        (case consume_local (instant io) ticket mine of
           (Some ident, mine') \<Rightarrow>
             (Some ident, mine', map_option (\<lambda>rows.
                if deleted io then snd (ws_ticket_delete (ticket_hash cr ticket) rows) else rows) shared)
         | (None, mine') \<Rightarrow>
             (case shared of
                None \<Rightarrow> (None, mine', None)
              | Some rows \<Rightarrow> (case consume_shared cr io ticket rows of (r, rows') \<Rightarrow> (r, mine', Some rows')))))"

definition ticket_forward :: "Crypto \<Rightarrow> TicketIo \<Rightarrow> string \<Rightarrow> AuthIdentity \<Rightarrow> WsTicketStore \<Rightarrow> WsTicketStore" where
  "ticket_forward cr io fresh ident st = ticket_create cr io fresh ident st"

section \<open>Runs of a fleet\<close>

text \<open>
  The instances of a fleet, numbered; the operations of an instance on its own map and on the
  shared table; the periodic cleanup.
\<close>

datatype TicketOp =
    Mint nat TicketIo string AuthIdentity
  | Redeem nat TicketIo string
  | Sweep RegistryTs

type_synonym Fleet = "(nat \<Rightarrow> TicketMap) \<times> WsTicketRow list option"

definition fleet_new :: "bool \<Rightarrow> Fleet" where
  "fleet_new ha = (\<lambda>_. [], if ha then Some [] else None)"

fun ticket_op :: "Crypto \<Rightarrow> TicketOp \<Rightarrow> Fleet \<Rightarrow> AuthIdentity option \<times> Fleet" where
  "ticket_op cr (Mint i io ticket ident) (maps, shared) =
     (case ticket_create cr io ticket ident (maps i, shared) of (mine, shared') \<Rightarrow> (None, maps(i := mine), shared'))"
| "ticket_op cr (Redeem i io ticket) (maps, shared) =
     (case ticket_consume cr io ticket (maps i, shared) of (r, mine, shared') \<Rightarrow> (r, maps(i := mine), shared'))"
| "ticket_op cr (Sweep cutoff) (maps, shared) =
     (None, maps, map_option (\<lambda>rows. snd (ws_ticket_cleanup_expired cutoff rows)) shared)"

fun ticket_run :: "Crypto \<Rightarrow> TicketOp list \<Rightarrow> Fleet \<Rightarrow> AuthIdentity option list \<times> Fleet" where
  "ticket_run cr [] f = ([], f)"
| "ticket_run cr (op # ops) f =
     (case ticket_op cr op f of (r, f') \<Rightarrow> (case ticket_run cr ops f' of (rs, f'') \<Rightarrow> (r # rs, f'')))"

section \<open>Where an accepted ticket comes from\<close>

text \<open>The entry of a map, and the row of the table, that an operation \<open>Mint\<close> left behind.\<close>

definition minted_here :: "TicketOp list \<Rightarrow> nat \<Rightarrow> string \<times> WsTicket \<Rightarrow> bool" where
  "minted_here ops i e \<longleftrightarrow> (\<exists>io. Mint i io (fst e) (wt_identity (snd e)) \<in> set ops \<and> instant io = wt_created (snd e))"

definition minted_row :: "Crypto \<Rightarrow> TicketOp list \<Rightarrow> WsTicketRow \<Rightarrow> bool" where
  "minted_row cr ops r \<longleftrightarrow>
     (\<exists>j io t. Mint j io t (wr_identity r) \<in> set ops \<and> stored io \<and> ticket_hash cr t = wr_hash r \<and>
        wr_expires_at r = registry_ts (now_utc io + WS_TICKET_TTL_SECS * nanos))"

definition provenance :: "Crypto \<Rightarrow> TicketOp list \<Rightarrow> Fleet \<Rightarrow> bool" where
  "provenance cr ops f \<longleftrightarrow>
     (\<forall>i. \<forall>e \<in> set (fst f i). minted_here ops i e) \<and>
     (\<forall>rows. snd f = Some rows \<longrightarrow> (\<forall>r \<in> set rows. minted_row cr ops r))"

lemma set_update_subset: "set (AList.update k v xs) \<subseteq> insert (k, v) (set xs)"
  by (induction xs) auto

lemma set_delete_subset: "set (AList.delete k xs) \<subseteq> set xs"
  by (auto simp: AList.delete_eq)

lemma minted_mono:
  "minted_here ops i e \<Longrightarrow> minted_here (ops @ later) i e"
  "minted_row cr ops r \<Longrightarrow> minted_row cr (ops @ later) r"
  by (auto simp: minted_here_def minted_row_def)

lemma consume_local_subset: "set (snd (consume_local inst t mine)) \<subseteq> set mine"
  using set_delete_subset by (fastforce simp: consume_local_def split: option.splits)

lemma consume_shared_subset: "set (snd (consume_shared cr io t rows)) \<subseteq> set rows"
  by (auto simp: consume_shared_def ws_ticket_delete_def Let_def split: option.splits if_splits)

lemma ticket_consume_subset:
  assumes "ticket_consume cr io t (mine, shared) = (r, mine', shared')"
  shows "set mine' \<subseteq> set mine" "\<And>rows'. shared' = Some rows' \<Longrightarrow> \<exists>rows. shared = Some rows \<and> set rows' \<subseteq> set rows"
  using assms consume_local_subset [of "instant io" t mine] consume_shared_subset [of cr io t]
  by (fastforce simp: ticket_consume_def ws_ticket_delete_def split: prod.splits option.splits if_splits)+

lemma ticket_create_subset:
  assumes "ticket_create cr io t ident (mine, shared) = (mine', shared')"
  shows "set mine' \<subseteq> insert (t, \<lparr>wt_identity = ident, wt_created = instant io\<rparr>) (set mine)"
    and "shared' = Some rows' \<Longrightarrow> \<exists>rows. shared = Some rows \<and> (\<forall>r \<in> set rows'. r \<in> set rows \<or>
      stored io \<and> wr_hash r = ticket_hash cr t \<and> wr_identity r = ident \<and>
      wr_expires_at r = registry_ts (now_utc io + WS_TICKET_TTL_SECS * nanos))"
proof -
  show "set mine' \<subseteq> insert (t, \<lparr>wt_identity = ident, wt_created = instant io\<rparr>) (set mine)"
    using assms set_update_subset by (fastforce simp: ticket_create_def)
  show "shared' = Some rows' \<Longrightarrow> \<exists>rows. shared = Some rows \<and> (\<forall>r \<in> set rows'. r \<in> set rows \<or>
      stored io \<and> wr_hash r = ticket_hash cr t \<and> wr_identity r = ident \<and>
      wr_expires_at r = registry_ts (now_utc io + WS_TICKET_TTL_SECS * nanos))"
    using assms by (auto simp: ticket_create_def ws_ticket_insert_def split: if_splits)
qed

lemma provenance_op:
  assumes "provenance cr ops f"
  shows "provenance cr (ops @ [op]) (snd (ticket_op cr op f))"
proof (cases f)
  case (Pair maps shared)
  have old: "minted_here (ops @ [op]) i e" if "e \<in> set (maps i)" for i e
    using assms that Pair by (simp add: provenance_def minted_mono)
  have row: "minted_row cr (ops @ [op]) r" if "shared = Some rows" "r \<in> set rows" for r rows
    using assms that Pair by (simp add: provenance_def minted_mono)
  show ?thesis
  proof (cases op)
    case (Mint i io t ident)
    obtain mine' shared' where c: "ticket_create cr io t ident (maps i, shared) = (mine', shared')" by fastforce
    have "minted_here (ops @ [op]) i (t, \<lparr>wt_identity = ident, wt_created = instant io\<rparr>)"
      by (auto simp: Mint minted_here_def)
    then have "\<forall>e \<in> set mine'. minted_here (ops @ [op]) i e" using ticket_create_subset(1) [OF c] old by blast
    moreover have "minted_row cr (ops @ [op]) r" if s: "shared' = Some rows'" and r: "r \<in> set rows'" for r rows'
    proof -
      from ticket_create_subset(2) [OF c s] r obtain rows where "shared = Some rows" "r \<in> set rows \<or>
          stored io \<and> wr_hash r = ticket_hash cr t \<and> wr_identity r = ident \<and>
          wr_expires_at r = registry_ts (now_utc io + WS_TICKET_TTL_SECS * nanos)" by blast
      then show ?thesis using row unfolding Mint minted_row_def set_append by (metis UnI2 list.set_intros(1))
    qed
    ultimately show ?thesis using old by (simp add: Pair Mint c provenance_def)
  next
    case (Redeem i io t)
    obtain r mine' shared' where c: "ticket_consume cr io t (maps i, shared) = (r, mine', shared')"
      by (metis prod_cases3)
    have "\<forall>e \<in> set mine'. minted_here (ops @ [op]) i e" using ticket_consume_subset(1) [OF c] old by blast
    moreover have "\<forall>r \<in> set rows'. minted_row cr (ops @ [op]) r" if "shared' = Some rows'" for rows'
      using ticket_consume_subset(2) [OF c that] row by blast
    ultimately show ?thesis using old by (simp add: Pair Redeem c provenance_def)
  qed (use old row Pair in \<open>auto simp: provenance_def ws_ticket_cleanup_expired_def\<close>)
qed

lemma provenance_run:
  "provenance cr past f \<Longrightarrow> provenance cr (past @ ops) (snd (ticket_run cr ops f))"
proof (induction ops arbitrary: past f)
  case (Cons op ops)
  obtain r f' where "ticket_op cr op f = (r, f')" by (meson surj_pair)
  with Cons.IH [OF provenance_op [OF Cons.prems, of op]] show ?case by (cases "ticket_run cr ops f'") simp
qed simp


lemma provenance_new: "provenance cr [] (fleet_new ha)"
  by (simp add: provenance_def fleet_new_def)

lemma consume_local_Some:
  "consume_local inst t mine = (Some ident, mine') \<Longrightarrow>
     \<exists>e. (t, e) \<in> set mine \<and> wt_identity e = ident \<and> (inst - wt_created e) div nanos \<le> 30"
  by (auto simp: consume_local_def WS_TICKET_TTL_SECS_def dest: map_of_SomeD split: option.splits if_splits)

lemma consume_shared_Some:
  "consume_shared cr io t rows = (Some ident, rows') \<Longrightarrow>
     \<exists>r \<in> set rows. wr_hash r = ticket_hash cr t \<and> wr_identity r = ident \<and> now_utc io < wr_expires_at r * nanos"
  by (auto simp: consume_shared_def ws_ticket_get_def Let_def dest!: find_SomeD split: option.splits if_splits)

text \<open>
  Claim C28. Whoever redeems a ticket is who it was minted for, and not for long: whatever the
  instances of a fleet did before, if an instance accepts a ticket with some identity then a
  ticket of that hash was minted for exactly that identity, either on this instance less than
  31 seconds of its clock ago, or on any instance that stored it in the shared table less
  than 30 seconds of wall-clock time ago.
\<close>

theorem ticket_redeems_its_identity:
  assumes "ticket_run cr ops (fleet_new ha) = (rs, f)" "ticket_op cr (Redeem i io t) f = (Some ident, f')"
  shows "\<exists>j io' t'. Mint j io' t' ident \<in> set ops \<and> ticket_hash cr t' = ticket_hash cr t \<and>
     (j = i \<and> t' = t \<and> instant io - instant io' < 31 * nanos \<or>
      stored io' \<and> now_utc io < now_utc io' + 30 * nanos)"
proof -
  obtain maps shared where f: "f = (maps, shared)" by fastforce
  have prov: "provenance cr ops f" using provenance_run [OF provenance_new, of cr ops ha] assms(1) by simp
  from assms(2) f consider
      mine' where "consume_local (instant io) t (maps i) = (Some ident, mine')"
    | rows rows' where "shared = Some rows" "consume_shared cr io t rows = (Some ident, rows')"
    by (auto simp: ticket_consume_def split: prod.splits option.splits)
  then show ?thesis
  proof cases
    case 1
    then obtain e where "(t, e) \<in> set (maps i)" "wt_identity e = ident" "(instant io - wt_created e) div nanos \<le> 30"
      using consume_local_Some by blast
    moreover from this(3) have "instant io - wt_created e < 31 * nanos" by (simp add: nanos_def)
    ultimately show ?thesis using prov f by (fastforce simp: provenance_def minted_here_def)
  next
    case 2
    then obtain r where "r \<in> set rows" "wr_hash r = ticket_hash cr t" "wr_identity r = ident"
        "now_utc io < wr_expires_at r * nanos"
      using consume_shared_Some by blast
    moreover have "registry_ts x * nanos \<le> x" for x by (simp add: registry_ts_def nanos_def)
    ultimately show ?thesis using prov f 2(1)
      by (fastforce simp: provenance_def minted_row_def WS_TICKET_TTL_SECS_def intro: less_le_trans)
  qed
qed

section \<open>Single use\<close>

definition present :: "Crypto \<Rightarrow> nat \<Rightarrow> string \<Rightarrow> Fleet \<Rightarrow> bool" where
  "present cr i t f \<longleftrightarrow> t \<in> fst ` set (fst f i) \<or>
     (case snd f of None \<Rightarrow> False | Some rows \<Rightarrow> ticket_hash cr t \<in> wr_hash ` set rows)"

fun mints :: "string \<Rightarrow> TicketOp \<Rightarrow> bool" where
  "mints t (Mint _ _ t' _) = (t' = t)"
| "mints t _ = False"

fun redeems :: "string \<Rightarrow> TicketOp \<Rightarrow> bool" where
  "redeems t (Redeem _ _ t') = (t' = t)"
| "redeems t _ = False"

text \<open>
  An operation on one instance in which the backend is told about deletions, and which mints
  no other ticket with the hash of the given one.
\<close>

fun orderly :: "Crypto \<Rightarrow> nat \<Rightarrow> string \<Rightarrow> TicketOp \<Rightarrow> bool" where
  "orderly cr i t (Mint j _ t' _) = (j = i \<and> (ticket_hash cr t' = ticket_hash cr t \<longrightarrow> t' = t))"
| "orderly cr i t (Redeem j io _) = (j = i \<and> deleted io)"
| "orderly cr i t (Sweep _) = True"

lemma delete_key_gone: "t \<notin> fst ` set (AList.delete t xs)"
  by (auto simp: AList.delete_eq)

lemma present_iff:
  "present cr i t (maps, None) \<longleftrightarrow> t \<in> fst ` set (maps i)"
  "present cr i t (maps, Some rows) \<longleftrightarrow> t \<in> fst ` set (maps i) \<or> (\<exists>r \<in> set rows. wr_hash r = ticket_hash cr t)"
  by (auto simp: present_def image_iff eq_commute)

lemma redeem_success_removes:
  assumes "ticket_op cr (Redeem i io t) (maps, shared) = (Some ident, f')" "deleted io"
  shows "present cr i t (maps, shared) \<and> \<not> present cr i t f'"
proof -
  obtain r mine' where l: "consume_local (instant io) t (maps i) = (r, mine')" by fastforce
  have gone: "t \<notin> fst ` set mine'"
    using l delete_key_gone [of t "maps i"]
    by (auto simp del: set_map simp: consume_local_def map_of_eq_None_iff simp flip: set_map split: option.splits)
  show ?thesis
  proof (cases r)
    case (Some ident')
    then have "t \<in> fst ` set (maps i)" using consume_local_Some l by force
    moreover have "f' = (maps(i := mine'), map_option (\<lambda>rows. filter (\<lambda>r. wr_hash r \<noteq> ticket_hash cr t) rows) shared)"
      using assms Some l by (auto simp: ticket_consume_def ws_ticket_delete_def)
    ultimately show ?thesis using gone by (cases shared) (auto simp: present_iff)
  next
    case None
    with assms l obtain rows rows' where s: "shared = Some rows" "consume_shared cr io t rows = (Some ident, rows')"
        "f' = (maps(i := mine'), Some rows')"
      by (auto simp: ticket_consume_def split: option.splits prod.splits)
    then have "rows' = filter (\<lambda>r. wr_hash r \<noteq> ticket_hash cr t) rows"
      using assms(2) by (auto simp: consume_shared_def ws_ticket_delete_def Let_def split: option.splits)
    then show ?thesis using gone consume_shared_Some [OF s(2)] s by (auto simp: present_iff)
  qed
qed

lemma present_op:
  assumes "orderly cr i t op" "\<not> mints t op" "present cr i t (snd (ticket_op cr op (maps, shared)))"
  shows "present cr i t (maps, shared)"
proof (cases op)
  case (Mint j io t' ident)
  obtain mine' shared' where c: "ticket_create cr io t' ident (maps j, shared) = (mine', shared')" by fastforce
  then have after: "present cr i t (maps(i := mine'), shared')" using assms(1,3) Mint by simp
  have "t \<in> fst ` set mine' \<Longrightarrow> t \<in> fst ` set (maps i)"
    using ticket_create_subset(1) [OF c] assms(1,2) Mint by auto
  then show ?thesis
    using after ticket_create_subset(2) [OF c] assms(1,2) Mint
    by (cases shared'; cases shared) (simp_all add: present_iff, metis)
next
  case (Redeem j io t')
  obtain r mine' shared' where c: "ticket_consume cr io t' (maps j, shared) = (r, mine', shared')"
    by (metis prod_cases3)
  then have after: "present cr i t (maps(i := mine'), shared')" using assms(1,3) Redeem by simp
  have "t \<in> fst ` set mine' \<Longrightarrow> t \<in> fst ` set (maps i)"
    using ticket_consume_subset(1) [OF c] assms(1) Redeem by auto
  then show ?thesis
    using after ticket_consume_subset(2) [OF c]
    by (cases shared'; cases shared) (simp_all add: present_iff, blast)
next
  case (Sweep cutoff)
  then show ?thesis using assms(3) by (cases shared) (auto simp: present_iff ws_ticket_cleanup_expired_def)
qed

definition redeemed :: "string \<Rightarrow> TicketOp list \<Rightarrow> AuthIdentity option list \<Rightarrow> nat" where
  "redeemed t ops rs = length (filter (\<lambda>(op, r). redeems t op \<and> r \<noteq> None) (zip ops rs))"

lemma redeemed_bound:
  "list_all (orderly cr i t) ops \<Longrightarrow> ticket_run cr ops f = (rs, f') \<Longrightarrow>
     redeemed t ops rs \<le> length (filter (mints t) ops) + (if present cr i t f then 1 else 0)"
proof (induction ops arbitrary: f rs f')
  case (Cons op ops)
  obtain r f1 where step: "ticket_op cr op f = (r, f1)" by (meson surj_pair)
  obtain rs' f2 where run: "ticket_run cr ops f1 = (rs', f2)" by (meson surj_pair)
  have rs: "rs = r # rs'" using Cons.prems(2) step run by simp
  have IH: "redeemed t ops rs' \<le> length (filter (mints t) ops) + (if present cr i t f1 then 1 else 0)"
    using Cons.IH [of f1 rs' f2] Cons.prems(1) run by simp
  have keep: "present cr i t f1 \<Longrightarrow> \<not> mints t op \<Longrightarrow> present cr i t f"
    using present_op [of cr i t op "fst f" "snd f"] Cons.prems(1) step by simp
  show ?case
  proof (cases "redeems t op \<and> r \<noteq> None")
    case True
    then obtain io ident where "op = Redeem i io t" "deleted io" "r = Some ident"
      using Cons.prems(1) by (cases op) auto
    then show ?thesis using redeem_success_removes [of cr i io t "fst f" "snd f" ident f1] step IH rs
      by (simp add: redeemed_def)
  next
    case False
    then show ?thesis using IH keep rs by (auto simp: redeemed_def split: if_splits)
  qed
qed (simp add: redeemed_def)



definition demo_io :: "int \<Rightarrow> TicketIo" where
  "demo_io secs = \<lparr>instant = secs * nanos, now_utc = (1000 + secs) * nanos, stored = True, fetched = True, deleted = True\<rparr>"

abbreviation demo_alice :: AuthIdentity where
  "demo_alice \<equiv> UserId ''a@x'' ''Alice'' ''operator'' []"

definition demo_ticket_ops :: "TicketOp list" where
  "demo_ticket_ops = [Mint 0 (demo_io 0) ''wst_1'' demo_alice, Redeem 0 (demo_io 5) ''wst_1'', Redeem 0 (demo_io 6) ''wst_1'']"

theorem ticket_redeems_its_identity_witness:
  "\<exists>io'. Mint 0 io' ''wst_1'' demo_alice \<in> set [Mint 0 (demo_io 0) ''wst_1'' demo_alice] \<and>
     (instant (demo_io 5) - instant io' < 31 * nanos \<or> now_utc (demo_io 5) < now_utc io' + 30 * nanos)"
proof -
  let ?cr = "env_crypto demo_env" let ?ops = "[Mint 0 (demo_io 0) ''wst_1'' demo_alice]"
  obtain rs f where f: "ticket_run ?cr ?ops (fleet_new True) = (rs, f)" by (meson surj_pair)
  have "fst (ticket_op ?cr (Redeem 1 (demo_io 5) ''wst_1'') (snd (ticket_run ?cr ?ops (fleet_new True)))) = Some demo_alice"
    by code_simp
  then obtain f' where "ticket_op ?cr (Redeem 1 (demo_io 5) ''wst_1'') f = (Some demo_alice, f')"
    using f by (metis fst_conv snd_conv surj_pair)
  from ticket_redeems_its_identity [OF f this] show ?thesis by auto
qed


text \<open>
  Across instances it is not: a ticket that another instance redeemed from the shared table is
  still in the map of the instance that minted it, and is accepted there once more.
\<close>

lemma ticket_replayed_on_issuer:
  "fst (ticket_run (env_crypto demo_env)
     [Mint 0 (demo_io 0) ''wst_1'' demo_alice, Redeem 1 (demo_io 5) ''wst_1'', Redeem 0 (demo_io 6) ''wst_1''] (fleet_new True)) =
   [None, Some demo_alice, Some demo_alice]"
  by code_simp

end
