(* ===== verification/Http_Request.thy ===== *)
theory Http_Request
  imports Auth_Store
begin

text \<open>
  What the authentication middlewares read of a request (\<open>src/src/auth.rs\<close>): the client address
  behind trusted proxies, with the standard library's parser of addresses, cookies, and the
  query parameter of a ticket. A request gives the text of its headers; a header value that
  is not text is one that is not there.
\<close>

section \<open>Requests\<close>

record Request =
  peer_ip :: IpAddr
  header :: "string \<Rightarrow> string option"
  header_all :: "string \<Rightarrow> string list"
  path :: string
  query :: "string option"

section \<open>Addresses\<close>

text \<open>
  The parser of \<open>core::net\<close>. A number is a maximal run of digits, of bounded length; \<open>None\<close> is
  failure, and the rest of the input comes with the result.
\<close>

definition to_digit :: "nat \<Rightarrow> char \<Rightarrow> nat option" where
  "to_digit radix c =
     (let d = (if is_ascii_digit c then byte c - 48
               else if 97 \<le> byte c \<and> byte c \<le> 122 then byte c - 87
               else if 65 \<le> byte c \<and> byte c \<le> 90 then byte c - 55 else 36)
      in if d < radix then Some d else None)"

fun read_digits :: "nat \<Rightarrow> string \<Rightarrow> nat list \<times> string" where
  "read_digits radix [] = ([], [])"
| "read_digits radix (c # s) =
     (case to_digit radix c of
        None \<Rightarrow> ([], c # s)
      | Some d \<Rightarrow> (case read_digits radix s of (ds, r) \<Rightarrow> (d # ds, r)))"

definition read_number :: "nat \<Rightarrow> nat \<Rightarrow> bool \<Rightarrow> nat \<Rightarrow> string \<Rightarrow> (nat \<times> string) option" where
  "read_number radix max_digits allow_zero_prefix bound s =
     (case read_digits radix s of (ds, r) \<Rightarrow>
        let n = foldl (\<lambda>a d. a * radix + d) 0 ds
        in if ds = [] \<or> max_digits < length ds then None
           else if \<not> allow_zero_prefix \<and> hd ds = 0 \<and> 1 < length ds then None
           else if bound < n then None
           else Some (n, r))"

definition read_separator :: "char \<Rightarrow> nat \<Rightarrow> (string \<Rightarrow> ('a \<times> string) option) \<Rightarrow> string \<Rightarrow> ('a \<times> string) option" where
  "read_separator sep i inner s =
     (if i = 0 then inner s
      else case s of [] \<Rightarrow> None | c # r \<Rightarrow> if c = sep then inner r else None)"

fun read_octets :: "nat \<Rightarrow> nat \<Rightarrow> string \<Rightarrow> (nat list \<times> string) option" where
  "read_octets 0 i s = Some ([], s)"
| "read_octets (Suc n) i s =
     (case read_separator CHR ''.'' i (read_number 10 3 False 255) s of
        None \<Rightarrow> None
      | Some (k, r) \<Rightarrow> map_option (\<lambda>(ks, r'). (k # ks, r')) (read_octets n (i + 1) r))"

fun octet_pairs :: "nat list \<Rightarrow> nat list" where
  "octet_pairs (a # b # xs) = (a * 256 + b) # octet_pairs xs"
| "octet_pairs _ = []"

text \<open>Groups of an IPv6 address; the flag says that an embedded IPv4 address ended them.\<close>

fun read_groups :: "nat \<Rightarrow> nat \<Rightarrow> string \<Rightarrow> nat list \<times> bool \<times> string" where
  "read_groups 0 i s = ([], False, s)"
| "read_groups (Suc n) i s =
     (case (if 0 < n then read_separator CHR '':'' i (read_octets 4 0) s else None) of
        Some (ks, r) \<Rightarrow> (octet_pairs ks, True, r)
      | None \<Rightarrow>
          (case read_separator CHR '':'' i (read_number 16 4 True 65535) s of
             None \<Rightarrow> ([], False, s)
           | Some (g, r) \<Rightarrow> (case read_groups n (i + 1) r of (gs, v4, r') \<Rightarrow> (g # gs, v4, r'))))"

definition read_ipv6 :: "string \<Rightarrow> (nat list \<times> string) option" where
  "read_ipv6 s =
     (case read_groups 8 0 s of (front, v4, r) \<Rightarrow>
        if length front = 8 then Some (front, r)
        else if v4 then None
        else (case strip_prefix ''::'' r of
                None \<Rightarrow> None
              | Some r1 \<Rightarrow>
                  (case read_groups (8 - (length front + 1)) 0 r1 of (back, _, r2) \<Rightarrow>
                     Some (front @ replicate (8 - length front - length back) 0 @ back, r2))))"

definition be_value :: "nat \<Rightarrow> nat list \<Rightarrow> nat" where
  "be_value base ds = foldl (\<lambda>a d. a * base + d) 0 ds"

definition parse_ip :: "string \<Rightarrow> IpAddr option" where
  "parse_ip s =
     (case read_octets 4 0 s of
        Some (ks, r) \<Rightarrow> if r = [] then Some (V4 (word_of_nat (be_value 256 ks))) else None
      | None \<Rightarrow>
          (case read_ipv6 s of
             Some (gs, r) \<Rightarrow> if r = [] then Some (V6 (word_of_nat (be_value 65536 gs))) else None
           | None \<Rightarrow> None))"

section \<open>The client address\<close>

definition client_ip :: "AuthEnv \<Rightarrow> Request \<Rightarrow> string list \<Rightarrow> IpAddr" where
  "client_ip env req trusted =
     (if list_ex (\<lambda>net. network_contains env net (peer_ip req) = Some True) trusted
      then case header req ''x-forwarded-for'' of
             None \<Rightarrow> peer_ip req
           | Some xff \<Rightarrow>
               (case parse_ip (trim (hd (split_on CHR '','' xff))) of
                  None \<Rightarrow> peer_ip req
                | Some ip \<Rightarrow> ip)
      else peer_ip req)"

section \<open>Cookies and the ticket parameter\<close>

fun find_map :: "('a \<Rightarrow> 'b option) \<Rightarrow> 'a list \<Rightarrow> 'b option" where
  "find_map f [] = None"
| "find_map f (x # xs) = (case f x of None \<Rightarrow> find_map f xs | Some y \<Rightarrow> Some y)"

definition extract_cookie :: "Request \<Rightarrow> string \<Rightarrow> string option" where
  "extract_cookie req name =
     (let combined = join ''; '' (header_all req ''cookie'')
      in if combined = [] then None
         else find_map (\<lambda>c. case strip_prefix name (trim c) of
                              Some val \<Rightarrow> strip_prefix ''='' val
                            | None \<Rightarrow> None) (split_on CHR '';'' combined))"

definition bearer_key :: "Request \<Rightarrow> string option" where
  "bearer_key req =
     (case Option.bind (header req ''authorization'') (strip_prefix ''Bearer '') of
        Some k \<Rightarrow> Some k
      | None \<Rightarrow> header req ''x-api-key'')"

definition ticket_param :: "Request \<Rightarrow> string option" where
  "ticket_param req =
     Option.bind (query req) (\<lambda>q. find_map (\<lambda>pair.
       case split_once CHR ''='' pair of
         Some (k, v) \<Rightarrow> if k = ''ticket'' then Some (hd (split_on CHR ''?'' v)) else None
       | None \<Rightarrow> None) (split_on CHR ''&'' q))"


section \<open>Addresses read back\<close>

definition show_octets :: "nat \<Rightarrow> nat \<Rightarrow> nat \<Rightarrow> nat \<Rightarrow> string" where
  "show_octets a b c d = show_nat a @ ''.'' @ show_nat b @ ''.'' @ show_nat c @ ''.'' @ show_nat d"

definition no_digit :: "string \<Rightarrow> bool" where
  "no_digit r \<longleftrightarrow> r = [] \<or> to_digit 10 (hd r) = None"

lemma read_digits_append:
  "list_all is_ascii_digit ds \<Longrightarrow> no_digit r \<Longrightarrow> read_digits 10 (ds @ r) = (fst (read_digits 10 ds), r)"
proof (induction ds)
  case Nil
  then show ?case by (cases r) (auto simp: no_digit_def)
qed (auto simp: to_digit_def is_ascii_digit_def Let_def split: option.splits prod.splits)

lemma to_digit_char: "d < 10 \<Longrightarrow> to_digit 10 (digit_char d) = Some d"
  by (simp add: to_digit_def is_ascii_digit_def byte_digit_char)

lemma read_octet_shown:
  assumes "n < 256"
  shows "read_number 10 3 False 255 (show_nat n) = Some (n, [])"
proof -
  consider "n < 10" | "10 \<le> n" "n < 100" | "100 \<le> n" by linarith
  then show ?thesis
  proof cases
    case 1
    then show ?thesis by (simp add: show_nat.simps [of n] read_number_def to_digit_char)
  next
    case 2
    then have "n div 10 < 10" "n div 10 \<noteq> 0" by simp_all
    then show ?thesis using 2
      by (simp add: show_nat.simps [of n] show_nat.simps [of "n div 10"] read_number_def to_digit_char)
  next
    case 3
    then have "n div 10 div 10 < 10" "n div 10 div 10 \<noteq> 0" "\<not> n div 10 < 10" using assms by simp_all
    moreover have "(n div 10 div 10 * 10 + n div 10 mod 10) * 10 + n mod 10 = n" by presburger
    ultimately show ?thesis using 3 assms
      by (simp add: show_nat.simps [of n] show_nat.simps [of "n div 10"] show_nat.simps [of "n div 10 div 10"]
          read_number_def to_digit_char)
  qed
qed

lemma read_octet:
  assumes "n < 256" "no_digit r"
  shows "read_number 10 3 False 255 (show_nat n @ r) = Some (n, r)"
  using read_octet_shown [OF assms(1)] read_digits_append [OF show_nat_digits assms(2), of n]
  by (auto simp: read_number_def Let_def split: prod.splits if_splits)

lemma no_digit_dot: "no_digit (CHR ''.'' # r)" "no_digit []"
  by (simp_all add: no_digit_def, code_simp)

lemma parse_ip_shown:
  assumes "a < 256" "b < 256" "c < 256" "d < 256"
  shows "parse_ip (show_octets a b c d) = Some (V4 (word_of_nat (((a * 256 + b) * 256 + c) * 256 + d)))"
proof -
  have four: "(4 :: nat) = Suc (Suc (Suc (Suc 0)))" by simp
  have "read_octets 4 0 (show_octets a b c d) = Some ([a, b, c, d], [])"
    using assms read_octet [OF assms(4) no_digit_dot(2)]
    by (simp add: show_octets_def four read_separator_def read_octet no_digit_dot)
  then show ?thesis by (simp add: parse_ip_def be_value_def)
qed


lemma hd_split_on: "c \<notin> set a \<Longrightarrow> hd (split_on c (a @ c # b)) = a" "c \<notin> set a \<Longrightarrow> hd (split_on c a) = a"
  by (induction a) (auto split: list.splits)

lemma split_on_hd_no_comma: "CHR '','' \<notin> set (show_octets a b c d)"
  using show_nat_digits digit_not_separator
  by (fastforce simp: show_octets_def list_all_iff)

text \<open>Visible ASCII text, such as a dotted address or a token, is its own trimmed text.\<close>

definition visible :: "char \<Rightarrow> bool" where
  "visible c \<longleftrightarrow> 32 < byte c \<and> byte c < 127"

lemma trim_visible:
  assumes "list_all visible s"
  shows "trim s = s"
proof (cases "s = []")
  case False
  have ws: "\<not> is_whitespace [x]" if "x \<in> set s" for x
    using assms that by (auto simp: list_all_iff visible_def is_whitespace_def Let_def)
  have "chars s = map (\<lambda>c. [c]) s"
    using assms by (intro chars_ascii) (auto simp: is_ascii_def list_all_iff visible_def)
  then have "trim_chars (chars s) = chars s" using False by (simp add: trim_chars_id hd_map last_map ws)
  then show ?thesis by (simp add: trim_def)
qed (simp add: trim_def trim_chars_def)

lemma digit_visible: "is_ascii_digit c \<Longrightarrow> visible c"
  by (simp add: is_ascii_digit_def visible_def)

lemma trim_octets: "trim (show_octets a b c d) = show_octets a b c d"
proof -
  have "list_all visible (show_nat n)" for n using show_nat_digits [of n] by (auto simp: list_all_iff digit_visible)
  then show ?thesis by (intro trim_visible) (simp add: show_octets_def visible_def byte_def)
qed

lemma split_on_single: "c \<notin> set s \<Longrightarrow> split_on c s = [s]"
  by (induction s) auto

lemma extract_single_cookie:
  assumes "header_all req ''cookie'' = [name @ ''='' @ val]" "list_all visible (name @ val)" "CHR '';'' \<notin> set (name @ val)"
  shows "extract_cookie req name = Some val"
proof -
  have "list_all visible (name @ ''='' @ val)" using assms(2) by (simp add: visible_def byte_def)
  then have "trim (name @ ''='' @ val) = name @ ''='' @ val" by (rule trim_visible)
  moreover have "strip_prefix name (name @ ''='' @ val) = Some (''='' @ val)" by (simp add: strip_prefix_Some)
  ultimately show ?thesis using assms(1,3) by (simp add: extract_cookie_def split_on_single)
qed

text \<open>
  A client cannot choose its own address: unless the connection itself comes from a
  trusted proxy network, the headers are ignored and the address is that of the connection;
  behind a trusted proxy it is the first address of the forwarding header, whatever follows
  it, and without a readable header again that of the connection.
\<close>

theorem client_ip_exact:
  assumes "a < 256" "b < 256" "c < 256" "d < 256"
    and "header req ''x-forwarded-for'' = Some (show_octets a b c d @ rest)" "rest = [] \<or> hd rest = CHR '',''"
  shows "client_ip env req trusted =
     (if list_ex (\<lambda>net. network_contains env net (peer_ip req) = Some True) trusted
      then V4 (word_of_nat (((a * 256 + b) * 256 + c) * 256 + d)) else peer_ip req) \<and>
    client_ip env (req\<lparr>header := (header req)(''x-forwarded-for'' := None)\<rparr>) trusted = peer_ip req"
proof -
  have "hd (split_on CHR '','' (show_octets a b c d @ rest)) = show_octets a b c d"
    using hd_split_on [OF split_on_hd_no_comma] assms(6) by (cases rest) auto
  then show ?thesis
    using assms(5) by (simp add: client_ip_def trim_octets parse_ip_shown [OF assms(1-4)])
qed

definition demo_request :: Request where
  "demo_request = \<lparr>peer_ip = V4 1, header = [''x-forwarded-for'' \<mapsto> ''10.0.0.7, 192.168.1.1''],
     header_all = (\<lambda>_. []), path = ''/'', query = None\<rparr>"

theorem client_ip_exact_witness:
  "client_ip (demo_env\<lparr>network_contains := (\<lambda>_ _. Some True)\<rparr>) demo_request [''127.0.0.0/8''] = V4 167772167 \<and>
   client_ip demo_env demo_request [] = V4 1"
proof -
  have h: "header demo_request ''x-forwarded-for'' = Some (show_octets 10 0 0 7 @ '', 192.168.1.1'')"
    by code_simp
  show ?thesis
    using client_ip_exact [of 10 0 0 7 demo_request, OF _ _ _ _ h, of "demo_env\<lparr>network_contains := (\<lambda>_ _. Some True)\<rparr>" "[''127.0.0.0/8'']"]
      client_ip_exact [of 10 0 0 7 demo_request, OF _ _ _ _ h, of demo_env "[]"]
    by (simp add: demo_request_def)
qed

text \<open>The forms the parser takes and refuses, on examples.\<close>

lemma parse_ip_examples:
  "parse_ip ''::1'' = Some (V6 1)" "parse_ip ''::ffff:10.0.0.1'' = Some (V6 281470849515521)"
  "parse_ip ''1:2:3:4:5:6:7:8'' \<noteq> None" "parse_ip ''1:2:3:4:5:6:7::8'' = None" "parse_ip ''10.0.0.01'' = None"
  "parse_ip ''10.0.0.256'' = None" "parse_ip ''10.0.0.1:80'' = None" "parse_ip [] = None"
proof -
  have "(parse_ip ''::1'' = Some (V6 1)) \<and>
       (parse_ip ''::ffff:10.0.0.1'' = Some (V6 281470849515521)) \<and>
       (parse_ip ''1:2:3:4:5:6:7:8'' \<noteq> None) \<and>
       (parse_ip ''1:2:3:4:5:6:7::8'' = None) \<and>
       (parse_ip ''10.0.0.01'' = None) \<and>
       (parse_ip ''10.0.0.256'' = None) \<and>
       (parse_ip ''10.0.0.1:80'' = None) \<and>
       (parse_ip [] = None)"
    by code_simp
  then show "parse_ip ''::1'' = Some (V6 1)" "parse_ip ''::ffff:10.0.0.1'' = Some (V6 281470849515521)" "parse_ip ''1:2:3:4:5:6:7:8'' \<noteq> None" "parse_ip ''1:2:3:4:5:6:7::8'' = None" "parse_ip ''10.0.0.01'' = None" "parse_ip ''10.0.0.256'' = None" "parse_ip ''10.0.0.1:80'' = None" "parse_ip [] = None"
    by blast+
qed

end
