(* ===== verification/Settings.thy ===== *)
theory Settings
  imports Text_Util
begin

text \<open>
  The settings an administrator saves: the rows of \<open>system_settings\<close>, their overlay on the
  configuration (\<open>src/src/settings_merge.rs\<close>), and the cached flags of the authentication
  middleware with their epoch (\<open>src/src/auth.rs\<close>, \<open>src/src/db.rs\<close>, the commit of
  \<open>src/src/api/settings.rs\<close>). The lemmas show what the overlay does with every key, that a
  peer sees a saved flag at its next request, and where the cache misses one.
\<close>

section \<open>The table\<close>

text \<open>Key and value of each row; the key is the primary key.\<close>

type_synonym SettingsTable = "(string \<times> string) list"

definition toggle_enabled :: "SettingsTable \<Rightarrow> string \<Rightarrow> bool \<Rightarrow> bool" where
  "toggle_enabled settings key dflt =
     (case map_of settings key of
        Some v \<Rightarrow> if v = ''true'' then True else if v = ''false'' then False else dflt
      | None \<Rightarrow> dflt)"

text \<open>\<open>None\<close> is a table that cannot be read.\<close>

definition read_toggle :: "SettingsTable option \<Rightarrow> string \<Rightarrow> bool \<Rightarrow> bool" where
  "read_toggle table key dflt = (case table of Some s \<Rightarrow> toggle_enabled s key dflt | None \<Rightarrow> dflt)"

definition settings_epoch_from_value :: "string option \<Rightarrow> int" where
  "settings_epoch_from_value raw =
     (case raw of None \<Rightarrow> 0 | Some v \<Rightarrow> (case parse_signed 64 v of Some n \<Rightarrow> n | None \<Rightarrow> 0))"

definition settings_epoch :: "SettingsTable \<Rightarrow> int" where
  "settings_epoch t = settings_epoch_from_value (map_of t ''settings_epoch'')"

text \<open>SQLite's \<open>CAST(x AS INTEGER)\<close> of a text: the number its longest numeric prefix spells.\<close>

definition cast_integer :: "string \<Rightarrow> int" where
  "cast_integer s =
     (let t = dropWhile (\<lambda>c. c = CHR '' '') s
      in case t of
           [] \<Rightarrow> 0
         | c # r \<Rightarrow>
             if c = CHR ''-'' then - int (dec_val 0 (takeWhile is_ascii_digit r))
             else if c = CHR ''+'' then int (dec_val 0 (takeWhile is_ascii_digit r))
             else int (dec_val 0 (takeWhile is_ascii_digit t)))"

definition show_int :: "int \<Rightarrow> string" where
  "show_int i = (if i < 0 then CHR ''-'' # show_nat (nat (- i)) else show_nat (nat i))"

definition bump_settings_epoch_conn :: "SettingsTable \<Rightarrow> int \<times> SettingsTable" where
  "bump_settings_epoch_conn t =
     (let value = (case map_of t ''settings_epoch'' of
            None \<Rightarrow> ''1''
          | Some v \<Rightarrow> show_int (cast_integer (if v = [] then ''0'' else v) + 1));
          t' = AList.update ''settings_epoch'' value t
      in (settings_epoch t', t'))"

text \<open>The transaction of a save: every row, then the epoch.\<close>

definition settings_put :: "(string \<times> string) list \<Rightarrow> SettingsTable \<Rightarrow> int \<times> SettingsTable" where
  "settings_put entries t = bump_settings_epoch_conn (fold (\<lambda>(k, v). AList.update k v) entries t)"

section \<open>The overlay on the configuration\<close>

text \<open>
  The parts of the configuration the overlay writes. A section that may be absent is an
  option; of the VDI section only the switch is touched, of the Vault section only its
  presence matters.
\<close>

record TlsConfig =
  cert_path :: "string option"
  key_path :: "string option"
  guacd_cert_path :: "string option"
  secure_cookies :: bool

record StorageConfig =
  backend_name :: string
  encryption_key :: "string option"

record ThemeConfig =
  logo_url :: "string option"
  primary_color :: "string option"

record Config =
  cfg_listen_addr :: string
  cfg_guacd_addr :: string
  cfg_tls :: "TlsConfig option"
  cfg_session_max_duration_secs :: nat
  cfg_max_sessions :: nat
  cfg_session_history_retention_days :: nat
  cfg_vdi_enabled :: "bool option"
  cfg_has_vault :: bool
  cfg_storage :: "StorageConfig option"
  cfg_site_title :: string
  cfg_theme :: "ThemeConfig option"

definition default_tls :: TlsConfig where
  "default_tls = \<lparr>cert_path = None, key_path = None, guacd_cert_path = None, secure_cookies = False\<rparr>"

definition default_storage :: StorageConfig where
  "default_storage = \<lparr>backend_name = ''db'', encryption_key = None\<rparr>"

definition default_theme :: ThemeConfig where
  "default_theme = \<lparr>logo_url = None, primary_color = None\<rparr>"

definition get_or :: "'a \<Rightarrow> 'a option \<Rightarrow> 'a" where
  "get_or d x = (case x of None \<Rightarrow> d | Some y \<Rightarrow> y)"

text \<open>One arm of the match per key; anything else is skipped.\<close>

definition apply_setting :: "string \<times> string \<Rightarrow> Config \<Rightarrow> Config" where
  "apply_setting kv c =
     (let k = fst kv; v = snd kv
      in if k = ''listen_addr'' \<and> v \<noteq> [] then c\<lparr>cfg_listen_addr := v\<rparr>
         else if k = ''guacd_addr'' \<and> v \<noteq> [] then c\<lparr>cfg_guacd_addr := v\<rparr>
         else if k = ''tls_cert_path'' \<and> v \<noteq> []
           then c\<lparr>cfg_tls := Some ((get_or default_tls (cfg_tls c))\<lparr>cert_path := Some v\<rparr>)\<rparr>
         else if k = ''tls_key_path'' \<and> v \<noteq> []
           then c\<lparr>cfg_tls := Some ((get_or default_tls (cfg_tls c))\<lparr>key_path := Some v\<rparr>)\<rparr>
         else if k = ''session_max_duration_secs'' then
           (case parse_unsigned (2 ^ 64 - 1) v of Some n \<Rightarrow> c\<lparr>cfg_session_max_duration_secs := n\<rparr> | None \<Rightarrow> c)
         else if k = ''max_concurrent_sessions'' then
           (case parse_unsigned usize_max v of Some n \<Rightarrow> c\<lparr>cfg_max_sessions := n\<rparr> | None \<Rightarrow> c)
         else if k = ''session_history_retention_days'' then
           (case parse_unsigned (2 ^ 32 - 1) v of Some n \<Rightarrow> c\<lparr>cfg_session_history_retention_days := n\<rparr> | None \<Rightarrow> c)
         else if k = ''enable_vdi'' then
           (if v = ''true'' then c\<lparr>cfg_vdi_enabled := Some True\<rparr>
            else c\<lparr>cfg_vdi_enabled := map_option (\<lambda>_. False) (cfg_vdi_enabled c)\<rparr>)
         else if k = ''vault_enabled'' then
           (if v = ''true'' \<and> cfg_has_vault c
            then c\<lparr>cfg_storage := Some ((get_or default_storage (cfg_storage c))\<lparr>backend_name := ''vault''\<rparr>)\<rparr>
            else c)
         else if k = ''db_only_mode'' then
           (if v = ''true''
            then c\<lparr>cfg_storage := Some ((get_or default_storage (cfg_storage c))\<lparr>backend_name := ''db''\<rparr>)\<rparr>
            else c)
         else if k = ''site_title'' \<and> v \<noteq> [] then c\<lparr>cfg_site_title := v\<rparr>
         else if k = ''logo_url'' then c\<lparr>cfg_theme := Some ((get_or default_theme (cfg_theme c))\<lparr>logo_url := Some v\<rparr>)\<rparr>
         else if k = ''primary_color'' \<and> v \<noteq> []
           then c\<lparr>cfg_theme := Some ((get_or default_theme (cfg_theme c))\<lparr>primary_color := Some v\<rparr>)\<rparr>
         else c)"

definition apply_db_settings :: "SettingsTable \<Rightarrow> Config \<Rightarrow> Config" where
  "apply_db_settings settings c = fold apply_setting settings c"

text \<open>
  The keys of the storage backend write the same field, so their order in the table decides;
  the query that loads the table asks for no order.
\<close>

lemma storage_backend_depends_on_row_order:
  "cfg_has_vault c \<Longrightarrow>
     map_option backend_name (cfg_storage (apply_db_settings [(''vault_enabled'', ''true''), (''db_only_mode'', ''true'')] c)) = Some ''db'' \<and>
     map_option backend_name (cfg_storage (apply_db_settings [(''db_only_mode'', ''true''), (''vault_enabled'', ''true'')] c)) = Some ''vault''"
  by (simp add: apply_db_settings_def apply_setting_def Let_def)

section \<open>The cached flags\<close>

record SettingsFlags =
  api_keys_enabled :: bool
  compliance_mode_enabled :: bool

record CachedSettings =
  epoch :: int
  flags :: SettingsFlags

definition load_settings_flags_from_db :: "SettingsTable option \<Rightarrow> SettingsFlags" where
  "load_settings_flags_from_db t =
     \<lparr>api_keys_enabled = read_toggle t ''enable_api_keys'' True,
      compliance_mode_enabled = read_toggle t ''compliance_mode'' False\<rparr>"

definition init_settings_cache :: "SettingsTable option \<Rightarrow> CachedSettings" where
  "init_settings_cache t =
     \<lparr>epoch = (case t of Some s \<Rightarrow> settings_epoch s | None \<Rightarrow> 0), flags = load_settings_flags_from_db t\<rparr>"

definition update_settings_cache :: "string \<Rightarrow> string \<Rightarrow> CachedSettings \<Rightarrow> CachedSettings" where
  "update_settings_cache key v c =
     (if key = ''enable_api_keys'' then c\<lparr>flags := (flags c)\<lparr>api_keys_enabled := (v = ''true'')\<rparr>\<rparr>
      else if key = ''compliance_mode'' then c\<lparr>flags := (flags c)\<lparr>compliance_mode_enabled := (v = ''true'')\<rparr>\<rparr>
      else c)"

definition set_settings_cache_epoch :: "int \<Rightarrow> CachedSettings \<Rightarrow> CachedSettings" where
  "set_settings_cache_epoch e c = c\<lparr>epoch := e\<rparr>"

text \<open>
  \<open>cached_flag\<close> without interference: \<open>ha\<close> says whether a shared backend is in use, the
  table is what the database answers (\<open>None\<close>: it does not answer). A lock is only poisoned
  by a panic, which none of its holders can raise.
\<close>

definition cached_flag ::
    "bool \<Rightarrow> SettingsTable option \<Rightarrow> (SettingsFlags \<Rightarrow> bool) \<Rightarrow> CachedSettings option \<Rightarrow> bool \<times> CachedSettings option" where
  "cached_flag ha t pick cache =
     (case cache of
        None \<Rightarrow> (pick (load_settings_flags_from_db t), None)
      | Some c \<Rightarrow>
          if \<not> ha then (pick (flags c), Some c)
          else case t of
                 None \<Rightarrow> (pick (flags c), Some c)
               | Some s \<Rightarrow>
                   if settings_epoch s = epoch c then (pick (flags c), Some c)
                   else let fresh = \<lparr>epoch = settings_epoch s, flags = load_settings_flags_from_db (Some s)\<rparr>;
                            c' = (if epoch c < epoch fresh then fresh else c)
                        in (pick (flags c'), Some c'))"

text \<open>The handler of a save on the instance with this cache.\<close>

definition put_settings ::
    "(string \<times> string) list \<Rightarrow> SettingsTable \<times> CachedSettings \<Rightarrow> SettingsTable \<times> CachedSettings" where
  "put_settings entries st =
     (case st of (t, c) \<Rightarrow>
        (case settings_put entries t of
           (e, t') \<Rightarrow> (t', set_settings_cache_epoch e (fold (\<lambda>(k, v). update_settings_cache k v) entries c))))"

section \<open>Coherence\<close>

definition coherent :: "SettingsTable \<Rightarrow> CachedSettings \<Rightarrow> bool" where
  "coherent t c \<longleftrightarrow> epoch c = settings_epoch t \<and> flags c = load_settings_flags_from_db (Some t)"

text \<open>The saved toggles are the texts true and false, as the handler canonicalises them.\<close>

definition canonical :: "(string \<times> string) list \<Rightarrow> bool" where
  "canonical entries \<longleftrightarrow> list_all (\<lambda>(k, v). k \<noteq> ''settings_epoch'' \<and>
     (k \<in> {''enable_api_keys'', ''compliance_mode''} \<longrightarrow> v \<in> {''true'', ''false''})) entries"

definition flags_of :: "SettingsTable \<Rightarrow> SettingsFlags" where
  "flags_of t = load_settings_flags_from_db (Some t)"

lemma flags_of_update:
  assumes "k \<in> {''enable_api_keys'', ''compliance_mode''} \<longrightarrow> v \<in> {''true'', ''false''}"
  shows "flags_of (AList.update k v t) = flags (update_settings_cache k v \<lparr>epoch = e, flags = flags_of t\<rparr>)"
  using assms
  by (auto simp: flags_of_def load_settings_flags_from_db_def read_toggle_def toggle_enabled_def
      update_settings_cache_def update_conv')

lemma update_settings_cache_flags:
  "flags (update_settings_cache k v c) = flags (update_settings_cache k v \<lparr>epoch = e, flags = flags c\<rparr>)"
  by (simp add: update_settings_cache_def)

lemma flags_of_fold:
  assumes "canonical entries" "flags c = flags_of t"
  shows "flags (fold (\<lambda>(k, v). update_settings_cache k v) entries c) = flags_of (fold (\<lambda>(k, v). AList.update k v) entries t)"
  using assms
proof (induction entries arbitrary: c t)
  case (Cons kv entries)
  obtain k v where kv: "kv = (k, v)" by (cases kv)
  have "flags (update_settings_cache k v c) = flags_of (AList.update k v t)"
    using Cons.prems flags_of_update [of k v t 0] update_settings_cache_flags [of k v c 0]
    by (simp add: kv canonical_def)
  then show ?case using Cons kv by (simp add: canonical_def)
qed simp

lemma flags_of_epoch: "flags_of (AList.update ''settings_epoch'' v t) = flags_of t"
  by (simp add: flags_of_def load_settings_flags_from_db_def read_toggle_def toggle_enabled_def update_conv')

lemma settings_put_flags:
  "flags_of (snd (settings_put entries t)) = flags_of (fold (\<lambda>(k, v). AList.update k v) entries t)"
  by (simp add: settings_put_def bump_settings_epoch_conn_def Let_def flags_of_epoch)

lemma settings_put_epoch: "fst (settings_put entries t) = settings_epoch (snd (settings_put entries t))"
  by (simp add: settings_put_def bump_settings_epoch_conn_def Let_def)

text \<open>
  Claim C40. Saved flags take effect at once where they are saved and at the next request
  everywhere else. A save on an instance whose cache is current leaves that cache current;
  and an instance of a shared deployment whose cache carries an older epoch than the
  database answers every request from the saved values and is current afterwards.
\<close>

theorem settings_cache_coherence:
  assumes "canonical entries" "coherent t c"
  shows "(case put_settings entries (t, c) of (t', c') \<Rightarrow> coherent t' c') \<and>
     (\<forall>old. epoch old < settings_epoch t \<longrightarrow>
        (\<exists>c'. cached_flag True (Some t) pick (Some old) = (pick (flags_of t), Some c') \<and> coherent t c'))"
proof (intro conjI allI impI)
  show "case put_settings entries (t, c) of (t', c') \<Rightarrow> coherent t' c'"
    using assms flags_of_fold [of entries c t] settings_put_flags [of entries t] settings_put_epoch [of entries t]
    by (auto simp: put_settings_def coherent_def set_settings_cache_epoch_def flags_of_def split: prod.splits)
next
  fix old :: CachedSettings assume "epoch old < settings_epoch t"
  then show "\<exists>c'. cached_flag True (Some t) pick (Some old) = (pick (flags_of t), Some c') \<and> coherent t c'"
    by (simp add: cached_flag_def Let_def coherent_def flags_of_def)
qed

theorem settings_cache_coherence_witness:
  "\<exists>c'. cached_flag True (Some [(''compliance_mode'', ''true''), (''settings_epoch'', ''1'')]) compliance_mode_enabled
     (Some (init_settings_cache (Some []))) = (True, Some c')"
proof -
  let ?t = "[(''compliance_mode'', ''true''), (''settings_epoch'', ''1'')]"
  have "canonical []" "coherent ?t (init_settings_cache (Some ?t))"
    by (simp_all add: canonical_def coherent_def init_settings_cache_def)
  note all = settings_cache_coherence [OF this, of compliance_mode_enabled]
  have "epoch (init_settings_cache (Some [])) < settings_epoch ?t" by code_simp
  then obtain c' where "cached_flag True (Some ?t) compliance_mode_enabled (Some (init_settings_cache (Some []))) =
      (compliance_mode_enabled (flags_of ?t), Some c')"
    using all by blast
  moreover have "compliance_mode_enabled (flags_of ?t)" by code_simp
  ultimately show ?thesis by simp
qed

text \<open>
  A save on an instance that has not yet seen a peer's save records the new epoch for flags
  it never reloaded: the peer's toggle stays invisible there, with nothing left to trigger a
  reload. Here instance B turns compliance mode on, then instance A saves another toggle, and
  A goes on with compliance mode off.
\<close>

lemma peer_toggle_lost:
  "let c0 = init_settings_cache (Some []);
       (t1, cB) = put_settings [(''compliance_mode'', ''true'')] ([], c0);
       (t2, cA) = put_settings [(''enable_api_keys'', ''false'')] (t1, c0)
   in compliance_mode_enabled (flags_of t2) \<and> \<not> fst (cached_flag True (Some t2) compliance_mode_enabled (Some cA))"
  by code_simp

end
