(* ===== verification/Auth.thy ===== *)
theory Auth
  imports Ws_Tickets Http_Request Settings
begin

text \<open>
  The authentication middlewares of \<open>src/src/auth.rs\<close>, over the stores they call: \<open>require_auth\<close>,
  which answers a request without valid credentials, and \<open>optional_auth\<close>, which lets it pass
  without an identity and also takes WebSocket tickets. A middleware maps a request and the
  state of the process to an outcome and a new state; it runs without interference from
  other requests. What a middleware promises its handlers is the locale
  \<open>auth_middleware\<close>.
\<close>

section \<open>State and outcome\<close>

record AuthState =
  auth_db :: AuthDb
  recheck_cache :: RecheckCache
  settings_cache :: "CachedSettings option"
  tickets :: WsTicketStore

text \<open>
  The surroundings of a request: the extensions the router put on it (database, trusted
  proxies, ticket store), the clocks and the fate of the database calls, the settings table
  as the database answers it, whether a shared backend is active, and the account providers.
\<close>

record AuthCtx =
  ctx_env :: AuthEnv
  ctx_has_db :: bool
  ctx_proxies :: "string list"
  ctx_has_tickets :: bool
  ctx_io :: TicketIo
  ctx_settings :: "SettingsTable option"
  ctx_ha :: bool
  ctx_providers :: "Revalidator list"

datatype AuthOutcome =
    Pass "AuthIdentity option" (by_ticket: bool)
  | Respond nat string
  | RedirectTo string

definition cached_api_keys_enabled :: "AuthCtx \<Rightarrow> AuthState \<Rightarrow> bool \<times> AuthState" where
  "cached_api_keys_enabled ctx st =
     (case cached_flag (ctx_ha ctx) (ctx_settings ctx) api_keys_enabled (settings_cache st) of
        (b, c) \<Rightarrow> (b, st\<lparr>settings_cache := c\<rparr>))"

definition cached_compliance_mode_enabled :: "AuthCtx \<Rightarrow> AuthState \<Rightarrow> bool \<times> AuthState" where
  "cached_compliance_mode_enabled ctx st =
     (case cached_flag (ctx_ha ctx) (ctx_settings ctx) compliance_mode_enabled (settings_cache st) of
        (b, c) \<Rightarrow> (b, st\<lparr>settings_cache := c\<rparr>))"

definition request_ip :: "AuthCtx \<Rightarrow> Request \<Rightarrow> IpAddr" where
  "request_ip ctx req = client_ip (ctx_env ctx) req (ctx_proxies ctx)"

definition check_key :: "AuthCtx \<Rightarrow> Request \<Rightarrow> string \<Rightarrow> AuthState \<Rightarrow> (AdminInfo, AuthError) result \<times> AuthState" where
  "check_key ctx req key st =
     (case validate_api_key (ctx_env ctx) (now_utc (ctx_io ctx)) key (Some (request_ip ctx req)) (auth_db st) of
        (r, d) \<Rightarrow> (r, st\<lparr>auth_db := d\<rparr>))"

definition check_token :: "AuthCtx \<Rightarrow> string \<Rightarrow> AuthState \<Rightarrow> (User \<times> UserApiToken, AuthError) result \<times> AuthState" where
  "check_token ctx key st =
     (case validate_user_token (ctx_env ctx) (ctx_providers ctx) (now_utc (ctx_io ctx)) (instant (ctx_io ctx)) key
             (auth_db st, recheck_cache st) of
        (r, d, c) \<Rightarrow> (r, st\<lparr>auth_db := d, recheck_cache := c\<rparr>))"

definition check_session :: "AuthCtx \<Rightarrow> string \<Rightarrow> AuthState \<Rightarrow> (User, AuthError) result" where
  "check_session ctx token st =
     validate_auth_session (env_crypto (ctx_env ctx)) (now_utc (ctx_io ctx)) token (auth_db st)"

definition token_identity :: "User \<Rightarrow> UserApiToken \<Rightarrow> AuthIdentity" where
  "token_identity u t =
     UserId (u_email u) (u_name u) (compute_effective_role (u_role u) (t_max_role t)) (groups_vec u)"

definition session_identity :: "User \<Rightarrow> AuthIdentity" where
  "session_identity u = UserId (u_email u) (u_name u) (u_role u) (groups_vec u)"

section \<open>Required authentication\<close>

definition em_dash :: string where
  "em_dash = [CHR 0xE2, CHR 0x80, CHR 0x94]"

definition wants_html :: "Request \<Rightarrow> bool" where
  "wants_html req \<longleftrightarrow> strip_prefix ''/api/'' (path req) = None \<and>
     (case header req ''accept'' of Some v \<Rightarrow> contains v ''text/html'' | None \<Rightarrow> False)"

definition require_by_key :: "AuthCtx \<Rightarrow> Request \<Rightarrow> string \<Rightarrow> AuthState \<Rightarrow> AuthOutcome \<times> AuthState" where
  "require_by_key ctx req key st0 =
     (case cached_api_keys_enabled ctx st0 of (enabled, st1) \<Rightarrow>
        if \<not> enabled then (Respond 403 ''API key authentication is disabled by an administrator'', st1)
        else case cached_compliance_mode_enabled ctx st1 of (compliance, st2) \<Rightarrow>
          (case check_key ctx req key st2 of
             (Inr admin, st3) \<Rightarrow>
               if \<not> admin_api_key_allowed compliance
               then (Respond 403 ''API key authentication is disabled in compliance mode'', st3)
               else (Pass (Some (ApiKey (adm_name admin))) False, st3)
           | (Inl InvalidKey, st3) \<Rightarrow>
               (case check_token ctx key st3 of
                  (Inr (u, t), st4) \<Rightarrow>
                    if \<not> user_token_allowed compliance (t_token_type t)
                    then (Respond 403 (''user token authentication is disabled in compliance mode; '' @
                            ''sign in interactively or use a scoped desktop token''), st4)
                    else (Pass (Some (token_identity u t)) False, st4)
                | (Inl _, st4) \<Rightarrow> (Respond 401 ''invalid API key or token'', st4))
           | (Inl e, st3) \<Rightarrow> (Respond 403 (show_auth_error e), st3)))"

definition require_auth :: "AuthCtx \<Rightarrow> Request \<Rightarrow> AuthState \<Rightarrow> AuthOutcome \<times> AuthState" where
  "require_auth ctx req st =
     (if \<not> ctx_has_db ctx then (Pass None False, st)
      else case bearer_key req of
        Some key \<Rightarrow> require_by_key ctx req key st
      | None \<Rightarrow>
          (case extract_cookie req ''persea_session'' of
             Some token \<Rightarrow>
               (case check_session ctx token st of
                  Inr u \<Rightarrow> (Pass (Some (session_identity u)) False, st)
                | Inl _ \<Rightarrow> (Respond 401 ''invalid or expired session'', st))
           | None \<Rightarrow>
               if wants_html req then (RedirectTo ''/?error=login_required'', st)
               else (Respond 401 (''authentication required '' @ em_dash @ '' use API key or sign in via SSO''), st)))"

section \<open>Optional authentication\<close>

text \<open>The three attempts, each \<open>None\<close> if it lets the request fall through to the next.\<close>

definition optional_by_key :: "AuthCtx \<Rightarrow> Request \<Rightarrow> AuthState \<Rightarrow> AuthIdentity option \<times> AuthState" where
  "optional_by_key ctx req st0 =
     (case bearer_key req of
        None \<Rightarrow> (None, st0)
      | Some key \<Rightarrow>
          (case cached_api_keys_enabled ctx st0 of (enabled, st1) \<Rightarrow>
             if \<not> enabled then (None, st1)
             else case cached_compliance_mode_enabled ctx st1 of (compliance, st2) \<Rightarrow>
               (case check_key ctx req key st2 of
                  (Inr admin, st3) \<Rightarrow>
                    (if \<not> admin_api_key_allowed compliance then None else Some (ApiKey (adm_name admin)), st3)
                | (Inl _, st3) \<Rightarrow>
                    (case check_token ctx key st3 of
                       (Inr (u, t), st4) \<Rightarrow>
                         (if \<not> user_token_allowed compliance (t_token_type t) then None
                          else Some (token_identity u t), st4)
                     | (Inl _, st4) \<Rightarrow> (None, st4)))))"

definition optional_by_ticket :: "AuthCtx \<Rightarrow> Request \<Rightarrow> AuthState \<Rightarrow> AuthIdentity option \<times> AuthState" where
  "optional_by_ticket ctx req st =
     (if \<not> ctx_has_tickets ctx then (None, st)
      else case ticket_param req of
        None \<Rightarrow> (None, st)
      | Some ticket \<Rightarrow>
          (case ticket_consume (env_crypto (ctx_env ctx)) (ctx_io ctx) ticket (tickets st) of
             (r, ts) \<Rightarrow> (r, st\<lparr>tickets := ts\<rparr>)))"

definition optional_by_session :: "AuthCtx \<Rightarrow> Request \<Rightarrow> AuthState \<Rightarrow> AuthIdentity option" where
  "optional_by_session ctx req st =
     (case extract_cookie req ''persea_session'' of
        None \<Rightarrow> None
      | Some token \<Rightarrow>
          (case check_session ctx token st of Inr u \<Rightarrow> Some (session_identity u) | Inl _ \<Rightarrow> None))"

definition optional_auth :: "AuthCtx \<Rightarrow> Request \<Rightarrow> AuthState \<Rightarrow> AuthOutcome \<times> AuthState" where
  "optional_auth ctx req st =
     (if \<not> ctx_has_db ctx then (Pass None False, st)
      else case optional_by_key ctx req st of
        (Some ident, st1) \<Rightarrow> (Pass (Some ident) False, st1)
      | (None, st1) \<Rightarrow>
          (case optional_by_ticket ctx req st1 of
             (Some ident, st2) \<Rightarrow> (Pass (Some ident) True, st2)
           | (None, st2) \<Rightarrow> (Pass (optional_by_session ctx req st2) False, st2)))"


section \<open>Who is entitled to an identity\<close>

definition effective_flags :: "bool \<Rightarrow> SettingsTable option \<Rightarrow> CachedSettings option \<Rightarrow> SettingsFlags" where
  "effective_flags ha t cache =
     (case cache of
        None \<Rightarrow> load_settings_flags_from_db t
      | Some c \<Rightarrow>
          (case t of
             None \<Rightarrow> flags c
           | Some s \<Rightarrow> if ha \<and> epoch c < settings_epoch s then load_settings_flags_from_db (Some s) else flags c))"

abbreviation flags_at :: "AuthCtx \<Rightarrow> AuthState \<Rightarrow> SettingsFlags" where
  "flags_at ctx st \<equiv> effective_flags (ctx_ha ctx) (ctx_settings ctx) (settings_cache st)"

text \<open>
  What a request with its credentials proves about its sender. The last argument says whether
  the identity comes from a ticket.
\<close>

inductive entitled :: "AuthCtx \<Rightarrow> Request \<Rightarrow> AuthState \<Rightarrow> AuthIdentity \<Rightarrow> bool \<Rightarrow> bool" for ctx req st where
  by_admin_key: "bearer_key req = Some key \<Longrightarrow> api_keys_enabled (flags_at ctx st) \<Longrightarrow>
     \<not> compliance_mode_enabled (flags_at ctx st) \<Longrightarrow> (a, h) \<in> set (admins (auth_db st)) \<Longrightarrow>
     validate_stored_hash (env_crypto (ctx_env ctx)) key h \<Longrightarrow> \<not> adm_disabled a \<Longrightarrow>
     not_expired (ctx_env ctx) (now_utc (ctx_io ctx)) (adm_expires_at a) \<Longrightarrow>
     allowed_from (ctx_env ctx) (adm_allowed_ips a) (Some (request_ip ctx req)) \<Longrightarrow>
     entitled ctx req st (ApiKey (adm_name a)) False"
| by_user_token: "bearer_key req = Some key \<Longrightarrow> api_keys_enabled (flags_at ctx st) \<Longrightarrow>
     (compliance_mode_enabled (flags_at ctx st) \<longrightarrow> t_token_type t = ''scoped'') \<Longrightarrow>
     (t, hash_key (env_crypto (ctx_env ctx)) key) \<in> set (user_api_tokens (auth_db st)) \<Longrightarrow> \<not> t_disabled t \<Longrightarrow>
     not_expired (ctx_env ctx) (now_utc (ctx_io ctx)) (t_expires_at t) \<Longrightarrow>
     (u, p) \<in> set (users (auth_db st)) \<Longrightarrow> u_id u = t_user_id t \<Longrightarrow> \<not> u_disabled u \<Longrightarrow>
     entitled ctx req st (token_identity u t) False"
| by_session: "extract_cookie req ''persea_session'' = Some token \<Longrightarrow> s \<in> set (auth_sessions (auth_db st)) \<Longrightarrow>
     as_token_hash s = hash_key (env_crypto (ctx_env ctx)) token \<Longrightarrow>
     registry_ts (now_utc (ctx_io ctx)) < as_expires_at s \<Longrightarrow>
     (u, p) \<in> set (users (auth_db st)) \<Longrightarrow> u_id u = as_user_id s \<Longrightarrow> \<not> u_disabled u \<Longrightarrow>
     entitled ctx req st (session_identity u) False"
| by_ticket: "ctx_has_tickets ctx \<Longrightarrow> ticket_param req = Some ticket \<Longrightarrow>
     fst (ticket_consume (env_crypto (ctx_env ctx)) (ctx_io ctx) ticket (tickets st)) = Some ident \<Longrightarrow>
     entitled ctx req st ident True"

inductive_cases entitled_admin: "entitled ctx req st (ApiKey name) False"
inductive_cases entitled_user: "entitled ctx req st (UserId email name role groups) False"

section \<open>Soundness\<close>

lemma cached_flag_effective:
  "cached_flag ha t pick cache = (b, c) \<Longrightarrow> b = pick (effective_flags ha t cache) \<and> effective_flags ha t c = effective_flags ha t cache"
  by (auto simp: cached_flag_def effective_flags_def Let_def split: option.splits if_splits)

lemma api_keys_flag:
  assumes "cached_api_keys_enabled ctx st = (b, st')"
  shows "b = api_keys_enabled (flags_at ctx st)" "flags_at ctx st' = flags_at ctx st" "auth_db st' = auth_db st"
    "tickets st' = tickets st"
  using assms cached_flag_effective by (auto simp: cached_api_keys_enabled_def split: prod.splits)

lemma compliance_flag:
  assumes "cached_compliance_mode_enabled ctx st = (b, st')"
  shows "b = compliance_mode_enabled (flags_at ctx st)" "auth_db st' = auth_db st" "tickets st' = tickets st"
  using assms cached_flag_effective by (auto simp: cached_compliance_mode_enabled_def split: prod.splits)

text \<open>Validating an admin key touches no users, sessions or tokens.\<close>

definition accounts_kept :: "AuthDb \<Rightarrow> AuthDb \<Rightarrow> bool" where
  "accounts_kept d d' \<longleftrightarrow> users d' = users d \<and> auth_sessions d' = auth_sessions d \<and> user_api_tokens d' = user_api_tokens d"

lemma check_key_frame:
  assumes "check_key ctx req key st = (r, st')"
  shows "accounts_kept (auth_db st) (auth_db st')" "tickets st' = tickets st"
  using assms
  by (auto simp: check_key_def validate_api_key_def accounts_kept_def split: prod.splits option.splits if_splits)

lemma check_key_Inr:
  assumes "check_key ctx req key st = (Inr a, st')"
  obtains h where "(a, h) \<in> set (admins (auth_db st))" "validate_stored_hash (env_crypto (ctx_env ctx)) key h"
    "\<not> adm_disabled a" "not_expired (ctx_env ctx) (now_utc (ctx_io ctx)) (adm_expires_at a)"
    "allowed_from (ctx_env ctx) (adm_allowed_ips a) (Some (request_ip ctx req))"
proof -
  obtain h where "find (\<lambda>(_, stored). validate_stored_hash (env_crypto (ctx_env ctx)) key stored) (admins (auth_db st)) = Some (a, h)"
    and "\<not> adm_disabled a" "not_expired (ctx_env ctx) (now_utc (ctx_io ctx)) (adm_expires_at a)"
      "allowed_from (ctx_env ctx) (adm_allowed_ips a) (Some (request_ip ctx req))"
    using assms by (auto simp: check_key_def validate_api_key_def split: prod.splits option.splits if_splits)
  then show thesis using that find_SomeD by fastforce
qed

lemma token_scan_user:
  assumes "token_scan env now token d = Inr (u, t)"
  shows "\<exists>p. (u, p) \<in> set (users d) \<and> u_id u = t_user_id t"
proof -
  obtain h where f: "find (\<lambda>(_, _, h). hash_key (env_crypto env) token = h) (token_users d) = Some (u, t, h)"
    using assms by (auto simp: token_scan_def split: option.splits if_splits prod.splits)
  then have "(u, t, h) \<in> set (token_users d)" using find_SomeD by fast
  then show ?thesis by (auto simp: token_users_def)
qed

lemma check_token_Inr:
  assumes "check_token ctx key st = (Inr (u, t), st')"
  shows "token_scan (ctx_env ctx) (now_utc (ctx_io ctx)) key (auth_db st) = Inr (u, t)"
  using assms
  by (intro validate_user_token_Inr [where ps = "ctx_providers ctx" and i = "instant (ctx_io ctx)" and c = "recheck_cache st"])
     (auto simp: check_token_def split: prod.splits)

lemma check_session_Inr:
  assumes "check_session ctx token st = Inr u"
  obtains p s where "(u, p) \<in> set (users (auth_db st))" "\<not> u_disabled u" "s \<in> set (auth_sessions (auth_db st))"
    "as_token_hash s = hash_key (env_crypto (ctx_env ctx)) token" "registry_ts (now_utc (ctx_io ctx)) < as_expires_at s"
    "u_id u = as_user_id s"
proof -
  let ?sel = "\<lambda>s. as_token_hash s = hash_key (env_crypto (ctx_env ctx)) token \<and> registry_ts (now_utc (ctx_io ctx)) < as_expires_at s"
  have u: "u \<in> set (session_users ?sel (auth_db st))" and d: "\<not> u_disabled u"
    using assms by (auto simp: check_session_def validate_auth_session_def split: list.splits if_splits)
  from session_users_in [OF u] session_users_user [OF u] d show thesis using that by metis
qed


lemma entitled_key:
  assumes "bearer_key req = Some key" "cached_api_keys_enabled ctx st = (True, st1)"
    "cached_compliance_mode_enabled ctx st1 = (compliance, st2)" "check_key ctx req key st2 = (Inr a, st3)"
    "admin_api_key_allowed compliance"
  shows "entitled ctx req st (ApiKey (adm_name a)) False"
proof -
  obtain h where "(a, h) \<in> set (admins (auth_db st2))" "validate_stored_hash (env_crypto (ctx_env ctx)) key h"
      "\<not> adm_disabled a" "not_expired (ctx_env ctx) (now_utc (ctx_io ctx)) (adm_expires_at a)"
      "allowed_from (ctx_env ctx) (adm_allowed_ips a) (Some (request_ip ctx req))"
    using check_key_Inr [OF assms(4)] .
  then show ?thesis
    using assms(1,5) api_keys_flag [OF assms(2)] compliance_flag [OF assms(3)]
    by (intro by_admin_key) (auto simp: admin_api_key_allowed_def)
qed

lemma entitled_token:
  assumes "bearer_key req = Some key" "cached_api_keys_enabled ctx st = (True, st1)"
    "cached_compliance_mode_enabled ctx st1 = (compliance, st2)" "check_key ctx req key st2 = (r, st3)"
    "check_token ctx key st3 = (Inr (u, t), st4)" "user_token_allowed compliance (t_token_type t)"
  shows "entitled ctx req st (token_identity u t) False"
proof -
  have db: "users (auth_db st3) = users (auth_db st)" "user_api_tokens (auth_db st3) = user_api_tokens (auth_db st)"
    using check_key_frame(1) [OF assms(4)] api_keys_flag [OF assms(2)] compliance_flag [OF assms(3)]
    by (simp_all add: accounts_kept_def)
  note scan = check_token_Inr [OF assms(5)]
  obtain p where "(u, p) \<in> set (users (auth_db st))" "u_id u = t_user_id t"
    using token_scan_user [OF scan] db by auto
  then show ?thesis
    using assms(1,6) token_scan_Inr [OF scan] db api_keys_flag [OF assms(2)] compliance_flag [OF assms(3)]
    by (intro by_user_token) (auto simp: user_token_allowed_def)
qed

lemma entitled_session:
  assumes "extract_cookie req ''persea_session'' = Some token" "check_session ctx token st' = Inr u"
    "users (auth_db st') = users (auth_db st)" "auth_sessions (auth_db st') = auth_sessions (auth_db st)"
  shows "entitled ctx req st (session_identity u) False"
  using check_session_Inr [OF assms(2)] by_session [OF assms(1)] assms(3,4) by metis

lemma require_by_key_sound:
  assumes "require_by_key ctx req key st = (Pass (Some ident) via, st')" "bearer_key req = Some key"
  shows "entitled ctx req st ident via \<and> \<not> via"
proof -
  obtain st1 compliance st2 r st3 where s: "cached_api_keys_enabled ctx st = (True, st1)"
      "cached_compliance_mode_enabled ctx st1 = (compliance, st2)" "check_key ctx req key st2 = (r, st3)"
    using assms(1) by (auto simp: require_by_key_def split: prod.splits if_splits)
  show ?thesis
  proof (cases r)
    case (Inl e)
    with assms(1) s obtain u t st4 where "check_token ctx key st3 = (Inr (u, t), st4)"
        "user_token_allowed compliance (t_token_type t)" "ident = token_identity u t" "\<not> via"
      by (auto simp: require_by_key_def split: AuthError.splits prod.splits sum.splits if_splits)
    then show ?thesis using entitled_token [OF assms(2) s] by (cases via) auto
  next
    case (Inr a)
    with assms(1) s have "admin_api_key_allowed compliance" "ident = ApiKey (adm_name a)" "\<not> via"
      by (auto simp: require_by_key_def split: if_splits)
    then show ?thesis using entitled_key [OF assms(2) s(1,2) s(3) [unfolded Inr]] by (cases via) auto
  qed
qed

lemma require_auth_entitled:
  assumes "require_auth ctx req st = (Pass (Some ident) via, st')"
  shows "entitled ctx req st ident via \<and> \<not> via"
proof (cases "bearer_key req")
  case (Some key)
  then have "require_by_key ctx req key st = (Pass (Some ident) via, st')"
    using assms by (simp add: require_auth_def split: if_splits)
  then show ?thesis using require_by_key_sound Some by blast
next
  case None
  with assms obtain token u where "extract_cookie req ''persea_session'' = Some token" "check_session ctx token st = Inr u"
      "ident = session_identity u" "\<not> via"
    by (auto simp: require_auth_def split: if_splits option.splits sum.splits)
  then show ?thesis using entitled_session [of req token ctx st u st] by (cases via) auto
qed


text \<open>What optional authentication by key keeps of the state for the attempts after it.\<close>

lemma check_token_frame:
  assumes "check_token ctx key st = (r, st')"
  shows "users (auth_db st') = users (auth_db st) \<and> auth_sessions (auth_db st') = auth_sessions (auth_db st) \<and> tickets st' = tickets st"
  using assms
  by (auto simp: check_token_def validate_user_token_def token_reject_def token_stamp_def log_token_event_def
      delete_tokens_def Let_def split: prod.splits sum.splits if_splits)

lemma optional_by_key_frame:
  assumes "optional_by_key ctx req st = (r, st')"
  shows "users (auth_db st') = users (auth_db st) \<and> auth_sessions (auth_db st') = auth_sessions (auth_db st) \<and> tickets st' = tickets st"
proof (cases "bearer_key req")
  case (Some key)
  obtain e st1 where k: "cached_api_keys_enabled ctx st = (e, st1)" by fastforce
  obtain c st2 where c: "cached_compliance_mode_enabled ctx st1 = (c, st2)" by fastforce
  obtain r3 st3 where a: "check_key ctx req key st2 = (r3, st3)" by fastforce
  obtain r4 st4 where t: "check_token ctx key st3 = (r4, st4)" by fastforce
  have "st' = st1 \<or> st' = st3 \<or> st' = st4"
    using assms Some k c a t by (auto simp: optional_by_key_def split: if_splits sum.splits)
  then show ?thesis
    using api_keys_flag [OF k] compliance_flag [OF c] check_key_frame [OF a] check_token_frame [OF t]
    by (auto simp: accounts_kept_def)
qed (use assms in \<open>simp add: optional_by_key_def\<close>)

lemma optional_by_key_sound:
  assumes "optional_by_key ctx req st = (Some ident, st')"
  shows "entitled ctx req st ident False"
proof -
  obtain key st1 compliance st2 r st3 where s: "bearer_key req = Some key" "cached_api_keys_enabled ctx st = (True, st1)"
      "cached_compliance_mode_enabled ctx st1 = (compliance, st2)" "check_key ctx req key st2 = (r, st3)"
    using assms by (auto simp: optional_by_key_def split: prod.splits if_splits option.splits)
  show ?thesis
  proof (cases r)
    case (Inl e)
    with assms s obtain u t st4 where "check_token ctx key st3 = (Inr (u, t), st4)"
        "user_token_allowed compliance (t_token_type t)" "ident = token_identity u t"
      by (auto simp: optional_by_key_def split: prod.splits sum.splits if_splits)
    then show ?thesis using entitled_token [OF s] by auto
  next
    case (Inr a)
    with assms s have "admin_api_key_allowed compliance" "ident = ApiKey (adm_name a)"
      by (auto simp: optional_by_key_def split: if_splits)
    then show ?thesis using entitled_key [OF s(1-3) s(4) [unfolded Inr]] by auto
  qed
qed

lemma optional_auth_entitled:
  assumes "optional_auth ctx req st = (Pass (Some ident) via, st')"
  shows "entitled ctx req st ident via"
proof -
  obtain r1 st1 where k: "optional_by_key ctx req st = (r1, st1)" by fastforce
  obtain r2 st2 where t: "optional_by_ticket ctx req st1 = (r2, st2)" by fastforce
  note frame = optional_by_key_frame [OF k]
  consider "r1 = Some ident" "via = False" | "r2 = Some ident" "via = True"
    | "optional_by_session ctx req st2 = Some ident" "via = False"
    using assms k t by (auto simp: optional_auth_def split: if_splits option.splits)
  then show ?thesis
  proof cases
    case 1
    then show ?thesis using optional_by_key_sound k by blast
  next
    case 2
    then show ?thesis using t frame
      by (auto simp: optional_by_ticket_def intro: by_ticket split: if_splits option.splits prod.splits)
  next
    case 3
    have "auth_db st2 = auth_db st1" using t by (auto simp: optional_by_ticket_def split: if_splits option.splits prod.splits)
    then show ?thesis using 3 frame entitled_session [of req _ ctx st2 _ st]
      by (auto simp: optional_by_session_def split: option.splits sum.splits)
  qed
qed

section \<open>What a middleware promises\<close>

text \<open>
  A handler behind a middleware and the role guard: the identity it runs with, or the
  response it is spared (a redirect is status 303 with its target).
\<close>

definition guarded ::
    "(AuthCtx \<Rightarrow> Request \<Rightarrow> AuthState \<Rightarrow> AuthOutcome \<times> AuthState) \<Rightarrow> string \<Rightarrow> AuthCtx \<Rightarrow> Request \<Rightarrow> AuthState \<Rightarrow>
     (AuthIdentity, nat \<times> string) result" where
  "guarded authenticate role ctx req st =
     (case fst (authenticate ctx req st) of
        Pass ident _ \<Rightarrow> (case require_role ident role of Inr i \<Rightarrow> Inr i | Inl e \<Rightarrow> Inl (response_of e))
      | Respond code msg \<Rightarrow> Inl (code, msg)
      | RedirectTo target \<Rightarrow> Inl (303, target))"

locale auth_middleware =
  fixes authenticate :: "AuthCtx \<Rightarrow> Request \<Rightarrow> AuthState \<Rightarrow> AuthOutcome \<times> AuthState"
  assumes sound: "authenticate ctx req st = (Pass (Some ident) via, st') \<Longrightarrow> entitled ctx req st ident via"
begin

lemma passes_entitled:
  "case authenticate ctx req st of (Pass (Some ident) via, _) \<Rightarrow> entitled ctx req st ident via | _ \<Rightarrow> True"
  by (auto dest: sound split: prod.splits AuthOutcome.splits option.splits)

lemma guarded_entitled:
  assumes "guarded authenticate role ctx req st = Inr ident"
  shows "\<exists>via st'. authenticate ctx req st = (Pass (Some ident) via, st') \<and> entitled ctx req st ident via \<and>
    role_level role \<le> role_level (identity_role ident)"
proof -
  obtain o' st' where a: "authenticate ctx req st = (o', st')" by fastforce
  then obtain via where "o' = Pass (Some ident) via" "role_level role \<le> role_level (identity_role ident)"
    using assms
    by (auto simp: guarded_def require_role_def has_role_def split: AuthOutcome.splits option.splits sum.splits if_splits)
  then show ?thesis using a sound by blast
qed

lemma unguarded_refused:
  "(\<And>ident via. \<not> entitled ctx req st ident via) \<Longrightarrow> \<exists>e. guarded authenticate role ctx req st = Inl e"
  using guarded_entitled by (cases "guarded authenticate role ctx req st") blast+

end

interpretation required: auth_middleware require_auth
  by unfold_locales (simp add: require_auth_entitled)

interpretation optional: auth_middleware optional_auth
  by unfold_locales (rule optional_auth_entitled)


section \<open>Properties of the middlewares\<close>

text \<open>
  Claim C26. A request only carries an identity it is entitled to: whenever required or
  optional authentication passes a request on with an identity, the request holds a key of
  an enabled, unexpired admin from an allowed address, a valid token of an enabled user, the
  cookie of a live session of an enabled user or (optional authentication only) a redeemed
  ticket; keys and tokens count only while the settings allow them.
\<close>

theorem authenticated_requests_entitled:
  "(case require_auth ctx req st of (Pass (Some ident) via, _) \<Rightarrow> entitled ctx req st ident False \<and> via = False | _ \<Rightarrow> True) \<and>
   (case optional_auth ctx req st of (Pass (Some ident) via, _) \<Rightarrow> entitled ctx req st ident via | _ \<Rightarrow> True)"
proof
  show "case require_auth ctx req st of (Pass (Some ident) via, _) \<Rightarrow> entitled ctx req st ident False \<and> via = False | _ \<Rightarrow> True"
    using require_auth_entitled [of ctx req st] by (auto split: prod.splits AuthOutcome.splits option.splits)
  show "case optional_auth ctx req st of (Pass (Some ident) via, _) \<Rightarrow> entitled ctx req st ident via | _ \<Rightarrow> True"
    by (rule optional.passes_entitled)
qed

text \<open>The account behind an identity, which never has less than the identity's role.\<close>

lemma effective_role_le: "role_level (compute_effective_role r m) \<le> role_level r"
  by (simp add: effective_role_min split: option.splits)

lemma entitled_account:
  assumes "entitled ctx req st ident False"
  shows "(\<exists>key a h. bearer_key req = Some key \<and> (a, h) \<in> set (admins (auth_db st)) \<and>
        validate_stored_hash (env_crypto (ctx_env ctx)) key h \<and> \<not> adm_disabled a) \<or>
     (\<exists>u p. (u, p) \<in> set (users (auth_db st)) \<and> \<not> u_disabled u \<and>
        role_level (identity_role ident) \<le> role_level (u_role u))"
  using assms
proof (cases rule: entitled.cases)
  case (by_user_token key t u p)
  then show ?thesis using effective_role_le by (auto simp: token_identity_def)
qed (auto simp: session_identity_def)

text \<open>
  No handler behind \<open>require_auth\<close> and the role guard runs above the rights of the
  account: when it runs, the request holds the key of an enabled admin, or there is an
  enabled user whose own role is at least the required one, whatever the token's role cap
  says.
\<close>

theorem guarded_handlers_need_account:
  "case guarded require_auth role ctx req st of
     Inl _ \<Rightarrow> True
   | Inr _ \<Rightarrow>
       (\<exists>key a h. bearer_key req = Some key \<and> (a, h) \<in> set (admins (auth_db st)) \<and>
          validate_stored_hash (env_crypto (ctx_env ctx)) key h \<and> \<not> adm_disabled a) \<or>
       (\<exists>u p. (u, p) \<in> set (users (auth_db st)) \<and> \<not> u_disabled u \<and> role_level role \<le> role_level (u_role u))"
proof (cases "guarded require_auth role ctx req st")
  case (Inr ident)
  then obtain via st' where "require_auth ctx req st = (Pass (Some ident) via, st')"
      and lev: "role_level role \<le> role_level (identity_role ident)"
    using required.guarded_entitled by blast
  then have "entitled ctx req st ident False" using require_auth_entitled by (metis (full_types))
  then show ?thesis using entitled_account lev Inr by (fastforce intro: order_trans)
qed simp

text \<open>
  Claim C27. Logging in works until it expires: after \<open>create_auth_session\<close> for an enabled user,
  a request whose only credential is the cookie with that token reaches every handler the
  user's role allows, as that user, as long as the session has not expired, and is answered
  with 401 afterwards.
\<close>

theorem login_reaches_handlers:
  assumes "create_auth_session (env_crypto (ctx_env ctx)) now token (u_id u) ttl d = (Some tok, auth_db st)"
    and "distinct (map (\<lambda>(u, _). u_id u) (users d))" "(u, h) \<in> set (users d)" "\<not> u_disabled u"
    and "header_all req ''cookie'' = [''persea_session='' @ tok]" "list_all visible tok" "CHR '';'' \<notin> set tok"
    and "bearer_key req = None" "ctx_has_db ctx" "role_level role \<le> role_level (u_role u)"
  shows "guarded require_auth role ctx req st =
     (if registry_ts (now_utc (ctx_io ctx)) < registry_ts now + int ttl then Inr (session_identity u)
      else Inl (401, ''invalid or expired session''))"
proof -
  have "extract_cookie req ''persea_session'' = Some tok"
    using assms(5-7) by (intro extract_single_cookie) (simp_all add: visible_def byte_def)
  moreover have "check_session ctx tok st =
      (if registry_ts (now_utc (ctx_io ctx)) < registry_ts now + int ttl then Inr u else Inl InvalidSession)"
    using created_session_judged(1) [OF assms(2,3,1)] assms(4) by (simp add: check_session_def)
  ultimately show ?thesis
    using assms(8-10)
    by (simp add: guarded_def require_auth_def require_role_def has_role_def session_identity_def)
qed


definition demo_ctx :: "int \<Rightarrow> AuthCtx" where
  "demo_ctx secs = \<lparr>ctx_env = demo_env, ctx_has_db = True, ctx_proxies = [], ctx_has_tickets = True, ctx_io = demo_io secs,
     ctx_settings = Some [], ctx_ha = False, ctx_providers = []\<rparr>"

definition demo_state :: AuthState where
  "demo_state = \<lparr>auth_db = snd (create_auth_session (env_crypto demo_env) (1000 * nanos) ''tok'' 7 3600 demo_auth_db),
     recheck_cache = [], settings_cache = None, tickets = ([], None)\<rparr>"

definition demo_cookie_request :: Request where
  "demo_cookie_request = \<lparr>peer_ip = V4 1, header = Map.empty,
     header_all = (\<lambda>n. if n = ''cookie'' then [''persea_session=tok''] else []), path = ''/api/x'', query = None\<rparr>"

theorem login_reaches_handlers_witness:
  "guarded require_auth ''viewer'' (demo_ctx 3599) demo_cookie_request demo_state = Inr (session_identity demo_user) \<and>
   guarded require_auth ''viewer'' (demo_ctx 3600) demo_cookie_request demo_state = Inl (401, ''invalid or expired session'')"
proof -
  have c: "create_auth_session (env_crypto (ctx_env (demo_ctx s))) (1000 * nanos) ''tok'' (u_id demo_user) 3600 demo_auth_db =
      (Some ''tok'', auth_db demo_state)" for s
    by (simp add: demo_ctx_def demo_state_def create_auth_session_def demo_auth_db_def demo_user_def)
  have u: "distinct (map (\<lambda>(u, _). u_id u) (users demo_auth_db))" "(demo_user, None) \<in> set (users demo_auth_db)"
      "\<not> u_disabled demo_user"
    by (simp_all add: demo_auth_db_def demo_user_def)
  have r: "header_all demo_cookie_request ''cookie'' = [''persea_session='' @ ''tok'']" "list_all visible ''tok''"
      "CHR '';'' \<notin> set ''tok''" "bearer_key demo_cookie_request = None"
    by (simp_all add: demo_cookie_request_def visible_def byte_def bearer_key_def)
  have x: "ctx_has_db (demo_ctx s)" for s by (simp add: demo_ctx_def)
  have v: "role_level ''viewer'' \<le> role_level (u_role demo_user)" by code_simp
  show ?thesis
    using login_reaches_handlers [OF c [of 3599] u r x v] login_reaches_handlers [OF c [of 3600] u r x v]
    by (simp add: demo_ctx_def demo_io_def registry_ts_def nanos_def)
qed

text \<open>
  A key that an administrator has locked out is refused by required authentication, while
  optional authentication goes on to the session cookie of the same request.
\<close>

lemma locked_out_key_falls_back:
  assumes "bearer_key req = Some key" "ctx_has_db ctx" "\<not> api_keys_enabled (flags_at ctx st)" "\<not> ctx_has_tickets ctx"
  shows "fst (require_auth ctx req st) = Respond 403 ''API key authentication is disabled by an administrator'' \<and>
    fst (optional_auth ctx req st) = Pass (optional_by_session ctx req st) False"
proof -
  obtain e st1 where k: "cached_api_keys_enabled ctx st = (e, st1)" by fastforce
  then have "\<not> e" "auth_db st1 = auth_db st" using api_keys_flag [OF k] assms(3) by auto
  moreover from this(2) have "optional_by_session ctx req st1 = optional_by_session ctx req st"
    by (simp add: optional_by_session_def check_session_def cong: option.case_cong)
  ultimately show ?thesis using assms k
    by (simp add: require_auth_def require_by_key_def optional_auth_def optional_by_key_def optional_by_ticket_def)
qed

end
