(* ===== verification/Address_Book.thy ===== *)
theory Address_Book
  imports Identity "HOL-Library.List_Lexorder" "HOL-Library.Char_ord"
begin

text \<open>
  The address book tables of \<open>src/src/db.rs\<close>: folders, entries, encrypted credentials, and the
  personal folders of users with their references to shared entries. The SQLite path runs
  without foreign keys, so the operations delete dependent rows themselves; the invariant
  \<open>book_inv\<close> is the referential integrity they have to keep.
\<close>

section \<open>Tables\<close>

record AbFolder =
  f_id :: int
  f_scope :: string
  f_name :: string
  f_description :: string
  f_allowed_groups :: string
  f_inherit_from_parent :: bool
  f_created_at :: RegistryTs
  f_updated_at :: RegistryTs

record AbEntry =
  e_id :: int
  e_folder_id :: int
  e_name :: string
  e_display_name :: string
  e_protocol :: string
  e_hostname :: string
  e_port :: "16 word option"
  e_username :: string
  e_protocol_config :: string
  e_allowed_groups :: string
  e_created_at :: RegistryTs
  e_updated_at :: RegistryTs

record AbCredential =
  c_id :: int
  c_entry_id :: int
  c_type :: string
  c_data :: string

record UserFolder =
  uf_id :: int
  uf_user_id :: int
  uf_name :: string
  uf_description :: string
  uf_created_at :: RegistryTs

record UserFolderEntry =
  ufe_id :: int
  ufe_user_id :: int
  ufe_folder_id :: int
  ufe_entry_id :: int

text \<open>The tables, and the last identifier each has handed out.\<close>

record Book =
  folders :: "AbFolder list"
  entries :: "AbEntry list"
  credentials :: "AbCredential list"
  user_folders :: "UserFolder list"
  user_folder_entries :: "UserFolderEntry list"
  folder_seq :: int
  entry_seq :: int
  cred_seq :: int
  ufolder_seq :: int
  uentry_seq :: int

datatype StoreError = UniqueViolation | QueryReturnedNoRows

definition book_new :: Book where
  "book_new = \<lparr>folders = [], entries = [], credentials = [], user_folders = [], user_folder_entries = [],
     folder_seq = 0, entry_seq = 0, cred_seq = 0, ufolder_seq = 0, uentry_seq = 0\<rparr>"

section \<open>Folders\<close>

abbreviation is_folder :: "string \<Rightarrow> string \<Rightarrow> AbFolder \<Rightarrow> bool" where
  "is_folder scope name f \<equiv> f_scope f = scope \<and> f_name f = name"

definition create_ab_folder ::
    "RegistryTs \<Rightarrow> string \<Rightarrow> string \<Rightarrow> string \<Rightarrow> string \<Rightarrow> bool \<Rightarrow> Book \<Rightarrow> (int, StoreError) result \<times> Book" where
  "create_ab_folder now scope name description allowed_groups inherit b =
     (if list_ex (is_folder scope name) (folders b) then (Inl UniqueViolation, b)
      else let i = folder_seq b + 1
           in (Inr i, b\<lparr>folder_seq := i, folders := folders b @ [\<lparr>f_id = i, f_scope = scope, f_name = name,
                f_description = description, f_allowed_groups = allowed_groups, f_inherit_from_parent = inherit,
                f_created_at = now, f_updated_at = now\<rparr>]\<rparr>))"

definition update_ab_folder ::
    "RegistryTs \<Rightarrow> string \<Rightarrow> string \<Rightarrow> string \<Rightarrow> string \<Rightarrow> bool \<Rightarrow> Book \<Rightarrow> bool \<times> Book" where
  "update_ab_folder now scope name description allowed_groups inherit b =
     (list_ex (is_folder scope name) (folders b),
      b\<lparr>folders := map (\<lambda>f. if is_folder scope name f
          then f\<lparr>f_description := description, f_allowed_groups := allowed_groups, f_inherit_from_parent := inherit,
                 f_updated_at := now\<rparr>
          else f) (folders b)\<rparr>)"

definition list_ab_folders :: "string option \<Rightarrow> Book \<Rightarrow> AbFolder list" where
  "list_ab_folders scope b =
     (case scope of
        Some s \<Rightarrow> sort_key f_name (filter (\<lambda>f. f_scope f = s) (folders b))
      | None \<Rightarrow> sort_key f_scope (sort_key f_name (folders b)))"

definition get_ab_folder :: "string \<Rightarrow> string \<Rightarrow> Book \<Rightarrow> AbFolder option" where
  "get_ab_folder scope name b = find (is_folder scope name) (folders b)"

definition get_ab_folder_by_id :: "int \<Rightarrow> Book \<Rightarrow> AbFolder option" where
  "get_ab_folder_by_id i b = find (\<lambda>f. f_id f = i) (folders b)"

definition delete_ab_folder :: "string \<Rightarrow> string \<Rightarrow> Book \<Rightarrow> bool \<times> Book" where
  "delete_ab_folder scope name b =
     (let fids = map f_id (filter (is_folder scope name) (folders b));
          eids = map e_id (filter (\<lambda>e. e_folder_id e \<in> set fids) (entries b))
      in (list_ex (is_folder scope name) (folders b),
          b\<lparr>credentials := filter (\<lambda>c. c_entry_id c \<notin> set eids) (credentials b),
            user_folder_entries := filter (\<lambda>r. ufe_entry_id r \<notin> set eids) (user_folder_entries b),
            entries := filter (\<lambda>e. e_folder_id e \<notin> set fids) (entries b),
            folders := filter (\<lambda>f. \<not> is_folder scope name f) (folders b)\<rparr>))"

section \<open>Entries\<close>

definition create_ab_entry ::
    "RegistryTs \<Rightarrow> int \<Rightarrow> string \<Rightarrow> string \<Rightarrow> string \<Rightarrow> string \<Rightarrow> 16 word option \<Rightarrow> string \<Rightarrow> string \<Rightarrow> string \<Rightarrow>
     Book \<Rightarrow> (int, StoreError) result \<times> Book" where
  "create_ab_entry now folder_id name display protocol host port uname protocol_config allowed_groups b =
     (if list_ex (\<lambda>e. e_folder_id e = folder_id \<and> e_name e = name) (entries b) then (Inl UniqueViolation, b)
      else let i = entry_seq b + 1
           in (Inr i, b\<lparr>entry_seq := i, entries := entries b @ [\<lparr>e_id = i, e_folder_id = folder_id, e_name = name,
                e_display_name = display, e_protocol = protocol, e_hostname = host, e_port = port,
                e_username = uname, e_protocol_config = protocol_config, e_allowed_groups = allowed_groups,
                e_created_at = now, e_updated_at = now\<rparr>]\<rparr>))"

definition list_ab_entries :: "int \<Rightarrow> Book \<Rightarrow> AbEntry list" where
  "list_ab_entries folder_id b = sort_key e_name (filter (\<lambda>e. e_folder_id e = folder_id) (entries b))"

definition get_ab_entry :: "int \<Rightarrow> string \<Rightarrow> Book \<Rightarrow> AbEntry option" where
  "get_ab_entry folder_id name b = find (\<lambda>e. e_folder_id e = folder_id \<and> e_name e = name) (entries b)"

definition update_entry_where :: "int \<Rightarrow> (AbEntry \<Rightarrow> AbEntry) \<Rightarrow> Book \<Rightarrow> bool \<times> Book" where
  "update_entry_where i g b =
     (list_ex (\<lambda>e. e_id e = i) (entries b),
      b\<lparr>entries := map (\<lambda>e. if e_id e = i then g e else e) (entries b)\<rparr>)"

definition update_ab_entry ::
    "RegistryTs \<Rightarrow> int \<Rightarrow> string \<Rightarrow> string \<Rightarrow> string \<Rightarrow> 16 word option \<Rightarrow> string \<Rightarrow> string \<Rightarrow> string \<Rightarrow> Book \<Rightarrow> bool \<times> Book" where
  "update_ab_entry now i display protocol host port uname protocol_config allowed_groups b =
     update_entry_where i (\<lambda>e. e\<lparr>e_display_name := display, e_protocol := protocol, e_hostname := host,
       e_port := port, e_username := uname, e_protocol_config := protocol_config,
       e_allowed_groups := allowed_groups, e_updated_at := now\<rparr>) b"

definition set_ab_entry_protocol_config :: "RegistryTs \<Rightarrow> int \<Rightarrow> string \<Rightarrow> Book \<Rightarrow> bool \<times> Book" where
  "set_ab_entry_protocol_config now i protocol_config b =
     update_entry_where i (\<lambda>e. e\<lparr>e_protocol_config := protocol_config, e_updated_at := now\<rparr>) b"

definition list_ab_entries_by_protocols :: "string list \<Rightarrow> Book \<Rightarrow> AbEntry list" where
  "list_ab_entries_by_protocols protocols b =
     (if protocols = [] then [] else sort_key e_name (filter (\<lambda>e. e_protocol e \<in> set protocols) (entries b)))"

definition delete_ab_entry :: "int \<Rightarrow> Book \<Rightarrow> bool \<times> Book" where
  "delete_ab_entry i b =
     (list_ex (\<lambda>e. e_id e = i) (entries b),
      b\<lparr>credentials := filter (\<lambda>c. c_entry_id c \<noteq> i) (credentials b),
        user_folder_entries := filter (\<lambda>r. ufe_entry_id r \<noteq> i) (user_folder_entries b),
        entries := filter (\<lambda>e. e_id e \<noteq> i) (entries b)\<rparr>)"

section \<open>Credentials\<close>

definition store_ab_credential :: "int \<Rightarrow> string \<Rightarrow> string \<Rightarrow> Book \<Rightarrow> Book" where
  "store_ab_credential entry_id kind data b =
     (if list_ex (\<lambda>c. c_entry_id c = entry_id \<and> c_type c = kind) (credentials b)
      then b\<lparr>credentials := map (\<lambda>c. if c_entry_id c = entry_id \<and> c_type c = kind then c\<lparr>c_data := data\<rparr> else c)
               (credentials b)\<rparr>
      else let i = cred_seq b + 1
           in b\<lparr>cred_seq := i, credentials := credentials b @
                [\<lparr>c_id = i, c_entry_id = entry_id, c_type = kind, c_data = data\<rparr>]\<rparr>)"

definition get_ab_credential :: "int \<Rightarrow> string \<Rightarrow> Book \<Rightarrow> AbCredential option" where
  "get_ab_credential entry_id kind b = find (\<lambda>c. c_entry_id c = entry_id \<and> c_type c = kind) (credentials b)"

definition list_ab_credentials :: "int \<Rightarrow> Book \<Rightarrow> AbCredential list" where
  "list_ab_credentials entry_id b = sort_key c_type (filter (\<lambda>c. c_entry_id c = entry_id) (credentials b))"

definition delete_ab_credential :: "int \<Rightarrow> string \<Rightarrow> Book \<Rightarrow> bool \<times> Book" where
  "delete_ab_credential entry_id kind b =
     (list_ex (\<lambda>c. c_entry_id c = entry_id \<and> c_type c = kind) (credentials b),
      b\<lparr>credentials := filter (\<lambda>c. \<not> (c_entry_id c = entry_id \<and> c_type c = kind)) (credentials b)\<rparr>)"

definition folder_has_allowed_groups :: "string \<Rightarrow> string \<Rightarrow> Book \<Rightarrow> (bool, StoreError) result" where
  "folder_has_allowed_groups scope name b =
     (case get_ab_folder scope name b of
        None \<Rightarrow> Inl QueryReturnedNoRows
      | Some f \<Rightarrow> Inr (list_ex (\<lambda>e. e_folder_id e = f_id f \<and> e_allowed_groups e \<noteq> []) (entries b)))"

section \<open>Personal folders\<close>

definition create_user_folder ::
    "RegistryTs \<Rightarrow> int \<Rightarrow> string \<Rightarrow> string \<Rightarrow> Book \<Rightarrow> (int, StoreError) result \<times> Book" where
  "create_user_folder now uid name description b =
     (if list_ex (\<lambda>f. uf_user_id f = uid \<and> uf_name f = name) (user_folders b) then (Inl UniqueViolation, b)
      else let i = ufolder_seq b + 1
           in (Inr i, b\<lparr>ufolder_seq := i, user_folders := user_folders b @
                [\<lparr>uf_id = i, uf_user_id = uid, uf_name = name, uf_description = description, uf_created_at = now\<rparr>]\<rparr>))"

definition owns :: "int \<Rightarrow> int \<Rightarrow> UserFolder \<Rightarrow> bool" where
  "owns uid fid f \<longleftrightarrow> uf_id f = fid \<and> uf_user_id f = uid"

definition rename_user_folder :: "int \<Rightarrow> int \<Rightarrow> string \<Rightarrow> Book \<Rightarrow> (bool, StoreError) result \<times> Book" where
  "rename_user_folder uid fid new_name b =
     (if list_ex (owns uid fid) (user_folders b) \<and>
         list_ex (\<lambda>f. uf_user_id f = uid \<and> uf_name f = new_name \<and> uf_id f \<noteq> fid) (user_folders b)
      then (Inl UniqueViolation, b)
      else (Inr (list_ex (owns uid fid) (user_folders b)),
            b\<lparr>user_folders := map (\<lambda>f. if owns uid fid f then f\<lparr>uf_name := new_name\<rparr> else f) (user_folders b)\<rparr>))"

definition delete_user_folder :: "int \<Rightarrow> int \<Rightarrow> Book \<Rightarrow> bool \<times> Book" where
  "delete_user_folder uid fid b =
     (list_ex (owns uid fid) (user_folders b),
      b\<lparr>user_folder_entries := filter (\<lambda>r. \<not> (ufe_folder_id r = fid \<and> ufe_user_id r = uid)) (user_folder_entries b),
        user_folders := filter (\<lambda>f. \<not> owns uid fid f) (user_folders b)\<rparr>)"

definition add_user_folder_entry :: "int \<Rightarrow> int \<Rightarrow> int \<Rightarrow> Book \<Rightarrow> (int, StoreError) result \<times> Book" where
  "add_user_folder_entry uid fid eid b =
     (if \<not> list_ex (owns uid fid) (user_folders b) then (Inl QueryReturnedNoRows, b)
      else if list_ex (\<lambda>r. ufe_user_id r = uid \<and> ufe_folder_id r = fid \<and> ufe_entry_id r = eid) (user_folder_entries b)
      then (Inl UniqueViolation, b)
      else let i = uentry_seq b + 1
           in (Inr i, b\<lparr>uentry_seq := i, user_folder_entries := user_folder_entries b @
                [\<lparr>ufe_id = i, ufe_user_id = uid, ufe_folder_id = fid, ufe_entry_id = eid\<rparr>]\<rparr>))"

definition remove_user_folder_entry :: "int \<Rightarrow> int \<Rightarrow> int \<Rightarrow> Book \<Rightarrow> bool \<times> Book" where
  "remove_user_folder_entry uid fid eid b =
     (let hit = (\<lambda>r. ufe_user_id r = uid \<and> ufe_folder_id r = fid \<and> ufe_entry_id r = eid)
      in (list_ex hit (user_folder_entries b),
          b\<lparr>user_folder_entries := filter (\<lambda>r. \<not> hit r) (user_folder_entries b)\<rparr>))"

definition list_user_folders :: "int \<Rightarrow> Book \<Rightarrow> UserFolder list" where
  "list_user_folders uid b = sort_key uf_name (filter (\<lambda>f. uf_user_id f = uid) (user_folders b))"

definition list_user_folder_entries :: "int \<Rightarrow> int \<Rightarrow> Book \<Rightarrow> AbEntry list" where
  "list_user_folder_entries uid fid b =
     sort_key e_name (concat (map (\<lambda>r. filter (\<lambda>e. e_id e = ufe_entry_id r) (entries b))
       (filter (\<lambda>r. ufe_user_id r = uid \<and> ufe_folder_id r = fid) (user_folder_entries b))))"

definition list_user_folder_children :: "int \<Rightarrow> string \<Rightarrow> Book \<Rightarrow> UserFolder list" where
  "list_user_folder_children uid path b =
     filter (\<lambda>f. if path = [] then CHR ''/'' \<notin> set (uf_name f)
                 else (case strip_prefix (path @ ''/'') (uf_name f) of
                         None \<Rightarrow> False
                       | Some rest \<Rightarrow> rest \<noteq> [] \<and> CHR ''/'' \<notin> set rest))
       (list_user_folders uid b)"

text \<open>The part of \<open>delete_user\<close> that concerns the personal folders of the users it removes.\<close>

definition delete_user_folders_of :: "int list \<Rightarrow> Book \<Rightarrow> Book" where
  "delete_user_folders_of uids b =
     b\<lparr>user_folder_entries := filter (\<lambda>r. ufe_user_id r \<notin> set uids) (user_folder_entries b),
       user_folders := filter (\<lambda>f. uf_user_id f \<notin> set uids) (user_folders b)\<rparr>"


section \<open>Referential integrity\<close>

definition folders_inv :: "Book \<Rightarrow> bool" where
  "folders_inv b \<longleftrightarrow> distinct (map f_id (folders b)) \<and> distinct (map (\<lambda>f. (f_scope f, f_name f)) (folders b)) \<and>
     (\<forall>f \<in> set (folders b). f_id f \<le> folder_seq b)"

definition entries_inv :: "Book \<Rightarrow> bool" where
  "entries_inv b \<longleftrightarrow> distinct (map e_id (entries b)) \<and> distinct (map (\<lambda>e. (e_folder_id e, e_name e)) (entries b)) \<and>
     (\<forall>e \<in> set (entries b). e_id e \<le> entry_seq b \<and> e_folder_id e \<in> f_id ` set (folders b))"

definition credentials_inv :: "Book \<Rightarrow> bool" where
  "credentials_inv b \<longleftrightarrow> distinct (map (\<lambda>c. (c_entry_id c, c_type c)) (credentials b)) \<and>
     (\<forall>c \<in> set (credentials b). c_entry_id c \<in> e_id ` set (entries b))"

definition user_folders_inv :: "Book \<Rightarrow> bool" where
  "user_folders_inv b \<longleftrightarrow> distinct (map uf_id (user_folders b)) \<and>
     distinct (map (\<lambda>f. (uf_user_id f, uf_name f)) (user_folders b)) \<and>
     (\<forall>f \<in> set (user_folders b). uf_id f \<le> ufolder_seq b)"

definition references_inv :: "Book \<Rightarrow> bool" where
  "references_inv b \<longleftrightarrow>
     distinct (map (\<lambda>r. (ufe_user_id r, ufe_folder_id r, ufe_entry_id r)) (user_folder_entries b)) \<and>
     (\<forall>r \<in> set (user_folder_entries b).
        (\<exists>f \<in> set (user_folders b). owns (ufe_user_id r) (ufe_folder_id r) f) \<and> ufe_entry_id r \<in> e_id ` set (entries b))"

definition book_inv :: "Book \<Rightarrow> bool" where
  "book_inv b \<longleftrightarrow> folders_inv b \<and> entries_inv b \<and> credentials_inv b \<and> user_folders_inv b \<and> references_inv b"

lemmas book_invs = book_inv_def folders_inv_def entries_inv_def credentials_inv_def user_folders_inv_def references_inv_def

lemma distinct_map_snoc: "distinct (map k (xs @ [x])) \<longleftrightarrow> distinct (map k xs) \<and> k x \<notin> k ` set xs"
  by auto

lemma distinct_map_filter_key: "distinct (map k xs) \<Longrightarrow> distinct (map k (filter P xs))"
  by (simp add: distinct_map_filter)

lemma map_keeps_key: "(\<And>x. k (g x) = k x) \<Longrightarrow> map k (map g xs) = map k xs"
  by simp

lemma fresh_id: "\<forall>x \<in> set xs. k x \<le> (n :: int) \<Longrightarrow> n + 1 \<notin> k ` set xs"
  by force

lemma create_folder_inv: "book_inv b \<Longrightarrow> book_inv (snd (create_ab_folder now scope name d g inh b))"
  using fresh_id [of "folders b" f_id "folder_seq b"]
  by (auto simp: book_invs create_ab_folder_def Let_def list_ex_iff)

lemma update_folder_inv:
  assumes "book_inv b"
  shows "book_inv (snd (update_ab_folder now scope name d g inh b))"
proof -
  let ?u = "\<lambda>f. if is_folder scope name f
     then f\<lparr>f_description := d, f_allowed_groups := g, f_inherit_from_parent := inh, f_updated_at := now\<rparr> else f"
  have k: "f_id (?u f) = f_id f" "(f_scope (?u f), f_name (?u f)) = (f_scope f, f_name f)" for f by auto
  have "f_id ` ?u ` set (folders b) = f_id ` set (folders b)" by (simp add: image_image k del: if_image_distrib)
  then show ?thesis
    using assms unfolding book_invs update_ab_folder_def
    by (simp add: map_keeps_key k del: map_map if_image_distrib)
qed

text \<open>A key that is not among the deleted rows is still among the kept ones.\<close>

lemma kept_key: "x \<in> k ` set xs \<Longrightarrow> x \<notin> k ` set (filter P xs) \<Longrightarrow> x \<in> k ` set (filter (\<lambda>y. \<not> P y) xs)"
  by auto

lemma delete_folder_inv:
  assumes "book_inv b"
  shows "book_inv (snd (delete_ab_folder scope name b))"
proof -
  define fids where "fids = f_id ` set (filter (is_folder scope name) (folders b))"
  define eids where "eids = e_id ` set (filter (\<lambda>e. e_folder_id e \<in> fids) (entries b))"
  let ?b' = "snd (delete_ab_folder scope name b)"
  have b': "?b' =
      b\<lparr>credentials := filter (\<lambda>c. c_entry_id c \<notin> eids) (credentials b),
        user_folder_entries := filter (\<lambda>r. ufe_entry_id r \<notin> eids) (user_folder_entries b),
        entries := filter (\<lambda>e. e_folder_id e \<notin> fids) (entries b),
        folders := filter (\<lambda>f. \<not> is_folder scope name f) (folders b)\<rparr>"
    unfolding delete_ab_folder_def Let_def fids_def eids_def by simp
  have f: "x \<in> f_id ` set (filter (\<lambda>f. \<not> is_folder scope name f) (folders b))"
    if "x \<in> f_id ` set (folders b)" "x \<notin> fids" for x
    using kept_key [of x f_id "folders b" "is_folder scope name"] that unfolding fids_def by simp
  have e: "x \<in> e_id ` set (filter (\<lambda>e. e_folder_id e \<notin> fids) (entries b))"
    if "x \<in> e_id ` set (entries b)" "x \<notin> eids" for x
    using kept_key [of x e_id "entries b" "\<lambda>e. e_folder_id e \<in> fids"] that unfolding eids_def by simp
  have "folders_inv ?b'" using assms unfolding b' by (simp add: book_inv_def folders_inv_def distinct_map_filter_key)
  moreover have "entries_inv ?b'"
    using assms f unfolding b' book_inv_def entries_inv_def by (simp add: distinct_map_filter_key del: set_filter) auto
  moreover have "credentials_inv ?b'"
    using assms e unfolding b' book_inv_def credentials_inv_def by (simp add: distinct_map_filter_key del: set_filter) auto
  moreover have "user_folders_inv ?b'" using assms unfolding b' by (simp add: book_inv_def user_folders_inv_def)
  moreover have "references_inv ?b'"
    using assms e unfolding b' book_inv_def references_inv_def by (simp add: distinct_map_filter_key del: set_filter) auto
  ultimately show ?thesis by (simp add: book_inv_def)
qed

lemma delete_entry_inv:
  assumes "book_inv b"
  shows "book_inv (snd (delete_ab_entry i b))"
proof -
  have e: "x \<in> e_id ` set (filter (\<lambda>e. e_id e \<noteq> i) (entries b))" if "x \<in> e_id ` set (entries b)" "x \<noteq> i" for x
    using that by auto
  show ?thesis
    using assms e unfolding delete_ab_entry_def book_invs by (simp add: distinct_map_filter_key)
qed

lemma create_entry_inv:
  assumes "book_inv b" "fid \<in> f_id ` set (folders b)"
  shows "book_inv (snd (create_ab_entry now fid name d pr h po u cfg g b))"
  using assms fresh_id [of "entries b" e_id "entry_seq b"]
  by (auto simp: book_invs create_ab_entry_def Let_def list_ex_iff)

lemma update_entry_inv:
  assumes "book_inv b" "\<And>e. e_id (g e) = e_id e" "\<And>e. e_folder_id (g e) = e_folder_id e" "\<And>e. e_name (g e) = e_name e"
  shows "book_inv (snd (update_entry_where i g b))"
proof -
  let ?u = "\<lambda>e. if e_id e = i then g e else e"
  have k: "e_id (?u e) = e_id e" "e_folder_id (?u e) = e_folder_id e" "e_name (?u e) = e_name e" for e
    using assms(2-4) by auto
  have "e_id ` ?u ` set (entries b) = e_id ` set (entries b)" by (simp add: image_image k del: if_image_distrib)
  then show ?thesis
    using assms(1) unfolding book_invs update_entry_where_def
    by (simp add: map_keeps_key k del: map_map if_image_distrib)
qed

lemma store_credential_inv:
  assumes "book_inv b" "eid \<in> e_id ` set (entries b)"
  shows "book_inv (store_ab_credential eid kind data b)"
proof (cases "list_ex (\<lambda>c. c_entry_id c = eid \<and> c_type c = kind) (credentials b)")
  case True
  let ?u = "\<lambda>c. if c_entry_id c = eid \<and> c_type c = kind then c\<lparr>c_data := data\<rparr> else c"
  have k: "c_entry_id (?u c) = c_entry_id c" "c_type (?u c) = c_type c" for c by auto
  show ?thesis
    using assms True unfolding book_invs store_ab_credential_def
    by (simp add: map_keeps_key k ball_Un del: map_map if_image_distrib)
next
  case False
  then show ?thesis using assms by (auto simp: book_invs store_ab_credential_def Let_def list_ex_iff)
qed

lemma delete_credential_inv: "book_inv b \<Longrightarrow> book_inv (snd (delete_ab_credential eid kind b))"
  by (simp add: book_invs delete_ab_credential_def distinct_map_filter_key)

lemma create_user_folder_inv: "book_inv b \<Longrightarrow> book_inv (snd (create_user_folder now uid name d b))"
  using fresh_id [of "user_folders b" uf_id "ufolder_seq b"]
  by (auto simp: book_invs create_user_folder_def Let_def list_ex_iff)

lemma distinct_map_replace:
  assumes "distinct xs" "distinct (map k xs)" "\<And>x y. x \<in> set xs \<Longrightarrow> y \<in> set xs \<Longrightarrow> P x \<Longrightarrow> P y \<Longrightarrow> x = y"
    "\<And>x y. x \<in> set xs \<Longrightarrow> y \<in> set xs \<Longrightarrow> P x \<Longrightarrow> \<not> P y \<Longrightarrow> k (g x) \<noteq> k y"
  shows "distinct (map k (map (\<lambda>x. if P x then g x else x) xs))"
  using assms
proof (induction xs)
  case (Cons a xs)
  have "distinct (map k (map (\<lambda>x. if P x then g x else x) xs))" using Cons.prems by (intro Cons.IH) auto
  moreover have "k (if P a then g a else a) \<noteq> k (if P y then g y else y)" if "y \<in> set xs" for y
    using that Cons.prems(1,2) Cons.prems(3) [of a y] Cons.prems(4) [of a y] Cons.prems(4) [of y a]
    by (cases "P a"; cases "P y") force+
  then have "k (if P a then g a else a) \<notin> set (map k (map (\<lambda>x. if P x then g x else x) xs))"
    unfolding set_map by blast
  ultimately show ?case unfolding list.map distinct.simps by blast
qed simp

lemma rename_user_folder_inv:
  assumes "book_inv b"
  shows "book_inv (snd (rename_user_folder uid fid name b))"
proof -
  let ?u = "\<lambda>f. if owns uid fid f then f\<lparr>uf_name := name\<rparr> else f"
  have k: "uf_id (?u f) = uf_id f" "uf_user_id (?u f) = uf_user_id f" "owns u i (?u f) = owns u i f" for f u i
    by (auto simp: owns_def)
  show ?thesis
  proof (cases "list_ex (owns uid fid) (user_folders b) \<and>
      list_ex (\<lambda>f. uf_user_id f = uid \<and> uf_name f = name \<and> uf_id f \<noteq> fid) (user_folders b)")
    case False
    have "distinct (map uf_id (user_folders b))" "distinct (map (\<lambda>f. (uf_user_id f, uf_name f)) (user_folders b))"
      using assms by (simp_all add: book_invs)
    then have keys: "distinct (user_folders b)" "distinct (map (\<lambda>f. (uf_user_id f, uf_name f)) (user_folders b))"
      and ids: "inj_on uf_id (set (user_folders b))" by (simp_all add: distinct_map)
    have "distinct (map (\<lambda>f. (uf_user_id f, uf_name f)) (map ?u (user_folders b)))"
    proof (rule distinct_map_replace [OF keys])
      show "x = y" if "x \<in> set (user_folders b)" "y \<in> set (user_folders b)" "owns uid fid x" "owns uid fid y" for x y
        using that ids by (auto simp: owns_def dest: inj_onD)
      show "(uf_user_id (x\<lparr>uf_name := name\<rparr>), uf_name (x\<lparr>uf_name := name\<rparr>)) \<noteq> (uf_user_id y, uf_name y)"
        if "x \<in> set (user_folders b)" "y \<in> set (user_folders b)" "owns uid fid x" "\<not> owns uid fid y" for x y
        using that False by (auto simp: owns_def list_ex_iff)
    qed
    then show ?thesis
      using assms False unfolding book_invs rename_user_folder_def
      by (simp add: map_keeps_key k del: map_map if_image_distrib)
  qed (use assms in \<open>simp add: rename_user_folder_def\<close>)
qed

lemma delete_user_folder_inv:
  assumes "book_inv b"
  shows "book_inv (snd (delete_user_folder uid fid b))"
proof -
  have keep: "\<exists>f \<in> set (filter (\<lambda>f. \<not> owns uid fid f) (user_folders b)). owns u i f"
    if "\<exists>f \<in> set (user_folders b). owns u i f" "\<not> (i = fid \<and> u = uid)" for u i
    using that by (auto simp: owns_def)
  show ?thesis using assms keep unfolding delete_user_folder_def book_invs by (simp add: distinct_map_filter_key)
qed

lemma add_reference_inv:
  assumes "book_inv b" "eid \<in> e_id ` set (entries b)"
  shows "book_inv (snd (add_user_folder_entry uid fid eid b))"
  using assms by (auto simp: book_invs add_user_folder_entry_def Let_def list_ex_iff)

lemma remove_reference_inv: "book_inv b \<Longrightarrow> book_inv (snd (remove_user_folder_entry uid fid eid b))"
  by (simp add: book_invs remove_user_folder_entry_def Let_def distinct_map_filter_key)

lemma delete_users_inv:
  assumes "book_inv b"
  shows "book_inv (delete_user_folders_of uids b)"
proof -
  have keep: "\<exists>f \<in> set (filter (\<lambda>f. uf_user_id f \<notin> set uids) (user_folders b)). owns u i f"
    if "\<exists>f \<in> set (user_folders b). owns u i f" "u \<notin> set uids" for u i
    using that by (auto simp: owns_def)
  show ?thesis using assms keep unfolding delete_user_folders_of_def book_invs by (simp add: distinct_map_filter_key)
qed


section \<open>Runs\<close>

datatype BookOp =
    NewFolder RegistryTs string string string string bool
  | EditFolder RegistryTs string string string string bool
  | DropFolder string string
  | NewEntry RegistryTs int string string string string "16 word option" string string string
  | EditEntry RegistryTs int string string string "16 word option" string string string
  | SetConfig RegistryTs int string
  | DropEntry int
  | StoreCred int string string
  | DropCred int string
  | NewUserFolder RegistryTs int string string
  | RenameUserFolder int int string
  | DropUserFolder int int
  | AddRef int int int
  | RemoveRef int int int
  | DropUsers "int list"

fun book_step :: "BookOp \<Rightarrow> Book \<Rightarrow> Book" where
  "book_step (NewFolder ts sc n d g inh) b = snd (create_ab_folder ts sc n d g inh b)"
| "book_step (EditFolder ts sc n d g inh) b = snd (update_ab_folder ts sc n d g inh b)"
| "book_step (DropFolder sc n) b = snd (delete_ab_folder sc n b)"
| "book_step (NewEntry ts fid n d p h po u cfg g) b = snd (create_ab_entry ts fid n d p h po u cfg g b)"
| "book_step (EditEntry ts i d p h po u cfg g) b = snd (update_ab_entry ts i d p h po u cfg g b)"
| "book_step (SetConfig ts i cfg) b = snd (set_ab_entry_protocol_config ts i cfg b)"
| "book_step (DropEntry i) b = snd (delete_ab_entry i b)"
| "book_step (StoreCred i k d) b = store_ab_credential i k d b"
| "book_step (DropCred i k) b = snd (delete_ab_credential i k b)"
| "book_step (NewUserFolder ts u n d) b = snd (create_user_folder ts u n d b)"
| "book_step (RenameUserFolder u f n) b = snd (rename_user_folder u f n b)"
| "book_step (DropUserFolder u f) b = snd (delete_user_folder u f b)"
| "book_step (AddRef u f e) b = snd (add_user_folder_entry u f e b)"
| "book_step (RemoveRef u f e) b = snd (remove_user_folder_entry u f e b)"
| "book_step (DropUsers us) b = delete_user_folders_of us b"

text \<open>
  The handlers look the folder of a new entry and the entry of a credential or a reference
  up before they write; the tables themselves do not check it.
\<close>

fun book_ok :: "BookOp \<Rightarrow> Book \<Rightarrow> bool" where
  "book_ok (NewEntry ts fid n d p h po u cfg g) b = (fid \<in> set (map f_id (folders b)))"
| "book_ok (StoreCred i k d) b = (i \<in> set (map e_id (entries b)))"
| "book_ok (AddRef u f e) b = (e \<in> set (map e_id (entries b)))"
| "book_ok _ b = True"

fun book_run :: "BookOp list \<Rightarrow> Book \<Rightarrow> Book option" where
  "book_run [] b = Some b"
| "book_run (op # ops) b = (if book_ok op b then book_run ops (book_step op b) else None)"

lemma book_step_inv:
  assumes "book_inv b" "book_ok op b"
  shows "book_inv (book_step op b)"
  using assms
  by (cases op) (auto intro: create_folder_inv update_folder_inv delete_folder_inv create_entry_inv update_entry_inv
      delete_entry_inv store_credential_inv delete_credential_inv create_user_folder_inv rename_user_folder_inv
      delete_user_folder_inv add_reference_inv remove_reference_inv delete_users_inv
      simp: update_ab_entry_def set_ab_entry_protocol_config_def)

lemma book_run_inv: "book_inv b \<Longrightarrow> book_run ops b = Some b' \<Longrightarrow> book_inv b'"
  by (induction ops arbitrary: b) (auto split: if_splits intro: book_step_inv)

lemma book_new_inv: "book_inv book_new"
  by (simp add: book_invs book_new_def)


definition demo_book_ops :: "BookOp list" where
  "demo_book_ops = [NewFolder 0 ''shared'' ''Clients'' [] ''ops'' True, NewFolder 0 ''shared'' ''Clients/Acme'' [] [] True,
     NewEntry 1 2 ''db'' ''DB'' ''ssh'' ''h'' (Some 22) ''root'' ''{}'' [], StoreCred 1 ''password'' ''enc:v1:x'',
     NewUserFolder 2 7 ''Mine'' [], AddRef 7 1 1]"

definition demo_book :: Book where
  "demo_book = the (book_run demo_book_ops book_new)"


section \<open>Deletion\<close>

lemma find_filter: "find P (filter Q xs) = find (\<lambda>x. P x \<and> Q x) xs"
  by (induction xs) auto

lemma find_False: "(\<And>x. \<not> P x) \<Longrightarrow> find P xs = None"
  by (simp add: find_None_iff)

text \<open>
  Deleting a folder deletes what depends on it and nothing else: afterwards the
  folder, its entries, their credentials and all references to them are gone, while every
  entry of another folder, its credentials and the references to it are untouched.
\<close>

theorem delete_folder_exact:
  assumes "book_inv b" "get_ab_folder scope name b = Some f" "delete_ab_folder scope name b = (r, b')"
  shows "r \<and> get_ab_folder scope name b' = None \<and> list_ab_entries (f_id f) b' = [] \<and>
    entries b' = filter (\<lambda>e. e_folder_id e \<noteq> f_id f) (entries b) \<and>
    (if e \<in> set (entries b) then
       get_ab_credential (e_id e) kind b' = (if e_folder_id e = f_id f then None else get_ab_credential (e_id e) kind b) \<and>
       filter (\<lambda>x. ufe_entry_id x = e_id e) (user_folder_entries b') =
         (if e_folder_id e = f_id f then [] else filter (\<lambda>x. ufe_entry_id x = e_id e) (user_folder_entries b))
     else e \<notin> set (entries b'))"
proof -
  have f: "f \<in> set (folders b)" "is_folder scope name f" using assms(2) find_SomeD by (force simp: get_ab_folder_def)+
  have inj: "inj_on (\<lambda>f. (f_scope f, f_name f)) (set (folders b))" "inj_on e_id (set (entries b))"
    using assms(1) by (simp_all add: book_invs distinct_map)
  have fids: "e_folder_id e \<in> set (map f_id (filter (is_folder scope name) (folders b))) \<longleftrightarrow> e_folder_id e = f_id f" for e
    using f inj(1) by (auto dest: inj_onD)
  define gone where "gone = set (map e_id (filter (\<lambda>e. e_folder_id e = f_id f) (entries b)))"
  have eids: "x \<in> gone \<longleftrightarrow> e_folder_id y = f_id f"
    if "y \<in> set (entries b)" "x = e_id y" for x y
    using that inj(2) unfolding gone_def by (auto dest: inj_onD)
  have b': "b' = b\<lparr>credentials := filter (\<lambda>c. c_entry_id c \<notin> gone) (credentials b),
        user_folder_entries := filter (\<lambda>r. ufe_entry_id r \<notin> gone) (user_folder_entries b),
        entries := filter (\<lambda>e. e_folder_id e \<noteq> f_id f) (entries b),
        folders := filter (\<lambda>f. \<not> is_folder scope name f) (folders b)\<rparr>" and r: "r"
    using assms(3) f unfolding delete_ab_folder_def Let_def fids gone_def by (auto simp: list_ex_iff)
  have none: "get_ab_folder scope name b' = None" unfolding b' by (simp add: get_ab_folder_def find_filter find_False)
  have cred: "get_ab_credential (e_id e) kind b' = (if e_folder_id e = f_id f then None else get_ab_credential (e_id e) kind b)"
    if "e \<in> set (entries b)" for e
  proof -
    have "find (\<lambda>c. (c_entry_id c = e_id e \<and> c_type c = kind) \<and> c_entry_id c \<notin> gone) (credentials b) =
        (if e_folder_id e = f_id f then None else get_ab_credential (e_id e) kind b)"
      using eids [OF that] by (cases "e_folder_id e = f_id f") (auto simp: get_ab_credential_def find_None_iff intro!: find_cong)
    then show ?thesis unfolding b' get_ab_credential_def by (simp add: find_filter del: set_map set_filter)
  qed
  have refs: "filter (\<lambda>x. ufe_entry_id x = e_id e) (user_folder_entries b') =
      (if e_folder_id e = f_id f then [] else filter (\<lambda>x. ufe_entry_id x = e_id e) (user_folder_entries b))"
    if "e \<in> set (entries b)" for e
  proof -
    have "filter (\<lambda>x. ufe_entry_id x \<notin> gone \<and> ufe_entry_id x = e_id e) (user_folder_entries b) =
        (if e_folder_id e = f_id f then [] else filter (\<lambda>x. ufe_entry_id x = e_id e) (user_folder_entries b))"
      using eids [OF that] by (cases "e_folder_id e = f_id f") (auto simp: filter_empty_conv intro!: filter_cong)
    then show ?thesis unfolding b' by (simp add: filter_filter conj_commute del: set_map set_filter)
  qed
  show ?thesis using r none cred refs by (simp add: b' list_ab_entries_def)
qed

theorem delete_folder_exact_witness:
  "\<exists>b'. delete_ab_folder ''shared'' ''Clients/Acme'' demo_book = (True, b') \<and> entries b' = [] \<and>
     get_ab_credential 1 ''password'' b' = None"
proof -
  obtain f where f: "get_ab_folder ''shared'' ''Clients/Acme'' demo_book = Some f" "f_id f = 2"
    by (rule that [of "the (get_ab_folder ''shared'' ''Clients/Acme'' demo_book)"]) code_simp+
  obtain e where e: "entries demo_book = [e]" "e_folder_id e = 2" "e_id e = 1"
    by (rule that [of "hd (entries demo_book)"]) code_simp+
  have run: "book_run demo_book_ops book_new = Some demo_book" by code_simp
  obtain r b' where d: "delete_ab_folder ''shared'' ''Clients/Acme'' demo_book = (r, b')" by fastforce
  from delete_folder_exact [OF book_run_inv [OF book_new_inv run] f(1) d, of e "''password''"] f(2) e
  show ?thesis using d by auto
qed

end
