(* ===== verification/Rbac.thy ===== *)
theory Rbac
  imports Settings Address_Book "HOL-Library.While_Combinator"
begin

text \<open>
  Connection permissions (\<open>src/src/rbac.rs\<close>): connection groups and their members, grants on
  connections and on folders, the recursive queries that decide a permission, and custom roles.
  The SQLite path and the path of the connection pool (\<open>src/src/db.rs\<close>) decide differently;
  both are modelled, and \<open>pool_active\<close> selects between them as in the code. A failing database
  is not modelled: the identity checks turn it into a denial.
\<close>

section \<open>Permissions\<close>

datatype SystemPermission =
    SysAdminister | CreateSession | CreateConnection | CreateConnectionGroup | CreateUserGroup | Audit

fun system_as_str :: "SystemPermission \<Rightarrow> string" where
  "system_as_str SysAdminister = ''administer''"
| "system_as_str CreateSession = ''create_session''"
| "system_as_str CreateConnection = ''create_connection''"
| "system_as_str CreateConnectionGroup = ''create_connection_group''"
| "system_as_str CreateUserGroup = ''create_user_group''"
| "system_as_str Audit = ''audit''"

definition system_parse :: "string \<Rightarrow> SystemPermission option" where
  "system_parse s =
     (if s = ''administer'' then Some SysAdminister
      else if s = ''create_session'' then Some CreateSession
      else if s = ''create_connection'' then Some CreateConnection
      else if s = ''create_connection_group'' then Some CreateConnectionGroup
      else if s = ''create_user_group'' then Some CreateUserGroup
      else if s = ''audit'' then Some Audit
      else None)"

datatype ObjectPermission = PermRead | PermConnect | PermUpdate | PermDelete | PermAdminister

fun object_as_str :: "ObjectPermission \<Rightarrow> string" where
  "object_as_str PermRead = ''read''"
| "object_as_str PermConnect = ''connect''"
| "object_as_str PermUpdate = ''update''"
| "object_as_str PermDelete = ''delete''"
| "object_as_str PermAdminister = ''administer''"

definition object_parse :: "string \<Rightarrow> ObjectPermission option" where
  "object_parse s =
     (if s = ''read'' then Some PermRead
      else if s = ''connect'' then Some PermConnect
      else if s = ''update'' then Some PermUpdate
      else if s = ''delete'' then Some PermDelete
      else if s = ''administer'' then Some PermAdminister
      else None)"

datatype EntityType = EntUser | EntGroup

lemma system_roundtrip: "system_parse s = Some p \<longleftrightarrow> s = system_as_str p"
  by (cases p) (auto simp: system_parse_def)

lemma object_roundtrip: "object_parse s = Some p \<longleftrightarrow> s = object_as_str p"
  by (cases p) (auto simp: object_parse_def)

lemma object_as_str_eq: "object_as_str p = object_as_str q \<longleftrightarrow> p = q"
  by (cases p; cases q) simp_all

section \<open>Tables\<close>

record ConnectionGroup =
  g_id :: string
  g_name :: string
  g_parent_id :: "string option"
  g_description :: "string option"
  g_scope :: string

record PermissionRow =
  p_entity_id :: string
  p_entity_type :: string
  p_object_type :: string
  p_object_id :: string
  p_permission :: string

record PermissionEntry =
  pe_entity_id :: string
  pe_entity_type :: EntityType
  pe_permission :: ObjectPermission

record CustomRole =
  cr_id :: string
  cr_name :: string
  cr_description :: "string option"
  cr_permissions :: "string list"
  cr_created_at :: RegistryTs

text \<open>The tables of this module with the accounts and the address book they refer to.\<close>

record RbacDb =
  accounts :: AuthDb
  book :: Book
  rbac_groups :: "ConnectionGroup list"
  rbac_user_groups :: "(int \<times> string) list"
  rbac_permissions :: "PermissionRow list"
  custom_roles :: "CustomRole list"
  custom_role_permissions :: "(string \<times> string) list"

section \<open>Connection groups and members\<close>

text \<open>\<open>gid\<close> is the random identifier of the new group.\<close>

definition create_group ::
    "string \<Rightarrow> string \<Rightarrow> string option \<Rightarrow> string option \<Rightarrow> RbacDb \<Rightarrow> (string, StoreError) result \<times> RbacDb" where
  "create_group gid name parent_id description d =
     (if list_ex (\<lambda>g. g_id g = gid \<or> g_name g = name) (rbac_groups d) then (Inl UniqueViolation, d)
      else (Inr gid, d\<lparr>rbac_groups := rbac_groups d @ [\<lparr>g_id = gid, g_name = name, g_parent_id = parent_id,
              g_description = description, g_scope = ''shared''\<rparr>]\<rparr>))"

definition delete_group :: "string \<Rightarrow> RbacDb \<Rightarrow> bool \<times> RbacDb" where
  "delete_group gid d =
     (list_ex (\<lambda>g. g_id g = gid) (rbac_groups d),
      d\<lparr>rbac_groups := filter (\<lambda>g. g_id g \<noteq> gid)
          (map (\<lambda>g. if g_parent_id g = Some gid then g\<lparr>g_parent_id := None\<rparr> else g) (rbac_groups d))\<rparr>)"

definition list_groups :: "RbacDb \<Rightarrow> ConnectionGroup list" where
  "list_groups d = sort_key g_name (rbac_groups d)"

definition add_user_to_group :: "int \<Rightarrow> string \<Rightarrow> RbacDb \<Rightarrow> RbacDb" where
  "add_user_to_group uid gid d =
     (if (uid, gid) \<in> set (rbac_user_groups d) then d
      else d\<lparr>rbac_user_groups := rbac_user_groups d @ [(uid, gid)]\<rparr>)"

definition remove_user_from_group :: "int \<Rightarrow> string \<Rightarrow> RbacDb \<Rightarrow> RbacDb" where
  "remove_user_from_group uid gid d =
     d\<lparr>rbac_user_groups := filter (\<lambda>m. m \<noteq> (uid, gid)) (rbac_user_groups d)\<rparr>"

section \<open>Grants\<close>

definition parse_entity_ref :: "string \<Rightarrow> string \<times> string" where
  "parse_entity_ref entity_id =
     (case strip_prefix ''u:'' entity_id of
        Some rest \<Rightarrow> (''user'', rest)
      | None \<Rightarrow> (case strip_prefix ''g:'' entity_id of
                   Some rest \<Rightarrow> (''group'', rest)
                 | None \<Rightarrow> (''user'', entity_id)))"

definition permission_row :: "string \<Rightarrow> string \<Rightarrow> string \<Rightarrow> ObjectPermission \<Rightarrow> PermissionRow" where
  "permission_row entity_id object_type object_id permission =
     (let (entity_type, bare_id) = parse_entity_ref entity_id
      in \<lparr>p_entity_id = bare_id, p_entity_type = entity_type, p_object_type = object_type,
          p_object_id = object_id, p_permission = object_as_str permission\<rparr>)"

text \<open>\<open>INSERT OR IGNORE\<close>: the whole row is the unique key.\<close>

definition insert_permission :: "PermissionRow \<Rightarrow> RbacDb \<Rightarrow> RbacDb" where
  "insert_permission p d =
     (if p \<in> set (rbac_permissions d) then d else d\<lparr>rbac_permissions := rbac_permissions d @ [p]\<rparr>)"

definition grant_connection_permission :: "string \<Rightarrow> string \<Rightarrow> ObjectPermission \<Rightarrow> RbacDb \<Rightarrow> RbacDb" where
  "grant_connection_permission entity_id conn_id permission =
     insert_permission (permission_row entity_id ''connection'' conn_id permission)"

definition revoke_connection_permission :: "string \<Rightarrow> string \<Rightarrow> ObjectPermission \<Rightarrow> RbacDb \<Rightarrow> bool \<times> RbacDb" where
  "revoke_connection_permission entity_id conn_id permission d =
     (let p = permission_row entity_id ''connection'' conn_id permission
      in (p \<in> set (rbac_permissions d),
          d\<lparr>rbac_permissions := filter (\<lambda>q. q \<noteq> p) (rbac_permissions d)\<rparr>))"

definition grant_group_permission :: "string \<Rightarrow> string \<Rightarrow> ObjectPermission \<Rightarrow> RbacDb \<Rightarrow> RbacDb" where
  "grant_group_permission entity_id group_id permission =
     insert_permission (permission_row entity_id ''connection_group'' group_id permission)"

definition list_connection_permissions :: "string \<Rightarrow> RbacDb \<Rightarrow> PermissionEntry list" where
  "list_connection_permissions conn_id d =
     map (\<lambda>p. \<lparr>pe_entity_id = p_entity_id p,
               pe_entity_type = (if p_entity_type p = ''group'' then EntGroup else EntUser),
               pe_permission = (case object_parse (p_permission p) of Some q \<Rightarrow> q | None \<Rightarrow> PermRead)\<rparr>)
       (sort_key p_entity_type (sort_key p_entity_id
         (filter (\<lambda>p. p_object_type p = ''connection'' \<and> p_object_id p = conn_id) (rbac_permissions d))))"

section \<open>Folder paths\<close>

text \<open>The ancestors of a folder path, deepest first.\<close>

function ab_folder_ancestors :: "string \<Rightarrow> string list" where
  "ab_folder_ancestors folder =
     (case rsplit_once CHR ''/'' folder of
        None \<Rightarrow> []
      | Some (parent, _) \<Rightarrow> if parent = [] then [] else parent # ab_folder_ancestors parent)"
  by pat_completeness auto
termination
  by (relation "measure length") (auto simp: rsplit_once_Some)

declare ab_folder_ancestors.simps [simp del]

definition ab_folder_path_for_connection :: "Book \<Rightarrow> string \<Rightarrow> string option" where
  "ab_folder_path_for_connection b conn_id =
     (let parts = split_on CHR ''/'' conn_id
      in if length parts < 3 then None
         else let scope = hd parts; entry = last parts; folder = join ''/'' (tl (butlast parts))
              in if scope = [] \<or> entry = [] then None
                 else if folder = [] then None
                 else if get_ab_folder scope folder b = None then None
                 else Some folder)"

section \<open>The recursive queries\<close>

text \<open>
  A recursive query keeps a queue of the rows still to be expanded and the rows found so far;
  \<open>UNION\<close> drops a row that was found before. The recursive terms of the queries are joins
  with the tables, so a row is expanded along a list of edges.
\<close>

definition cte_step :: "(string \<times> string) list \<Rightarrow> string list \<times> string list \<Rightarrow> string list \<times> string list" where
  "cte_step edges = (\<lambda>(queue, found).
     if hd queue \<in> set found then (tl queue, found)
     else (tl queue @ map snd (filter (\<lambda>e. fst e = hd queue) edges), found @ [hd queue]))"

definition group_ancestors :: "(string \<times> string) list \<Rightarrow> string list \<Rightarrow> string list option" where
  "group_ancestors edges base =
     map_option snd (while_option (\<lambda>(queue, _). queue \<noteq> []) (cte_step edges) (base, []))"

definition parent_edges :: "RbacDb \<Rightarrow> (string \<times> string) list" where
  "parent_edges d =
     concat (map (\<lambda>g. case g_parent_id g of None \<Rightarrow> [] | Some p \<Rightarrow> [(g_id g, p)]) (rbac_groups d))"

definition grant_edges :: "ObjectPermission \<Rightarrow> RbacDb \<Rightarrow> (string \<times> string) list" where
  "grant_edges permission d =
     map (\<lambda>p. (p_object_id p, p_entity_id p))
       (filter (\<lambda>p. p_entity_type p = ''group'' \<and> p_object_type p = ''connection_group'' \<and>
                    p_permission p = object_as_str permission) (rbac_permissions d))"

definition granted :: "string \<Rightarrow> string \<Rightarrow> string \<Rightarrow> ObjectPermission \<Rightarrow> RbacDb \<Rightarrow> string list" where
  "granted entity_type object_type object_id permission d =
     map p_entity_id (filter (\<lambda>p. p_entity_type p = entity_type \<and> p_object_type p = object_type \<and>
       p_object_id p = object_id \<and> p_permission p = object_as_str permission) (rbac_permissions d))"

text \<open>A user id is bound as an integer and compared with the text column as its decimal text.\<close>

definition direct_grant :: "int \<Rightarrow> string \<Rightarrow> string \<Rightarrow> ObjectPermission \<Rightarrow> RbacDb \<Rightarrow> bool" where
  "direct_grant uid object_type object_id permission d \<longleftrightarrow>
     show_int uid \<in> set (granted ''user'' object_type object_id permission d)"

definition member_of_walk :: "int \<Rightarrow> string list option \<Rightarrow> RbacDb \<Rightarrow> bool" where
  "member_of_walk uid walk d =
     (case walk of None \<Rightarrow> False | Some gs \<Rightarrow> list_ex (\<lambda>(u, g). u = uid \<and> g \<in> set gs) (rbac_user_groups d))"

definition check_group_object_permission :: "int \<Rightarrow> string \<Rightarrow> ObjectPermission \<Rightarrow> RbacDb \<Rightarrow> bool" where
  "check_group_object_permission uid object_id permission d \<longleftrightarrow>
     direct_grant uid ''connection_group'' object_id permission d \<or>
     member_of_walk uid (group_ancestors (parent_edges d) (granted ''group'' ''connection_group'' object_id permission d)) d"

definition rbac_check_connection_permission_pool :: "int \<Rightarrow> string \<Rightarrow> ObjectPermission \<Rightarrow> RbacDb \<Rightarrow> bool" where
  "rbac_check_connection_permission_pool uid conn_id permission d =
     member_of_walk uid (group_ancestors (parent_edges d @ grant_edges permission d)
       (granted ''group'' ''connection'' conn_id permission d)) d"

definition check_connection_permission :: "bool \<Rightarrow> int \<Rightarrow> string \<Rightarrow> ObjectPermission \<Rightarrow> RbacDb \<Rightarrow> bool" where
  "check_connection_permission pool_active uid conn_id permission d =
     (let folder_path = ab_folder_path_for_connection (book d) conn_id;
          ancestors = (case folder_path of None \<Rightarrow> [] | Some f \<Rightarrow> ab_folder_ancestors f)
      in if pool_active
         then rbac_check_connection_permission_pool uid conn_id permission d \<or>
              (case folder_path of
                 None \<Rightarrow> False
               | Some f \<Rightarrow> check_group_object_permission uid f permission d \<or>
                   list_ex (\<lambda>a. check_group_object_permission uid a permission d) ancestors)
         else direct_grant uid ''connection'' conn_id permission d \<or>
              (case folder_path of None \<Rightarrow> False | Some f \<Rightarrow> direct_grant uid ''connection_group'' f permission d) \<or>
              member_of_walk uid (group_ancestors (parent_edges d @ grant_edges permission d)
                (granted ''group'' ''connection'' conn_id permission d @
                 granted ''group'' ''connection_group'' (case folder_path of None \<Rightarrow> [] | Some f \<Rightarrow> f) permission d)) d \<or>
              list_ex (\<lambda>a. check_group_object_permission uid a permission d) ancestors)"


section \<open>Custom roles\<close>

text \<open>Rows are inserted one by one, and what was inserted before an error stays.\<close>

fun insert_role_permissions ::
    "string \<Rightarrow> string list \<Rightarrow> string list \<Rightarrow> (string \<times> string) list \<Rightarrow> (unit, StoreError) result \<times> (string \<times> string) list" where
  "insert_role_permissions role_id seen [] rows = (Inr (), rows)"
| "insert_role_permissions role_id seen (p # ps) rows =
     (if p \<in> set seen then insert_role_permissions role_id seen ps rows
      else if (role_id, p) \<in> set rows then (Inl UniqueViolation, rows)
      else insert_role_permissions role_id (seen @ [p]) ps (rows @ [(role_id, p)]))"

definition load_role_permissions :: "RbacDb \<Rightarrow> CustomRole \<Rightarrow> CustomRole" where
  "load_role_permissions d r =
     r\<lparr>cr_permissions := cr_permissions r @
         sort (map snd (filter (\<lambda>(i, _). i = cr_id r) (custom_role_permissions d)))\<rparr>"

fun push_permission :: "string \<times> string \<Rightarrow> CustomRole list \<Rightarrow> CustomRole list" where
  "push_permission (role_id, permission) [] = []"
| "push_permission (role_id, permission) (r # rs) =
     (if cr_id r = role_id then r\<lparr>cr_permissions := cr_permissions r @ [permission]\<rparr> # rs
      else r # push_permission (role_id, permission) rs)"

definition list_custom_roles :: "RbacDb \<Rightarrow> CustomRole list" where
  "list_custom_roles d = fold push_permission (sort_key snd (custom_role_permissions d)) (sort_key cr_name (custom_roles d))"

definition get_custom_role :: "string \<Rightarrow> RbacDb \<Rightarrow> CustomRole option" where
  "get_custom_role i d = map_option (load_role_permissions d) (find (\<lambda>r. cr_id r = i) (custom_roles d))"

definition get_custom_role_by_name :: "string \<Rightarrow> RbacDb \<Rightarrow> CustomRole option" where
  "get_custom_role_by_name name d = map_option (load_role_permissions d) (find (\<lambda>r. cr_name r = name) (custom_roles d))"

definition create_custom_role ::
    "DateTime \<Rightarrow> string \<Rightarrow> string \<Rightarrow> string option \<Rightarrow> string list \<Rightarrow> RbacDb \<Rightarrow> (string, StoreError) result \<times> RbacDb" where
  "create_custom_role now i name description permissions d =
     (if list_ex (\<lambda>r. cr_id r = i \<or> cr_name r = name) (custom_roles d) then (Inl UniqueViolation, d)
      else let d1 = d\<lparr>custom_roles := custom_roles d @ [\<lparr>cr_id = i, cr_name = name, cr_description = description,
                        cr_permissions = [], cr_created_at = registry_ts now\<rparr>]\<rparr>;
               (r, rows) = insert_role_permissions i [] permissions (custom_role_permissions d1)
           in (case r of Inl e \<Rightarrow> Inl e | Inr _ \<Rightarrow> Inr i, d1\<lparr>custom_role_permissions := rows\<rparr>))"

definition update_custom_role ::
    "string \<Rightarrow> string \<Rightarrow> string option \<Rightarrow> string list \<Rightarrow> RbacDb \<Rightarrow> (bool, StoreError) result \<times> RbacDb" where
  "update_custom_role i name description permissions d =
     (if \<not> list_ex (\<lambda>r. cr_id r = i) (custom_roles d) then (Inr False, d)
      else if list_ex (\<lambda>r. cr_name r = name \<and> cr_id r \<noteq> i) (custom_roles d) then (Inl UniqueViolation, d)
      else let d1 = d\<lparr>custom_roles := map (\<lambda>r. if cr_id r = i then r\<lparr>cr_name := name, cr_description := description\<rparr> else r)
                        (custom_roles d)\<rparr>;
               (r, rows) = insert_role_permissions i [] permissions
                             (filter (\<lambda>(j, _). j \<noteq> i) (custom_role_permissions d1))
           in (case r of Inl e \<Rightarrow> Inl e | Inr _ \<Rightarrow> Inr True, d1\<lparr>custom_role_permissions := rows\<rparr>))"

definition delete_custom_role :: "string \<Rightarrow> RbacDb \<Rightarrow> bool \<times> RbacDb" where
  "delete_custom_role i d =
     (list_ex (\<lambda>r. cr_id r = i) (custom_roles d),
      d\<lparr>custom_role_permissions := filter (\<lambda>(j, _). j \<noteq> i) (custom_role_permissions d),
        accounts := (accounts d)\<lparr>users := map (\<lambda>(u, h). (if u_custom_role_id u = Some i then u\<lparr>u_custom_role_id := None\<rparr> else u, h))
                      (users (accounts d))\<rparr>,
        custom_roles := filter (\<lambda>r. cr_id r \<noteq> i) (custom_roles d)\<rparr>)"

definition set_user_custom_role :: "string \<Rightarrow> string option \<Rightarrow> RbacDb \<Rightarrow> bool \<times> RbacDb" where
  "set_user_custom_role email role_id d =
     (let (changed, acc) = update_user_where email (\<lambda>u. u\<lparr>u_custom_role_id := role_id\<rparr>) (accounts d)
      in (changed, d\<lparr>accounts := acc\<rparr>))"

definition role_ids_of :: "int \<Rightarrow> RbacDb \<Rightarrow> string list" where
  "role_ids_of uid d =
     concat (map (\<lambda>(u, _). case u_custom_role_id u of Some r \<Rightarrow> if u_id u = uid then [r] else [] | None \<Rightarrow> [])
       (users (accounts d)))"

definition user_custom_role :: "int \<Rightarrow> RbacDb \<Rightarrow> CustomRole option" where
  "user_custom_role uid d =
     map_option (load_role_permissions d) (find (\<lambda>r. cr_id r \<in> set (role_ids_of uid d)) (custom_roles d))"

definition user_has_custom_permission :: "int \<Rightarrow> string \<Rightarrow> RbacDb \<Rightarrow> bool" where
  "user_has_custom_permission uid permission d =
     list_ex (\<lambda>(r, p). p = permission \<and> r \<in> set (role_ids_of uid d)) (custom_role_permissions d)"

section \<open>Effective permissions\<close>

definition user_has_object_permission ::
    "bool \<Rightarrow> int \<Rightarrow> string \<Rightarrow> string \<Rightarrow> ObjectPermission \<Rightarrow> RbacDb \<Rightarrow> bool" where
  "user_has_object_permission pool_active uid object_type object_id permission d \<longleftrightarrow>
     user_has_custom_permission uid (object_as_str permission) d \<or>
     (if object_type = ''connection'' then check_connection_permission pool_active uid object_id permission d
      else if object_type = ''connection_group'' then check_group_object_permission uid object_id permission d
      else False)"

definition user_has_system_permission :: "int \<Rightarrow> SystemPermission \<Rightarrow> RbacDb \<Rightarrow> bool" where
  "user_has_system_permission uid permission d = user_has_custom_permission uid (system_as_str permission) d"

fun identity_user_id :: "AuthIdentity \<Rightarrow> RbacDb \<Rightarrow> int option" where
  "identity_user_id (UserId email _ _ _) d = map_option u_id (get_user_by_email email (accounts d))"
| "identity_user_id (ApiKey _) d = None"

definition identity_has_system_permission :: "AuthIdentity \<Rightarrow> SystemPermission \<Rightarrow> RbacDb \<Rightarrow> bool" where
  "identity_has_system_permission identity permission d =
     (if has_role identity ''admin'' then True
      else case identity_user_id identity d of
             Some uid \<Rightarrow> user_has_system_permission uid permission d
           | None \<Rightarrow> False)"

definition identity_has_object_permission ::
    "bool \<Rightarrow> AuthIdentity \<Rightarrow> string \<Rightarrow> string \<Rightarrow> ObjectPermission \<Rightarrow> RbacDb \<Rightarrow> bool" where
  "identity_has_object_permission pool_active identity object_type object_id permission d =
     (if has_role identity ''admin'' then True
      else case identity_user_id identity d of
             Some uid \<Rightarrow> user_has_object_permission pool_active uid object_type object_id permission d
           | None \<Rightarrow> False)"

definition identity_has_custom_permission :: "AuthIdentity \<Rightarrow> string \<Rightarrow> RbacDb \<Rightarrow> bool" where
  "identity_has_custom_permission identity permission d =
     (if has_role identity ''admin'' then True
      else case identity_user_id identity d of
             Some uid \<Rightarrow> user_has_custom_permission uid permission d
           | None \<Rightarrow> False)"


section \<open>The walk of a recursive query\<close>

definition walk_state :: "(string \<times> string) list \<Rightarrow> string list \<Rightarrow> string list \<times> string list \<Rightarrow> bool" where
  "walk_state edges base s \<longleftrightarrow>
     distinct (snd s) \<and> set (fst s) \<union> set (snd s) \<subseteq> (set edges)\<^sup>* `` set base \<and>
     set base \<subseteq> set (fst s) \<union> set (snd s) \<and> set edges `` set (snd s) \<subseteq> set (fst s) \<union> set (snd s)"

lemma cte_step_state:
  assumes "walk_state edges base s" "fst s \<noteq> []"
  shows "walk_state edges base (cte_step edges s)"
proof -
  obtain x q found where s: "s = (x # q, found)" using assms(2) by (cases s; cases "fst s") auto
  define R where "R = (set edges)\<^sup>* `` set base"
  have inv: "distinct found" "x \<in> R" "set q \<subseteq> R" "set found \<subseteq> R" "set base \<subseteq> insert x (set q \<union> set found)"
    "set edges `` set found \<subseteq> insert x (set q \<union> set found)"
    using assms(1) by (simp_all add: s walk_state_def R_def)
  have new: "snd ` {e \<in> set edges. fst e = x} = set edges `` {x}" by force
  have "set edges `` {x} \<subseteq> R" using inv(2) by (auto simp: R_def intro: rtrancl_into_rtrancl)
  with inv show ?thesis
    by (cases "x \<in> set found") (auto simp: s cte_step_def walk_state_def new simp flip: R_def)
qed

text \<open>The rows still unseen shrink, or the queue does.\<close>

definition unseen :: "(string \<times> string) list \<Rightarrow> string list \<times> string list \<Rightarrow> string set" where
  "unseen edges s = (set (fst s) \<union> snd ` set edges) - set (snd s)"

lemma cte_step_decreases:
  assumes "fst s \<noteq> []"
  shows "(cte_step edges s, s) \<in> inv_image (finite_psubset <*lex*> less_than) (\<lambda>s. (unseen edges s, length (fst s)))"
proof -
  obtain x q found where s: "s = (x # q, found)" using assms by (cases s; cases "fst s") auto
  show ?thesis
  proof (cases "x \<in> set found")
    case True
    then have "unseen edges (cte_step edges s) = unseen edges s" by (auto simp: s unseen_def cte_step_def)
    with True show ?thesis by (simp add: s cte_step_def)
  next
    case False
    then have "unseen edges (cte_step edges s) \<subset> unseen edges s" by (auto simp: s unseen_def cte_step_def)
    then show ?thesis by (simp add: finite_psubset_def unseen_def)
  qed
qed

lemma walk_ends: "\<exists>found. while_option (\<lambda>(queue, _). queue \<noteq> []) (cte_step edges) (base, []) = Some ([], found)"
proof -
  let ?r = "inv_image (finite_psubset <*lex*> less_than) (\<lambda>s. (unseen edges s, length (fst s)))"
  have "wf ?r" by (intro wf_inv_image wf_lex_prod wf_finite_psubset wf_less_than)
  then obtain s where "while_option (\<lambda>(queue, _). queue \<noteq> []) (cte_step edges) (base, []) = Some s"
    using wf_rel_while_option_Some [of ?r "\<lambda>_. True" "\<lambda>(queue, _). queue \<noteq> []" "cte_step edges"]
      cte_step_decreases [of _ edges] by (metis (mono_tags, lifting) case_prod_beta)
  with while_option_stop [OF this] show ?thesis by (cases s) auto
qed

lemma group_ancestors_closure:
  "\<exists>gs. group_ancestors edges base = Some gs \<and> distinct gs \<and> set gs = (set edges)\<^sup>* `` set base"
proof -
  obtain gs where gs: "while_option (\<lambda>(queue, _). queue \<noteq> []) (cte_step edges) (base, []) = Some ([], gs)"
    using walk_ends by blast
  have "walk_state edges base ([], gs)"
    by (rule while_option_rule [OF _ gs]) (auto simp: cte_step_state, auto simp: walk_state_def)
  then have inv: "distinct gs" "set gs \<subseteq> (set edges)\<^sup>* `` set base" "set base \<subseteq> set gs" "set edges `` set gs \<subseteq> set gs"
    by (simp_all add: walk_state_def)
  have "(set edges)\<^sup>* `` set gs = set gs" using inv(4) by (rule Image_closed_trancl)
  with inv(3) have "(set edges)\<^sup>* `` set base \<subseteq> set gs" by blast
  with inv gs show ?thesis by (auto simp: group_ancestors_def)
qed

lemma member_of_group_ancestors:
  "member_of_walk uid (group_ancestors edges base) d \<longleftrightarrow>
     (\<exists>g. (uid, g) \<in> set (rbac_user_groups d) \<and> g \<in> (set edges)\<^sup>* `` set base)"
proof -
  obtain gs where "group_ancestors edges base = Some gs" "set gs = (set edges)\<^sup>* `` set base"
    using group_ancestors_closure by blast
  then show ?thesis by (auto simp: member_of_walk_def list_ex_iff)
qed


text \<open>
  Claim C31. The recursive query of a permission check ends for every table, cycles of parents
  and grants included, and lists each group once: the groups that the edges reach from the
  groups granted directly.
\<close>

theorem group_walk_terminates:
  "\<exists>gs. group_ancestors (parent_edges d @ grant_edges permission d) base = Some gs \<and> distinct gs \<and>
        set gs = {h. \<exists>g \<in> set base. (g, h) \<in> (set (parent_edges d) \<union> set (grant_edges permission d))\<^sup>*}"
  using group_ancestors_closure [of "parent_edges d @ grant_edges permission d" base] by (auto simp: Image_def)

section \<open>What the checks decide\<close>

text \<open>Who holds a permission, read off the rows of the tables.\<close>

abbreviation grant_row :: "string \<Rightarrow> string \<Rightarrow> string \<Rightarrow> string \<Rightarrow> ObjectPermission \<Rightarrow> PermissionRow" where
  "grant_row entity_type entity_id object_type object_id permission \<equiv>
     \<lparr>p_entity_id = entity_id, p_entity_type = entity_type, p_object_type = object_type,
      p_object_id = object_id, p_permission = object_as_str permission\<rparr>"

definition above :: "string \<Rightarrow> string \<Rightarrow> bool" where
  "above a f \<longleftrightarrow> a \<noteq> [] \<and> (\<exists>r. f = a @ CHR ''/'' # r)"

inductive folder_group :: "RbacDb \<Rightarrow> ObjectPermission \<Rightarrow> string \<Rightarrow> string \<Rightarrow> bool"
  for d :: RbacDb and permission :: ObjectPermission and f :: string where
  granted_on_folder:
    "grant_row ''group'' g ''connection_group'' f permission \<in> set (rbac_permissions d) \<Longrightarrow> folder_group d permission f g"
| parent_of_folder_group:
    "folder_group d permission f (g_id g) \<Longrightarrow> g \<in> set (rbac_groups d) \<Longrightarrow> g_parent_id g = Some h \<Longrightarrow>
       folder_group d permission f h"

inductive connection_group :: "RbacDb \<Rightarrow> ObjectPermission \<Rightarrow> string \<Rightarrow> string \<Rightarrow> bool"
  for d :: RbacDb and permission :: ObjectPermission and c :: string where
  granted_on_connection:
    "grant_row ''group'' g ''connection'' c permission \<in> set (rbac_permissions d) \<Longrightarrow> connection_group d permission c g"
| granted_on_its_folder:
    "f = (case ab_folder_path_for_connection (book d) c of None \<Rightarrow> [] | Some f \<Rightarrow> f) \<Longrightarrow>
       grant_row ''group'' g ''connection_group'' f permission \<in> set (rbac_permissions d) \<Longrightarrow>
       connection_group d permission c g"
| parent_of_group:
    "connection_group d permission c (g_id g) \<Longrightarrow> g \<in> set (rbac_groups d) \<Longrightarrow> g_parent_id g = Some h \<Longrightarrow>
       connection_group d permission c h"
| granted_on_group:
    "connection_group d permission c g \<Longrightarrow>
       grant_row ''group'' h ''connection_group'' g permission \<in> set (rbac_permissions d) \<Longrightarrow>
       connection_group d permission c h"

inductive may :: "RbacDb \<Rightarrow> int \<Rightarrow> ObjectPermission \<Rightarrow> string \<Rightarrow> bool"
  for d :: RbacDb and uid :: int and permission :: ObjectPermission and c :: string where
  user_on_connection:
    "grant_row ''user'' (show_int uid) ''connection'' c permission \<in> set (rbac_permissions d) \<Longrightarrow> may d uid permission c"
| user_on_folder:
    "ab_folder_path_for_connection (book d) c = Some f \<Longrightarrow> a = f \<or> above a f \<Longrightarrow>
       grant_row ''user'' (show_int uid) ''connection_group'' a permission \<in> set (rbac_permissions d) \<Longrightarrow>
       may d uid permission c"
| member_of_group:
    "connection_group d permission c g \<Longrightarrow> (uid, g) \<in> set (rbac_user_groups d) \<Longrightarrow> may d uid permission c"
| member_of_folder_group:
    "ab_folder_path_for_connection (book d) c = Some f \<Longrightarrow> above a f \<Longrightarrow> folder_group d permission a g \<Longrightarrow>
       (uid, g) \<in> set (rbac_user_groups d) \<Longrightarrow> may d uid permission c"

lemma set_granted:
  "g \<in> set (granted et ot i permission d) \<longleftrightarrow> grant_row et g ot i permission \<in> set (rbac_permissions d)"
proof
  assume "g \<in> set (granted et ot i permission d)"
  then obtain p where p: "p \<in> set (rbac_permissions d)" "g = p_entity_id p" "p_entity_type p = et" "p_object_type p = ot"
    "p_object_id p = i" "p_permission p = object_as_str permission" by (auto simp: granted_def)
  then have "p = grant_row et g ot i permission" by simp
  with p(1) show "grant_row et g ot i permission \<in> set (rbac_permissions d)" by simp
qed (force simp: granted_def)

lemma set_grant_edges:
  "(g, h) \<in> set (grant_edges permission d) \<longleftrightarrow> grant_row ''group'' h ''connection_group'' g permission \<in> set (rbac_permissions d)"
  using set_granted [of h "''group''" "''connection_group''" g permission d]
  by (auto simp: grant_edges_def granted_def image_iff)

lemma set_parent_edges:
  "(g, h) \<in> set (parent_edges d) \<longleftrightarrow> (\<exists>G \<in> set (rbac_groups d). g_id G = g \<and> g_parent_id G = Some h)"
  by (simp add: parent_edges_def option.case_eq_if) (auto split: if_splits; metis option.collapse)

lemma folder_group_closure:
  "folder_group d permission f h \<longleftrightarrow>
     h \<in> (set (parent_edges d))\<^sup>* `` set (granted ''group'' ''connection_group'' f permission d)"
  (is "_ \<longleftrightarrow> h \<in> ?E\<^sup>* `` ?B")
proof
  assume "folder_group d permission f h"
  then show "h \<in> ?E\<^sup>* `` ?B"
  proof induction
    case (parent_of_folder_group g h)
    then have "(g_id g, h) \<in> ?E" by (auto simp: set_parent_edges)
    with parent_of_folder_group show ?case by (auto intro: rtrancl_into_rtrancl)
  qed (auto simp: set_granted)
next
  assume "h \<in> ?E\<^sup>* `` ?B"
  then obtain g where "g \<in> ?B" and "(g, h) \<in> ?E\<^sup>*" by blast
  from this(2) this(1) show "folder_group d permission f h"
    by induction (auto simp: set_granted set_parent_edges intro: folder_group.intros)
qed

lemma connection_group_closure:
  "connection_group d permission c h \<longleftrightarrow>
     h \<in> (set (parent_edges d @ grant_edges permission d))\<^sup>* ``
       set (granted ''group'' ''connection'' c permission d @
            granted ''group'' ''connection_group''
              (case ab_folder_path_for_connection (book d) c of None \<Rightarrow> [] | Some f \<Rightarrow> f) permission d)"
  (is "_ \<longleftrightarrow> h \<in> ?E\<^sup>* `` ?B")
proof
  assume "connection_group d permission c h"
  then show "h \<in> ?E\<^sup>* `` ?B"
  proof induction
    case (parent_of_group g h)
    then have "(g_id g, h) \<in> ?E" by (auto simp: set_parent_edges)
    with parent_of_group show ?case by (auto intro: rtrancl_into_rtrancl)
  next
    case (granted_on_group g h)
    then have "(g, h) \<in> ?E" by (auto simp: set_grant_edges)
    with granted_on_group show ?case by (auto intro: rtrancl_into_rtrancl)
  qed (auto simp: set_granted)
next
  assume "h \<in> ?E\<^sup>* `` ?B"
  then obtain g where "g \<in> ?B" and "(g, h) \<in> ?E\<^sup>*" by blast
  from this(2) this(1) show "connection_group d permission c h"
    by induction (auto simp: set_granted set_parent_edges set_grant_edges intro: connection_group.intros)
qed

lemma above_parent:
  assumes "rsplit_once CHR ''/'' f = Some (q, r)"
  shows "above a f \<longleftrightarrow> a \<noteq> [] \<and> (a = q \<or> above a q)"
proof -
  have f: "f = q @ CHR ''/'' # r" "CHR ''/'' \<notin> set r" using assms by (simp_all add: rsplit_once_Some)
  have "a @ CHR ''/'' # t = q @ CHR ''/'' # r \<longleftrightarrow>
    (a = q \<and> t = r) \<or> (\<exists>u. q = a @ CHR ''/'' # u \<and> t = u @ CHR ''/'' # r)" for t
    using f(2) by (auto simp: append_eq_append_conv2 Cons_eq_append_conv append_eq_Cons_conv)
  then show ?thesis unfolding above_def f(1) by metis
qed

lemma above_nonempty: "\<not> above [] f" "\<not> above a []"
  by (auto simp: above_def)

lemma not_above_top: "rsplit_once CHR ''/'' f = None \<Longrightarrow> \<not> above a f"
  by (auto simp: rsplit_once_None above_def)

lemma set_ab_folder_ancestors: "set (ab_folder_ancestors f) = {a. above a f}"
proof (induction f rule: ab_folder_ancestors.induct)
  case (1 f)
  show ?case
  proof (cases "rsplit_once CHR ''/'' f")
    case None
    then show ?thesis by (simp add: ab_folder_ancestors.simps [of f] not_above_top)
  next
    case (Some p)
    then obtain q r where p: "rsplit_once CHR ''/'' f = Some (q, r)" "p = (q, r)" by (cases p) auto
    then show ?thesis using 1 [OF Some p(2) [symmetric]]
      by (auto simp: ab_folder_ancestors.simps [of f] above_parent [OF p(1)] above_nonempty)
  qed
qed

text \<open>
  Claim C30. The check of the SQLite path decides exactly what the rows say: a grant to the
  user on the connection, its folder or a folder above, or membership of a group that holds
  the permission on the connection, its folder, a group that does or a folder above.
\<close>

theorem connection_permission_exact:
  "check_connection_permission False uid c permission d \<longleftrightarrow> may d uid permission c"
proof (cases "ab_folder_path_for_connection (book d) c")
  case None
  then show ?thesis
    by (simp add: check_connection_permission_def may.simps direct_grant_def set_granted member_of_group_ancestors
        connection_group_closure) blast
next
  case (Some f)
  then show ?thesis
    by (simp add: check_connection_permission_def may.simps direct_grant_def set_granted member_of_group_ancestors
        connection_group_closure check_group_object_permission_def list_ex_iff set_ab_folder_ancestors folder_group_closure) blast
qed


section \<open>The interface of a permission check\<close>

text \<open>One database allows no less than another: it has its grants, members and parents.\<close>

definition covers :: "RbacDb \<Rightarrow> RbacDb \<Rightarrow> bool" where
  "covers e d \<longleftrightarrow> book e = book d \<and> set (rbac_permissions d) \<subseteq> set (rbac_permissions e) \<and>
     set (rbac_user_groups d) \<subseteq> set (rbac_user_groups e) \<and> set (parent_edges d) \<subseteq> set (parent_edges e)"

lemma covers_refl: "covers d d" and covers_trans: "covers e d \<Longrightarrow> covers d c \<Longrightarrow> covers e c"
  by (auto simp: covers_def)

text \<open>The operations that only add rows, and those that only take rows away.\<close>

datatype RbacOp =
    CreateGroup string string "string option" "string option"
  | AddUser int string
  | GrantConnection string string ObjectPermission
  | GrantGroup string string ObjectPermission
  | DeleteGroup string
  | RemoveUser int string
  | RevokeConnection string string ObjectPermission

fun widens :: "RbacOp \<Rightarrow> bool" where
  "widens (CreateGroup _ _ _ _) = True"
| "widens (AddUser _ _) = True"
| "widens (GrantConnection _ _ _) = True"
| "widens (GrantGroup _ _ _) = True"
| "widens _ = False"

fun rbac_step :: "RbacOp \<Rightarrow> RbacDb \<Rightarrow> RbacDb" where
  "rbac_step (CreateGroup gid name parent_id description) d = snd (create_group gid name parent_id description d)"
| "rbac_step (AddUser uid gid) d = add_user_to_group uid gid d"
| "rbac_step (GrantConnection entity_id c permission) d = grant_connection_permission entity_id c permission d"
| "rbac_step (GrantGroup entity_id f permission) d = grant_group_permission entity_id f permission d"
| "rbac_step (DeleteGroup gid) d = snd (delete_group gid d)"
| "rbac_step (RemoveUser uid gid) d = remove_user_from_group uid gid d"
| "rbac_step (RevokeConnection entity_id c permission) d = snd (revoke_connection_permission entity_id c permission d)"

lemma delete_group_edges:
  "(g, h) \<in> set (parent_edges (snd (delete_group gid d))) \<longleftrightarrow> (g, h) \<in> set (parent_edges d) \<and> g \<noteq> gid \<and> h \<noteq> gid"
  unfolding set_parent_edges
  by (force simp: delete_group_def split: if_splits)

lemma rbac_step_covers:
  "widens op \<Longrightarrow> covers (rbac_step op d) d"
  "\<not> widens op \<Longrightarrow> covers d (rbac_step op d)"
proof -
  show "covers (rbac_step op d) d" if "widens op"
    using that by (cases op) (auto simp: covers_def create_group_def add_user_to_group_def
        grant_connection_permission_def grant_group_permission_def insert_permission_def parent_edges_def)
  show "covers d (rbac_step op d)" if "\<not> widens op"
  proof (cases op)
    case (DeleteGroup gid)
    then show ?thesis using delete_group_edges [of _ _ gid d] by (auto simp: covers_def delete_group_def)
  qed (use that in \<open>auto simp: covers_def remove_user_from_group_def revoke_connection_permission_def
        Let_def parent_edges_def\<close>)
qed

locale permission_check =
  fixes check :: "int \<Rightarrow> string \<Rightarrow> ObjectPermission \<Rightarrow> RbacDb \<Rightarrow> bool"
  assumes fail_closed: "rbac_permissions d = [] \<Longrightarrow> \<not> check uid c permission d"
    and monotone: "covers e d \<Longrightarrow> check uid c permission d \<Longrightarrow> check uid c permission e"
    and members_of_granted:
      "grant_row ''group'' g ''connection'' c permission \<in> set (rbac_permissions d) \<Longrightarrow>
       (uid, g) \<in> set (rbac_user_groups d) \<Longrightarrow> check uid c permission d"
begin

lemma widening_run_keeps:
  "list_all widens ops \<Longrightarrow> check uid c permission d \<Longrightarrow> check uid c permission (fold rbac_step ops d)"
  by (induction ops arbitrary: d) (auto intro: monotone rbac_step_covers)

lemma narrowing_run_never_adds:
  "list_all (\<lambda>op. \<not> widens op) ops \<Longrightarrow> check uid c permission (fold rbac_step ops d) \<Longrightarrow> check uid c permission d"
  by (induction ops arbitrary: d) (auto intro: monotone rbac_step_covers(2))

lemma grant_reaches_members:
  "(uid, g) \<in> set (rbac_user_groups d) \<Longrightarrow> check uid c permission (grant_connection_permission (''g:'' @ g) c permission d)"
  by (rule members_of_granted [of g])
    (auto simp: grant_connection_permission_def insert_permission_def permission_row_def parse_entity_ref_def)

end

lemma closure_mono: "E \<subseteq> F \<Longrightarrow> B \<subseteq> C \<Longrightarrow> E\<^sup>* `` B \<subseteq> F\<^sup>* `` C"
  by (meson Image_mono rtrancl_mono)

lemma granted_mono: "covers e d \<Longrightarrow> set (granted et ot i permission d) \<subseteq> set (granted et ot i permission e)"
  by (auto simp: covers_def set_granted)

lemma edges_mono: "covers e d \<Longrightarrow> set (parent_edges d @ grant_edges permission d) \<subseteq> set (parent_edges e @ grant_edges permission e)"
  by (auto simp: covers_def set_grant_edges)

lemma member_mono:
  assumes "covers e d" "set E \<subseteq> set F" "set B \<subseteq> set C" "member_of_walk uid (group_ancestors E B) d"
  shows "member_of_walk uid (group_ancestors F C) e"
proof -
  obtain g where "(uid, g) \<in> set (rbac_user_groups d)" "g \<in> (set E)\<^sup>* `` set B"
    using assms(4) by (auto simp: member_of_group_ancestors)
  with assms(1) closure_mono [OF assms(2,3)] show ?thesis
    unfolding member_of_group_ancestors covers_def by blast
qed

lemma check_group_object_mono:
  assumes "covers e d" "check_group_object_permission uid f permission d"
  shows "check_group_object_permission uid f permission e"
proof -
  have "set (parent_edges d) \<subseteq> set (parent_edges e)" using assms(1) by (simp add: covers_def)
  from member_mono [OF assms(1) this granted_mono [OF assms(1)]] assms(2)
    granted_mono [OF assms(1), of "''user''" "''connection_group''" f permission]
  show ?thesis unfolding check_group_object_permission_def direct_grant_def by blast
qed

lemma check_pool_iff:
  "check_connection_permission True uid c permission d \<longleftrightarrow>
     rbac_check_connection_permission_pool uid c permission d \<or>
     (\<exists>f a. ab_folder_path_for_connection (book d) c = Some f \<and> (a = f \<or> above a f) \<and> check_group_object_permission uid a permission d)"
  by (cases "ab_folder_path_for_connection (book d) c")
    (auto simp: check_connection_permission_def list_ex_iff set_ab_folder_ancestors)

lemma folder_group_mono:
  assumes "covers e d" "folder_group d permission f g"
  shows "folder_group e permission f g"
  using closure_mono [OF _ granted_mono [OF assms(1)]] assms
  unfolding folder_group_closure covers_def by blast

lemma connection_group_mono:
  assumes "covers e d" "connection_group d permission c g"
  shows "connection_group e permission c g"
proof -
  have sub: "set (granted et ot i permission d @ granted et' ot' i' permission d) \<subseteq>
    set (granted et ot i permission e @ granted et' ot' i' permission e)" for et ot i et' ot' i'
    using granted_mono [OF assms(1), of et ot i permission] granted_mono [OF assms(1), of et' ot' i' permission] by auto
  have "book e = book d" using assms(1) by (simp add: covers_def)
  with assms(2) show ?thesis
    unfolding connection_group_closure by (simp only:) (rule subsetD [OF closure_mono [OF edges_mono [OF assms(1)] sub]])
qed

lemma may_mono:
  assumes "covers e d" "may d uid permission c"
  shows "may e uid permission c"
proof -
  have rows: "book e = book d" "\<And>p. p \<in> set (rbac_permissions d) \<Longrightarrow> p \<in> set (rbac_permissions e)"
    "\<And>m. m \<in> set (rbac_user_groups d) \<Longrightarrow> m \<in> set (rbac_user_groups e)" using assms(1) by (auto simp: covers_def)
  from assms(2) show ?thesis
    by cases (use rows folder_group_mono [OF assms(1)] connection_group_mono [OF assms(1)] may.intros in metis)+
qed

lemma check_connection_mono:
  assumes "covers e d" "check_connection_permission pool uid c permission d"
  shows "check_connection_permission pool uid c permission e"
proof (cases pool)
  case True
  note m = check_group_object_mono [OF assms(1)]
    member_mono [OF assms(1) edges_mono [OF assms(1)] granted_mono [OF assms(1)]]
  have b: "book e = book d" using assms(1) by (simp add: covers_def)
  have "check_connection_permission True uid c permission d" using assms(2) True by simp
  then have "check_connection_permission True uid c permission e"
    unfolding check_pool_iff rbac_check_connection_permission_pool_def b
    using m(1) [of uid _ permission] m(2) [of uid permission "''group''" "''connection''" c permission] by blast
  with True show ?thesis by simp
qed (use assms may_mono in \<open>simp add: connection_permission_exact\<close>)

lemma nothing_granted: "rbac_permissions d = [] \<Longrightarrow> granted et ot i permission d = []"
  by (simp add: granted_def)

lemma no_grants_no_permission:
  assumes "rbac_permissions d = []"
  shows "\<not> check_connection_permission pool uid c permission d"
  using assms nothing_granted [OF assms]
  by (cases pool) (auto simp: check_pool_iff connection_permission_exact may.simps connection_group_closure folder_group_closure
      rbac_check_connection_permission_pool_def check_group_object_permission_def direct_grant_def member_of_group_ancestors)

lemma members_of_granted_group:
  assumes "grant_row ''group'' g ''connection'' c permission \<in> set (rbac_permissions d)" "(uid, g) \<in> set (rbac_user_groups d)"
  shows "check_connection_permission pool uid c permission d"
proof (cases pool)
  case True
  have "g \<in> set (granted ''group'' ''connection'' c permission d)" using assms(1) by (simp add: set_granted)
  then have "rbac_check_connection_permission_pool uid c permission d"
    unfolding rbac_check_connection_permission_pool_def member_of_group_ancestors using assms(2) by blast
  with True show ?thesis by (simp add: check_pool_iff)
qed (use assms in \<open>auto simp: connection_permission_exact intro: may.intros connection_group.intros\<close>)

interpretation perm: permission_check "check_connection_permission pool" for pool
  by unfold_locales (rule no_grants_no_permission check_connection_mono members_of_granted_group; assumption)+


text \<open>
  Claim C32. On both paths access follows the operations: creating groups, adding members and
  granting never take a permission away, and deleting groups, removing members and revoking
  never give one.
\<close>

theorem permission_changes_directed:
  "(list_all widens ops \<longrightarrow> check_connection_permission pool_active uid c permission d \<longrightarrow>
      check_connection_permission pool_active uid c permission (fold rbac_step ops d)) \<and>
   (list_all (\<lambda>op. \<not> widens op) ops \<longrightarrow> check_connection_permission pool_active uid c permission (fold rbac_step ops d) \<longrightarrow>
      check_connection_permission pool_active uid c permission d)"
  using perm.widening_run_keeps perm.narrowing_run_never_adds by blast

text \<open>
  A database with the folder \<open>Clients/Acme\<close> in the scope \<open>shared\<close>, the groups \<open>ops\<close> and \<open>oncall\<close>
  below it, and user 1 in \<open>ops\<close>.
\<close>

definition demo_accounts :: AuthDb where
  "demo_accounts = \<lparr>admins = [],
     users = [(\<lparr>u_id = 1, u_email = ''a@x'', u_name = ''Ann'', u_oidc_subject = None, u_role = ''operator'',
                u_custom_role_id = None, u_disabled = False, u_created_at = 0, u_last_login_at = None,
                u_oidc_groups = [], u_auth_source = ''database''\<rparr>, None)],
     auth_sessions = [], user_api_tokens = [], failed_login_attempts = [], token_audit_log = [],
     admins_seq = 0, users_seq = 1, tokens_seq = 0\<rparr>"

definition demo_rbac :: RbacDb where
  "demo_rbac = \<lparr>accounts = demo_accounts,
     book = snd (create_ab_folder 0 ''shared'' ''Clients/Acme'' [] [] True book_new),
     rbac_groups = [\<lparr>g_id = ''ops'', g_name = ''Ops'', g_parent_id = None, g_description = None, g_scope = ''shared''\<rparr>,
                    \<lparr>g_id = ''oncall'', g_name = ''On call'', g_parent_id = Some ''ops'', g_description = None, g_scope = ''shared''\<rparr>],
     rbac_user_groups = [(1, ''ops'')], rbac_permissions = [], custom_roles = [], custom_role_permissions = []\<rparr>"

theorem permission_changes_directed_witness:
  "check_connection_permission True 1 ''shared/Clients/Acme/web'' PermConnect
     (fold rbac_step [GrantGroup ''g:oncall'' ''Clients'' PermRead, AddUser 2 ''oncall'']
       (grant_group_permission ''g:oncall'' ''Clients'' PermConnect demo_rbac)) \<and>
   \<not> check_connection_permission True 1 ''shared/Clients/Acme/web'' PermConnect
       (fold rbac_step [RemoveUser 1 ''oncall'', DeleteGroup ''oncall''] demo_rbac)"
proof -
  have "list_all widens [GrantGroup ''g:oncall'' ''Clients'' PermRead, AddUser 2 ''oncall'']" by simp
  moreover have "check_connection_permission True 1 ''shared/Clients/Acme/web'' PermConnect
    (grant_group_permission ''g:oncall'' ''Clients'' PermConnect demo_rbac)" by code_simp
  moreover have "list_all (\<lambda>op. \<not> widens op) [RemoveUser 1 ''oncall'', DeleteGroup ''oncall'']" by simp
  moreover have "\<not> check_connection_permission True 1 ''shared/Clients/Acme/web'' PermConnect demo_rbac" by code_simp
  ultimately show ?thesis
    using permission_changes_directed [of "[GrantGroup ''g:oncall'' ''Clients'' PermRead, AddUser 2 ''oncall'']"]
      permission_changes_directed [of "[RemoveUser 1 ''oncall'', DeleteGroup ''oncall'']"] by blast
qed

section \<open>The two paths\<close>

lemma pool_walk_subset:
  assumes "rbac_check_connection_permission_pool uid c permission d"
  shows "may d uid permission c"
proof -
  obtain g where "(uid, g) \<in> set (rbac_user_groups d)" "connection_group d permission c g"
    using assms closure_mono [OF subset_refl, of "set (granted ''group'' ''connection'' c permission d)"]
    unfolding rbac_check_connection_permission_pool_def member_of_group_ancestors connection_group_closure by fastforce
  then show ?thesis by (rule member_of_group [rotated])
qed

lemma folder_group_is_connection_group:
  "folder_group d permission f g \<Longrightarrow> ab_folder_path_for_connection (book d) c = Some f \<Longrightarrow> connection_group d permission c g"
  by (induction rule: folder_group.induct) (auto intro: connection_group.intros)

lemma group_object_iff:
  "check_group_object_permission uid f permission d \<longleftrightarrow>
     grant_row ''user'' (show_int uid) ''connection_group'' f permission \<in> set (rbac_permissions d) \<or>
     (\<exists>g. (uid, g) \<in> set (rbac_user_groups d) \<and> folder_group d permission f g)"
  by (simp add: check_group_object_permission_def direct_grant_def set_granted member_of_group_ancestors folder_group_closure)

text \<open>The pool path never allows what the SQLite path denies.\<close>

theorem pool_path_no_wider:
  assumes "check_connection_permission True uid c permission d"
  shows "check_connection_permission False uid c permission d"
proof -
  consider "rbac_check_connection_permission_pool uid c permission d"
    | f a where "ab_folder_path_for_connection (book d) c = Some f" "a = f \<or> above a f" "check_group_object_permission uid a permission d"
    using assms by (auto simp: check_pool_iff)
  then show ?thesis
    unfolding connection_permission_exact
    by cases (auto simp: group_object_iff pool_walk_subset
        intro: may.intros folder_group_is_connection_group)
qed

theorem pool_path_no_wider_witness:
  "check_connection_permission False 1 ''shared/Clients/Acme/web'' PermConnect
     (grant_group_permission ''g:oncall'' ''Clients/Acme'' PermConnect demo_rbac)"
proof -
  have "check_connection_permission True 1 ''shared/Clients/Acme/web'' PermConnect
    (grant_group_permission ''g:oncall'' ''Clients/Acme'' PermConnect demo_rbac)" by code_simp
  then show ?thesis by (rule pool_path_no_wider)
qed

text \<open>The pool path has no statement for a grant to a user on the connection itself.\<close>

lemma pool_ignores_user_grants:
  "let d = grant_connection_permission ''u:1'' ''shared/Clients/Acme/web'' PermConnect demo_rbac
   in check_connection_permission False 1 ''shared/Clients/Acme/web'' PermConnect d \<and>
      \<not> check_connection_permission True 1 ''shared/Clients/Acme/web'' PermConnect d"
  by code_simp

text \<open>Deleting a group keeps its members and grants: the members keep the permission.\<close>

lemma deleted_group_still_grants:
  "let d = grant_connection_permission ''g:ops'' ''shared/Clients/Acme/web'' PermConnect demo_rbac
   in check_connection_permission False 1 ''shared/Clients/Acme/web'' PermConnect (snd (delete_group ''ops'' d))"
  by code_simp

text \<open>A grant on a folder is keyed by its path alone and holds in every scope.\<close>

lemma folder_grant_crosses_scopes:
  "let d = demo_rbac\<lparr>book := snd (create_ab_folder 0 ''instance'' ''Clients/Acme'' [] [] True (book demo_rbac))\<rparr>;
       e = grant_group_permission ''g:ops'' ''Clients/Acme'' PermConnect d
   in check_connection_permission False 1 ''shared/Clients/Acme/web'' PermConnect e \<and>
      check_connection_permission False 1 ''instance/Clients/Acme/db'' PermConnect e"
  by code_simp


section \<open>Bundles of custom roles\<close>

lemma insert_role_permissions_fresh:
  "\<forall>p. (role_id, p) \<in> set rows \<longrightarrow> p \<in> set seen \<Longrightarrow>
   fst (insert_role_permissions role_id seen ps rows) = Inr () \<and>
   set (snd (insert_role_permissions role_id seen ps rows)) = set rows \<union> {role_id} \<times> (set ps - set seen)"
  by (induction role_id seen ps rows rule: insert_role_permissions.induct) auto

lemma insert_role_permissions_distinct:
  "distinct rows \<Longrightarrow> distinct (snd (insert_role_permissions role_id seen ps rows))"
  by (induction role_id seen ps rows rule: insert_role_permissions.induct) auto

lemma user_has_custom_permission_iff:
  "user_has_custom_permission uid p d \<longleftrightarrow> (\<exists>r \<in> set (role_ids_of uid d). (r, p) \<in> set (custom_role_permissions d))"
  by (auto simp: user_has_custom_permission_def list_ex_iff)

lemma role_ids_of_cong: "users (accounts e) = users (accounts d) \<Longrightarrow> role_ids_of uid e = role_ids_of uid d"
  by (simp add: role_ids_of_def)

text \<open>
  Updating an existing role to a free name succeeds and replaces its bundle: the
  users with the role hold exactly the new permissions, and nothing else changes.
\<close>

lemma custom_role_update_replaces:
  assumes "i \<in> cr_id ` set (custom_roles d)" "\<forall>r \<in> set (custom_roles d). cr_name r = name \<longrightarrow> cr_id r = i"
  shows "\<exists>e. update_custom_role i name description permissions d = (Inr True, e) \<and>
    (\<forall>uid p. user_has_custom_permission uid p e \<longleftrightarrow>
       (\<exists>r \<in> set (role_ids_of uid d). if r = i then p \<in> set permissions else (r, p) \<in> set (custom_role_permissions d)))"
proof -
  let ?rows = "filter (\<lambda>(j, _). j \<noteq> i) (custom_role_permissions d)"
  obtain rows where ins: "insert_role_permissions i [] permissions ?rows = (Inr (), rows)"
    and rows: "set rows = set ?rows \<union> {i} \<times> set permissions"
    using insert_role_permissions_fresh [of i ?rows "[]" permissions] by (auto simp: prod_eq_iff)
  have upd: "update_custom_role i name description permissions d =
    (Inr True, d\<lparr>custom_roles := map (\<lambda>r. if cr_id r = i then r\<lparr>cr_name := name, cr_description := description\<rparr> else r)
       (custom_roles d), custom_role_permissions := rows\<rparr>)"
    using assms by (auto simp: update_custom_role_def list_ex_iff ins)
  show ?thesis
    unfolding upd by (auto simp: user_has_custom_permission_iff role_ids_of_def rows split: if_splits)
qed

lemma set_role_ids_of:
  "r \<in> set (role_ids_of uid d) \<longleftrightarrow> (\<exists>(u, h) \<in> set (users (accounts d)). u_id u = uid \<and> u_custom_role_id u = Some r)"
  by (auto simp: role_ids_of_def split: option.splits if_splits) force

lemma role_ids_of_delete:
  "set (role_ids_of uid (snd (delete_custom_role i d))) = set (role_ids_of uid d) - {i}"
proof -
  have "(\<exists>(u, h) \<in> set (users (accounts (snd (delete_custom_role i d)))). u_id u = uid \<and> u_custom_role_id u = Some r) \<longleftrightarrow>
    (\<exists>(u, h) \<in> set (users (accounts d)). u_id u = uid \<and> u_custom_role_id u = Some r \<and> r \<noteq> i)" for r
    by (force simp: delete_custom_role_def split: if_splits)
  then show ?thesis unfolding set_eq_iff Diff_iff set_role_ids_of by blast
qed

text \<open>After the deletion of a role nobody holds it, and other roles are as before.\<close>

lemma custom_role_delete_exact:
  "user_has_custom_permission uid p (snd (delete_custom_role i d)) \<longleftrightarrow>
     (\<exists>r \<in> set (role_ids_of uid d). r \<noteq> i \<and> (r, p) \<in> set (custom_role_permissions d))"
  unfolding user_has_custom_permission_iff role_ids_of_delete
  by (auto simp: delete_custom_role_def)


text \<open>The list of roles shows for each role the bundle that a lookup of it shows.\<close>

lemma map_insort_key: "map f (insort_key f x xs) = insort (f x) (map f xs)"
  by (induction xs) auto

lemma map_sort_key: "map f (sort_key f xs) = sort (map f xs)"
  by (induction xs) (simp_all add: map_insort_key)

lemma push_permission_map:
  "distinct (map cr_id rs) \<Longrightarrow>
   push_permission (i, p) rs = map (\<lambda>r. if cr_id r = i then r\<lparr>cr_permissions := cr_permissions r @ [p]\<rparr> else r) rs"
proof (induction rs)
  case (Cons r rs)
  have "cr_id x \<noteq> cr_id r" if "x \<in> set rs" for x
    using Cons.prems imageI [OF that, of cr_id] by (metis distinct.simps(2) list.simps(9) set_map)
  then have "cr_id r = i \<Longrightarrow> map (\<lambda>r. if cr_id r = i then r\<lparr>cr_permissions := cr_permissions r @ [p]\<rparr> else r) rs = rs"
    by (auto intro: map_idI)
  with Cons show ?case by simp
qed simp

lemma fold_push_permission:
  "distinct (map cr_id rs) \<Longrightarrow>
   fold push_permission rows rs =
     map (\<lambda>r. r\<lparr>cr_permissions := cr_permissions r @ map snd (filter (\<lambda>(i, _). i = cr_id r) rows)\<rparr>) rs"
proof (induction rows arbitrary: rs)
  case (Cons row rows)
  obtain i p where row: "row = (i, p)" by force
  let ?g = "\<lambda>r. if cr_id r = i then r\<lparr>cr_permissions := cr_permissions r @ [p]\<rparr> else r"
  have "map cr_id (map ?g rs) = map cr_id rs" by simp
  then have "distinct (map cr_id (push_permission row rs))"
    using Cons.prems push_permission_map [OF Cons.prems] row by metis
  then show ?case
    using Cons.IH [of "push_permission row rs"] push_permission_map [OF Cons.prems] by (auto simp: row)
qed simp

lemma list_custom_roles_loads:
  assumes "distinct (map cr_id (custom_roles d))"
  shows "list_custom_roles d = map (load_role_permissions d) (sort_key cr_name (custom_roles d))"
proof -
  have "distinct (map cr_id (sort_key cr_name (custom_roles d)))"
    using assms by (simp add: distinct_map)
  then have "list_custom_roles d = map (\<lambda>r. r\<lparr>cr_permissions := cr_permissions r @
      map snd (filter (\<lambda>(i, _). i = cr_id r) (sort_key snd (custom_role_permissions d)))\<rparr>) (sort_key cr_name (custom_roles d))"
    unfolding list_custom_roles_def by (rule fold_push_permission)
  then show ?thesis by (simp add: load_role_permissions_def filter_sort map_sort_key)
qed

end
