(* ===== verification/Folder_Access.thy ===== *)
theory Folder_Access
  imports Rbac Text_Util "HOL-Library.Multiset"
begin

text \<open>
  Who sees and opens what in the address book (\<open>src/src/api/address_book.rs\<close>): the group lists
  of folders and entries with their inheritance along the slash paths, the checks the handlers
  make, and the handlers that list folders and entries. A response is modelled as the rows it
  shows; the rendering of a row as JSON is not modelled, and the database answers every query.
\<close>

section \<open>Group lists\<close>

definition csv_groups :: "string \<Rightarrow> string list" where
  "csv_groups s = filter (\<lambda>g. g \<noteq> []) (map trim (split_on CHR '','' s))"

definition folder_groups :: "AbFolder \<Rightarrow> string list" where
  "folder_groups folder = csv_groups (f_allowed_groups folder)"

definition shares_group :: "string list \<Rightarrow> string list \<Rightarrow> bool" where
  "shares_group groups user_groups = list_ex (\<lambda>g. g \<in> set user_groups) groups"

definition entry_groups_match :: "AbEntry \<Rightarrow> string list \<Rightarrow> bool" where
  "entry_groups_match entry user_groups =
     (let groups = csv_groups (e_allowed_groups entry) in groups = [] \<or> shares_group groups user_groups)"

text \<open>The loop of \<open>folder_allowed_for_user\<close>: \<open>Some\<close> is its \<open>return\<close>, \<open>None\<close> its \<open>break\<close>.\<close>

function acl_walk :: "Book \<Rightarrow> string \<Rightarrow> string list \<Rightarrow> string \<Rightarrow> bool option" where
  "acl_walk b scope user_groups current =
     (case get_ab_folder scope current b of
        None \<Rightarrow> Some False
      | Some folder \<Rightarrow>
          let groups = folder_groups folder
          in if groups \<noteq> [] then Some (user_groups \<noteq> [] \<and> shares_group groups user_groups)
             else if \<not> f_inherit_from_parent folder then None
             else case rsplit_once CHR ''/'' current of
                    Some (parent, _) \<Rightarrow> if parent \<noteq> [] then acl_walk b scope user_groups parent else None
                  | None \<Rightarrow> None)"
  by pat_completeness auto
termination
  by (relation "measure (\<lambda>(_, _, _, c). length c)") (auto simp: rsplit_once_Some)

declare acl_walk.simps [simp del]

definition folder_allowed_for_user :: "Book \<Rightarrow> string \<Rightarrow> string \<Rightarrow> string list \<Rightarrow> bool" where
  "folder_allowed_for_user b scope folder_name user_groups =
     (case acl_walk b scope user_groups folder_name of
        Some allowed \<Rightarrow> allowed
      | None \<Rightarrow> (case get_ab_folder scope folder_name b of
                   Some folder \<Rightarrow> list_all (\<lambda>e. entry_groups_match e user_groups) (list_ab_entries (f_id folder) b)
                 | None \<Rightarrow> False))"

text \<open>Whether a folder or one of its descendants grants access.\<close>

abbreviation in_subtree :: "string \<Rightarrow> string \<Rightarrow> AbFolder \<Rightarrow> bool" where
  "in_subtree scope path f \<equiv> f_scope f = scope \<and> prefix (path @ ''/'') (f_name f)"

function folder_or_descendant_accessible_db :: "Book \<Rightarrow> string \<Rightarrow> string list \<Rightarrow> string \<Rightarrow> bool" where
  "folder_or_descendant_accessible_db b scope user_groups path \<longleftrightarrow>
     folder_allowed_for_user b scope path user_groups \<or>
     list_ex (\<lambda>f. folder_or_descendant_accessible_db b scope user_groups (f_name f))
       (filter (\<lambda>f. prefix (path @ ''/'') (f_name f)) (list_ab_folders (Some scope) b))"
  by pat_completeness auto
termination
proof (relation "measure (\<lambda>(b, scope, _, path). card {f \<in> set (folders b). in_subtree scope path f})", goal_cases)
  case 1
  then show ?case by simp
next
  case (2 b scope user_groups path f)
  then have f: "f \<in> set (folders b)" "in_subtree scope path f" by (auto simp: list_ab_folders_def)
  have "{g \<in> set (folders b). in_subtree scope (f_name f) g} \<subset> {g \<in> set (folders b). in_subtree scope path g}"
    using f by (auto simp: prefix_def)
  then show ?case by (simp add: psubset_card_mono)
qed

declare folder_or_descendant_accessible_db.simps [simp del]

section \<open>The checks of the handlers\<close>

definition check_folder_access_db ::
    "bool \<Rightarrow> RbacDb \<Rightarrow> string \<Rightarrow> string \<Rightarrow> AuthIdentity \<Rightarrow> (unit, AppError) result" where
  "check_folder_access_db pool_active d scope folder identity =
     (if has_role identity ''admin'' then Inr ()
      else if identity_has_object_permission pool_active identity ''connection_group'' folder PermRead d then Inr ()
      else if folder_allowed_for_user (book d) scope folder (identity_groups identity) then Inr ()
      else Inl (AppForbidden ''no access to this folder''))"

definition no_rows :: "string \<Rightarrow> AppError" where
  "no_rows what = AppNotFound (what @ '' not found: Query returned no rows'')"

definition check_entry_access_db ::
    "RbacDb \<Rightarrow> int \<Rightarrow> string \<Rightarrow> AuthIdentity \<Rightarrow> (unit, AppError) result" where
  "check_entry_access_db d folder_id entry_name identity =
     (if has_role identity ''admin'' then Inr ()
      else if identity_has_custom_permission identity ''read'' d then Inr ()
      else case get_ab_entry folder_id entry_name (book d) of
             None \<Rightarrow> Inl (no_rows ''entry'')
           | Some e \<Rightarrow> if entry_groups_match e (identity_groups identity) then Inr ()
                       else Inl (AppForbidden ''no access to this entry''))"

text \<open>The database is \<open>None\<close> on a server that runs without one.\<close>

definition rbac_connect_allowed ::
    "bool \<Rightarrow> RbacDb option \<Rightarrow> AuthIdentity \<Rightarrow> string \<Rightarrow> string \<Rightarrow> string \<Rightarrow> bool" where
  "rbac_connect_allowed pool_active db identity scope folder entry =
     (if has_role identity ''admin'' then True
      else case db of
             None \<Rightarrow> True
           | Some d \<Rightarrow>
               (case get_user_by_email (display_name identity) (accounts d) of
                  Some u \<Rightarrow> check_connection_permission pool_active (u_id u)
                              (scope @ ''/'' @ folder @ ''/'' @ entry) PermConnect d
                | None \<Rightarrow> False))"


section \<open>Listing handlers\<close>

text \<open>The guard all listing handlers open with.\<close>

definition listing_caller :: "AuthIdentity option \<Rightarrow> RbacDb \<Rightarrow> (AuthIdentity, AppError) result" where
  "listing_caller identity d =
     (case identity of
        Some ident \<Rightarrow> if has_role ident ''operator'' \<or> identity_has_custom_permission ident ''read'' d then Inr ident
                       else Inl (AppForbidden ''operator role required'')
      | None \<Rightarrow> Inl (AppForbidden ''operator role required''))"

definition folder_shown :: "bool \<Rightarrow> RbacDb \<Rightarrow> AuthIdentity \<Rightarrow> string \<Rightarrow> string \<Rightarrow> bool" where
  "folder_shown pool_active d ident scope name \<longleftrightarrow>
     has_role ident ''admin'' \<or>
     folder_allowed_for_user (book d) scope name (identity_groups ident) \<or>
     identity_has_object_permission pool_active ident ''connection_group'' name PermRead d"

definition entry_shown :: "RbacDb \<Rightarrow> AuthIdentity \<Rightarrow> AbEntry \<Rightarrow> bool" where
  "entry_shown d ident entry \<longleftrightarrow>
     has_role ident ''admin'' \<or> identity_has_custom_permission ident ''read'' d \<or>
     entry_groups_match entry (identity_groups ident)"

record FolderInfo =
  fi_name :: string
  fi_scope :: string
  fi_description :: string
  fi_path :: string
  fi_has_children :: bool

definition ab_list_folders :: "bool \<Rightarrow> AuthIdentity option \<Rightarrow> RbacDb \<Rightarrow> (FolderInfo list, AppError) result" where
  "ab_list_folders pool_active identity d =
     (case listing_caller identity d of
        Inl e \<Rightarrow> Inl e
      | Inr ident \<Rightarrow>
          let all = list_ab_folders None (book d)
          in Inr (map (\<lambda>f. \<lparr>fi_name = f_name f, fi_scope = f_scope f, fi_description = f_description f, fi_path = f_name f,
                             fi_has_children = list_ex (\<lambda>g. prefix (f_name f @ ''/'') (f_name g)) all\<rparr>)
                   (filter (\<lambda>f. folder_shown pool_active d ident (f_scope f) (f_name f)) all)))"

definition ab_list_subfolders ::
    "bool \<Rightarrow> AuthIdentity option \<Rightarrow> string \<Rightarrow> string \<Rightarrow> RbacDb \<Rightarrow> (FolderInfo list, AppError) result" where
  "ab_list_subfolders pool_active identity scope folder d =
     (case listing_caller identity d of
        Inl e \<Rightarrow> Inl e
      | Inr ident \<Rightarrow>
          (case check_folder_access_db pool_active d scope folder ident of
             Inl e \<Rightarrow> Inl e
           | Inr _ \<Rightarrow>
               let all = list_ab_folders (Some scope) (book d);
                   child = (\<lambda>f. case strip_prefix (folder @ ''/'') (f_name f) of
                                   None \<Rightarrow> False
                                 | Some rest \<Rightarrow> rest \<noteq> [] \<and> CHR ''/'' \<notin> set rest);
                   infos = map (\<lambda>f. \<lparr>fi_name = drop (length folder + 1) (f_name f), fi_scope = f_scope f,
                                      fi_description = f_description f, fi_path = f_name f,
                                      fi_has_children = list_ex (\<lambda>g. prefix (f_name f @ ''/'') (f_name g)) all\<rparr>)
                             (filter child all)
               in Inr (if has_role ident ''admin'' then infos
                       else filter (\<lambda>i. folder_or_descendant_accessible_db (book d) scope (identity_groups ident) (fi_path i) \<or>
                              identity_has_object_permission pool_active ident ''connection_group'' (fi_path i) PermRead d) infos)))"

text \<open>A shown entry, with the folder it is listed in.\<close>

record ListedEntry =
  le_scope :: string
  le_folder :: string
  le_entry :: AbEntry

definition ab_list_all ::
    "bool \<Rightarrow> AuthIdentity option \<Rightarrow> RbacDb \<Rightarrow> ((FolderInfo \<times> ListedEntry list) list, AppError) result" where
  "ab_list_all pool_active identity d =
     (case listing_caller identity d of
        Inl e \<Rightarrow> Inl e
      | Inr ident \<Rightarrow>
          let all = list_ab_folders None (book d)
          in Inr (map (\<lambda>f. (\<lparr>fi_name = f_name f, fi_scope = f_scope f, fi_description = f_description f, fi_path = f_name f,
                              fi_has_children = list_ex (\<lambda>g. f_scope g = f_scope f \<and> prefix (f_name f @ ''/'') (f_name g)) all\<rparr>,
                            map (\<lambda>e. \<lparr>le_scope = f_scope f, le_folder = f_name f, le_entry = e\<rparr>)
                              (filter (entry_shown d ident) (list_ab_entries (f_id f) (book d)))))
                   (filter (\<lambda>f. folder_shown pool_active d ident (f_scope f) (f_name f)) all)))"

text \<open>The loop of \<open>ab_search_index\<close>; \<open>pop\<close> takes the last element of the queue.\<close>

definition children :: "AbFolder list \<Rightarrow> string \<times> string \<Rightarrow> (string \<times> string) list" where
  "children all sp =
     map (\<lambda>f. (fst sp, f_name f))
       (filter (\<lambda>f. f_scope f = fst sp \<and>
                    (case strip_prefix (snd sp @ ''/'') (f_name f) of None \<Rightarrow> False | Some rest \<Rightarrow> CHR ''/'' \<notin> set rest)) all)"

definition emit :: "bool \<Rightarrow> RbacDb \<Rightarrow> AuthIdentity \<Rightarrow> string \<times> string \<Rightarrow> ListedEntry list" where
  "emit pool_active d ident sp =
     (if \<not> folder_shown pool_active d ident (fst sp) (snd sp) then []
      else case get_ab_folder (fst sp) (snd sp) (book d) of
             None \<Rightarrow> []
           | Some f \<Rightarrow> map (\<lambda>e. \<lparr>le_scope = fst sp, le_folder = snd sp, le_entry = e\<rparr>)
                          (filter (entry_shown d ident) (list_ab_entries (f_id f) (book d))))"

lemma children_longer: "c \<in> set (children all sp) \<Longrightarrow> length (snd sp) < length (snd c) \<and> snd c \<in> f_name ` set all"
  by (auto simp: children_def strip_prefix_Some split: option.splits) (metis image_eqI)

function search_loop ::
    "bool \<Rightarrow> RbacDb \<Rightarrow> AuthIdentity \<Rightarrow> AbFolder list \<Rightarrow> (string \<times> string) list \<Rightarrow> ListedEntry list \<Rightarrow> ListedEntry list" where
  "search_loop pool_active d ident all queue emitted =
     (if queue = [] then emitted
      else let sp = last queue
           in search_loop pool_active d ident all (butlast queue @ children all sp) (emitted @ emit pool_active d ident sp))"
  by pat_completeness auto
termination
proof (relation "inv_image (mult less_than) (\<lambda>(_, _, _, all, queue, _).
    image_mset (\<lambda>sp. Suc (Max (insert 0 (length ` f_name ` set all))) - length (snd sp)) (mset queue))", goal_cases)
  case 1
  then show ?case by (intro wf_inv_image wf_mult wf_less_than)
next
  case (2 pool_active d ident all queue emitted sp)
  let ?m = "\<lambda>sp :: string \<times> string. Suc (Max (insert 0 (length ` f_name ` set all))) - length (snd sp)"
  have q: "queue = butlast queue @ [sp]" using 2 by simp
  have "?m c < ?m sp" if "c \<in> set (children all sp)" for c
  proof -
    have "length (snd c) \<le> Max (insert 0 (length ` f_name ` set all))"
      using children_longer [OF that] by (intro Max_ge) auto
    moreover have "length (snd sp) < length (snd c)" using children_longer [OF that] by simp
    ultimately show ?thesis by linarith
  qed
  then have "(image_mset ?m (mset (butlast queue)) + image_mset ?m (mset (children all sp)),
    image_mset ?m (mset (butlast queue)) + {#?m sp#}) \<in> mult less_than"
    by (intro one_step_implies_mult) auto
  moreover have "mset queue = mset (butlast queue) + {#sp#}" by (subst q) simp
  ultimately show ?case by simp
qed

declare search_loop.simps [simp del]

definition ab_search_index :: "bool \<Rightarrow> AuthIdentity option \<Rightarrow> RbacDb \<Rightarrow> (ListedEntry list, AppError) result" where
  "ab_search_index pool_active identity d =
     (case listing_caller identity d of
        Inl e \<Rightarrow> Inl e
      | Inr ident \<Rightarrow>
          let all = list_ab_folders None (book d);
              queue = map (\<lambda>f. (f_scope f, f_name f)) (filter (\<lambda>f. CHR ''/'' \<notin> set (f_name f)) all)
          in Inr (search_loop pool_active d ident all queue []))"

definition ab_list_entries ::
    "bool \<Rightarrow> AuthIdentity option \<Rightarrow> string \<Rightarrow> string \<Rightarrow> RbacDb \<Rightarrow> (ListedEntry list, AppError) result" where
  "ab_list_entries pool_active identity scope folder d =
     (case listing_caller identity d of
        Inl e \<Rightarrow> Inl e
      | Inr ident \<Rightarrow>
          (case check_folder_access_db pool_active d scope folder ident of
             Inl e \<Rightarrow> Inl e
           | Inr _ \<Rightarrow>
               (case get_ab_folder scope folder (book d) of
                  None \<Rightarrow> Inl (no_rows ''folder'')
                | Some f \<Rightarrow> Inr (map (\<lambda>e. \<lparr>le_scope = scope, le_folder = folder, le_entry = e\<rparr>)
                              (filter (entry_shown d ident) (list_ab_entries (f_id f) (book d)))))))"

section \<open>Opening an entry\<close>

text \<open>
  The gate of \<open>ab_connect_entry\<close>, and the entry it goes on with. A custom role with the
  permission \<open>connect\<close>, and every admin, passes without the checks of the folder and the entry.
\<close>

definition connect_gate ::
    "bool \<Rightarrow> AuthIdentity option \<Rightarrow> string \<Rightarrow> string \<Rightarrow> string \<Rightarrow> RbacDb \<Rightarrow> (AuthIdentity \<times> AbEntry, AppError) result" where
  "connect_gate pool_active identity scope folder entry d =
     (case identity of
        None \<Rightarrow> Inl (AppForbidden ''operator role required'')
      | Some ident \<Rightarrow>
          if \<not> (has_role ident ''operator'' \<or> identity_has_custom_permission ident ''connect'' d)
          then Inl (AppForbidden ''operator role required'')
          else case (if identity_has_custom_permission ident ''connect'' d then Inr ()
                     else case check_folder_access_db pool_active d scope folder ident of
                            Inl e \<Rightarrow> Inl e
                          | Inr _ \<Rightarrow>
                              if \<not> rbac_connect_allowed pool_active (Some d) ident scope folder entry
                              then Inl (AppForbidden ''No permission to connect to this entry. Ask an administrator to grant your group Connect access to it.'')
                              else case get_ab_folder scope folder (book d) of
                                     None \<Rightarrow> Inl (no_rows ''folder'')
                                   | Some f \<Rightarrow> check_entry_access_db d (f_id f) entry ident) of
                 Inl e \<Rightarrow> Inl e
               | Inr _ \<Rightarrow>
                   (case get_ab_folder scope folder (book d) of
                      None \<Rightarrow> Inl (no_rows ''folder'')
                    | Some f \<Rightarrow> (case get_ab_entry (f_id f) entry (book d) of
                                   None \<Rightarrow> Inl (no_rows ''entry'')
                                 | Some e \<Rightarrow> Inr (ident, e))))"


section \<open>Inheritance\<close>

lemma descendant_accessible_iff:
  "folder_or_descendant_accessible_db b scope user_groups path \<longleftrightarrow>
     folder_allowed_for_user b scope path user_groups \<or>
     (\<exists>f \<in> set (folders b). in_subtree scope path f \<and> folder_allowed_for_user b scope (f_name f) user_groups)"
proof (induction b scope user_groups path rule: folder_or_descendant_accessible_db.induct)
  case (1 b scope user_groups path)
  have trans: "prefix (path @ ''/'') (f_name g)" if "prefix (path @ ''/'') (f_name f)" "prefix (f_name f @ ''/'') (f_name g)" for f g
    using that by (auto simp: prefix_def)
  have set: "set (list_ab_folders (Some scope) b) = {f \<in> set (folders b). f_scope f = scope}"
    by (auto simp: list_ab_folders_def)
  have IH: "folder_or_descendant_accessible_db b scope user_groups (f_name f) \<longleftrightarrow>
      folder_allowed_for_user b scope (f_name f) user_groups \<or>
      (\<exists>g \<in> set (folders b). in_subtree scope (f_name f) g \<and> folder_allowed_for_user b scope (f_name g) user_groups)"
    if "f \<in> set (folders b)" "in_subtree scope path f" for f
    using 1 [of f] that by (simp add: set)
  have "folder_or_descendant_accessible_db b scope user_groups path \<longleftrightarrow>
      folder_allowed_for_user b scope path user_groups \<or>
      (\<exists>f \<in> set (folders b). in_subtree scope path f \<and> folder_or_descendant_accessible_db b scope user_groups (f_name f))"
    by (subst folder_or_descendant_accessible_db.simps) (auto simp: list_ex_iff set)
  then show ?case using IH trans by blast
qed

lemma acl_walk_restricted:
  assumes a: "get_ab_folder scope a b = Some f" "folder_groups f \<noteq> []" "\<not> shares_group (folder_groups f) user_groups"
    and between: "\<And>c g. c = name \<or> above c name \<Longrightarrow> above a c \<Longrightarrow> get_ab_folder scope c b = Some g \<Longrightarrow>
      (if folder_groups g = [] then f_inherit_from_parent g else \<not> shares_group (folder_groups g) user_groups)"
  shows "c = name \<or> above c name \<Longrightarrow> c = a \<or> above a c \<Longrightarrow> acl_walk b scope user_groups c = Some False"
proof (induction c rule: measure_induct_rule [of length])
  case (less c)
  show ?case
  proof (cases "c = a \<or> get_ab_folder scope c b = None")
    case True
    then show ?thesis using a by (subst acl_walk.simps) auto
  next
    case False
    then obtain g where g: "get_ab_folder scope c b = Some g" and c: "c \<noteq> a" by auto
    with less.prems have ab: "above a c" by simp
    obtain q r where split: "rsplit_once CHR ''/'' c = Some (q, r)"
      using ab not_above_top [of c a] by (cases "rsplit_once CHR ''/'' c") auto
    have up: "a = q \<or> above a q" and ne: "a \<noteq> []" using ab above_parent [OF split] by auto
    have q: "q \<noteq> []" using up ne by (auto simp: above_def)
    have "above q c" using above_parent [OF split, of q] q by simp
    then have "q = name \<or> above q name" using less.prems(1) by (auto simp: above_def)
    moreover have "length q < length c" using split by (auto simp: rsplit_once_Some)
    ultimately have "acl_walk b scope user_groups q = Some False" using less.IH up by auto
    with between [OF less.prems(1) ab g] g split q show ?thesis
      by (subst acl_walk.simps) (auto split: if_splits)
  qed
qed

text \<open>
  Claim C35. A folder with a group list keeps a user outside these groups out of its whole
  subtree, as long as no folder on the way down lists one of the user's groups or breaks the
  inheritance.
\<close>

theorem restricted_parent_protects:
  assumes "get_ab_folder scope a b = Some f" "folder_groups f \<noteq> []" "\<not> shares_group (folder_groups f) user_groups"
    and "name = a \<or> above a name"
    and "\<forall>c g. (c = name \<or> above c name) \<and> above a c \<and> get_ab_folder scope c b = Some g \<longrightarrow>
      (if folder_groups g = [] then f_inherit_from_parent g else \<not> shares_group (folder_groups g) user_groups)"
  shows "\<not> folder_allowed_for_user b scope name user_groups"
  using acl_walk_restricted [OF assms(1-3), of name name] assms(4,5) by (auto simp: folder_allowed_for_user_def)

definition demo_tree :: Book where
  "demo_tree = snd (create_ab_folder 0 ''shared'' ''Ops/Db'' [] [] True
     (snd (create_ab_folder 0 ''shared'' ''Ops'' [] ''admins, ops'' True book_new)))"

lemma demo_tree_folders:
  "get_ab_folder ''shared'' c demo_tree =
     (if c = ''Ops'' then Some \<lparr>f_id = 1, f_scope = ''shared'', f_name = ''Ops'', f_description = [], f_allowed_groups = ''admins, ops'',
        f_inherit_from_parent = True, f_created_at = 0, f_updated_at = 0\<rparr>
      else if c = ''Ops/Db'' then Some \<lparr>f_id = 2, f_scope = ''shared'', f_name = ''Ops/Db'', f_description = [], f_allowed_groups = [],
        f_inherit_from_parent = True, f_created_at = 0, f_updated_at = 0\<rparr>
      else None)"
  by (simp add: demo_tree_def create_ab_folder_def book_new_def get_ab_folder_def Let_def)

theorem restricted_parent_protects_witness:
  "\<not> folder_allowed_for_user demo_tree ''shared'' ''Ops/Db'' [''dev''] \<and>
   folder_allowed_for_user demo_tree ''shared'' ''Ops/Db'' [''ops'']"
proof
  have "(csv_groups ''admins, ops'' = [''admins'', ''ops'']) \<and>
       (csv_groups [] = [])"
    by code_simp
  then show "\<not> folder_allowed_for_user demo_tree ''shared'' ''Ops/Db'' [''dev'']"
    by (intro restricted_parent_protects [where a = "''Ops''"])
      (auto simp: demo_tree_folders folder_groups_def shares_group_def above_def)
  show "folder_allowed_for_user demo_tree ''shared'' ''Ops/Db'' [''ops'']" by code_simp
qed


section \<open>The listings and the checks agree\<close>

text \<open>An entry the checks let the caller read.\<close>

definition readable :: "bool \<Rightarrow> RbacDb \<Rightarrow> AuthIdentity \<Rightarrow> ListedEntry \<Rightarrow> bool" where
  "readable pool_active d ident le \<longleftrightarrow>
     (\<exists>f. get_ab_folder (le_scope le) (le_folder le) (book d) = Some f \<and>
          get_ab_entry (f_id f) (e_name (le_entry le)) (book d) = Some (le_entry le) \<and>
          check_folder_access_db pool_active d (le_scope le) (le_folder le) ident = Inr () \<and>
          check_entry_access_db d (f_id f) (e_name (le_entry le)) ident = Inr ())"

text \<open>A folder whose path is made of folders from the top down.\<close>

inductive rooted :: "Book \<Rightarrow> string \<Rightarrow> string \<Rightarrow> bool" for b :: Book and scope :: string where
  top: "f \<in> set (folders b) \<Longrightarrow> f_scope f = scope \<Longrightarrow> CHR ''/'' \<notin> set (f_name f) \<Longrightarrow> rooted b scope (f_name f)"
| below: "rooted b scope p \<Longrightarrow> f \<in> set (folders b) \<Longrightarrow> f_scope f = scope \<Longrightarrow> f_name f = p @ CHR ''/'' # rest \<Longrightarrow>
    CHR ''/'' \<notin> set rest \<Longrightarrow> rooted b scope (f_name f)"

lemma find_distinct_key:
  "distinct (map k xs) \<Longrightarrow> find (\<lambda>x. k x = v) xs = Some y \<longleftrightarrow> y \<in> set xs \<and> k y = v"
  by (induction xs) auto

lemma get_ab_folder_iff:
  assumes "book_inv b"
  shows "get_ab_folder scope name b = Some f \<longleftrightarrow> f \<in> set (folders b) \<and> f_scope f = scope \<and> f_name f = name"
  using find_distinct_key [of "\<lambda>f. (f_scope f, f_name f)" "folders b" "(scope, name)" f] assms
  by (simp add: get_ab_folder_def book_inv_def folders_inv_def)

lemma get_ab_entry_iff:
  assumes "book_inv b"
  shows "get_ab_entry fid name b = Some e \<longleftrightarrow> e \<in> set (entries b) \<and> e_folder_id e = fid \<and> e_name e = name"
  using find_distinct_key [of "\<lambda>e. (e_folder_id e, e_name e)" "entries b" "(fid, name)" e] assms
  by (simp add: get_ab_entry_def book_inv_def entries_inv_def)

lemma folder_shown_iff: "folder_shown pool d ident scope name \<longleftrightarrow> check_folder_access_db pool d scope name ident = Inr ()"
  by (auto simp: folder_shown_def check_folder_access_db_def)

lemma entry_shown_iff:
  "get_ab_entry fid (e_name e) (book d) = Some e \<Longrightarrow>
   entry_shown d ident e \<longleftrightarrow> check_entry_access_db d fid (e_name e) ident = Inr ()"
  by (auto simp: entry_shown_def check_entry_access_db_def)

lemma set_emit:
  assumes "book_inv (book d)"
  shows "le \<in> set (emit pool d ident sp) \<longleftrightarrow> readable pool d ident le \<and> (le_scope le, le_folder le) = sp"
proof -
  have e: "e \<in> set (list_ab_entries fid (book d)) \<longleftrightarrow> get_ab_entry fid (e_name e) (book d) = Some e" for e fid
    by (auto simp: list_ab_entries_def get_ab_entry_iff [OF assms])
  have le: "le = \<lparr>le_scope = s, le_folder = n, le_entry = x\<rparr> \<longleftrightarrow> le_scope le = s \<and> le_folder le = n \<and> le_entry le = x" for s n x
    by auto
  show ?thesis
    by (cases sp; cases "get_ab_folder (fst sp) (snd sp) (book d)")
      (auto simp: emit_def readable_def folder_shown_iff e le entry_shown_iff image_iff)
qed

definition child_rel :: "AbFolder list \<Rightarrow> ((string \<times> string) \<times> (string \<times> string)) set" where
  "child_rel all = {(sp, c). c \<in> set (children all sp)}"

lemma search_loop_set:
  "set (search_loop pool d ident all queue emitted) =
     set emitted \<union> (\<Union>sp \<in> (child_rel all)\<^sup>* `` set queue. set (emit pool d ident sp))"
proof (induction pool d ident all queue emitted rule: search_loop.induct)
  case (1 pool d ident all queue emitted)
  show ?case
  proof (cases "queue = []")
    case True
    then show ?thesis by (simp add: search_loop.simps [of pool d ident all "[]"])
  next
    case False
    define sp where "sp = last queue"
    have "queue = butlast queue @ [sp]" using False by (simp add: sp_def)
    then have q: "set queue = insert sp (set (butlast queue))" by (metis Un_insert_right list.simps(15) set_append sup_bot_right empty_set)
    have c: "set (children all sp) = child_rel all `` {sp}" by (auto simp: child_rel_def)
    have "(child_rel all)\<^sup>* `` set queue = insert sp ((child_rel all)\<^sup>* `` (set (butlast queue) \<union> set (children all sp)))"
      unfolding q c by (auto intro: converse_rtrancl_into_rtrancl elim: converse_rtranclE)
    then show ?thesis
      using 1 [OF False sp_def] False
      by (simp add: search_loop.simps [of pool d ident all queue] flip: sp_def) blast
  qed
qed


lemma set_children:
  "c \<in> set (children all (scope, p)) \<longleftrightarrow>
     (\<exists>f \<in> set all. f_scope f = scope \<and> c = (scope, f_name f) \<and> (\<exists>rest. f_name f = p @ CHR ''/'' # rest \<and> CHR ''/'' \<notin> set rest))"
  by (auto simp: children_def strip_prefix_Some image_iff split: option.splits)

lemma rooted_reached:
  assumes "set all = set (folders b)"
  shows "(scope, p) \<in> (child_rel all)\<^sup>* `` {(f_scope f, f_name f) |f. f \<in> set all \<and> CHR ''/'' \<notin> set (f_name f)} \<longleftrightarrow>
    rooted b scope p"
  (is "_ \<in> _ `` ?T \<longleftrightarrow> _")
proof
  assume "(scope, p) \<in> (child_rel all)\<^sup>* `` ?T"
  then obtain t where "t \<in> ?T" "(t, (scope, p)) \<in> (child_rel all)\<^sup>*" by blast
  from this(2,1) show "rooted b scope p"
  proof (induction "(scope, p)" arbitrary: scope p rule: rtrancl_induct)
    case base
    then show ?case using assms by (auto intro: rooted.top)
  next
    case (step sp)
    then show ?case
      by (cases sp) (auto simp: child_rel_def set_children assms intro: rooted.below)
  qed
next
  assume "rooted b scope p"
  then show "(scope, p) \<in> (child_rel all)\<^sup>* `` ?T"
  proof induction
    case (top f)
    then show ?case using assms by blast
  next
    case (below p f rest)
    then have "((scope, p), (scope, f_name f)) \<in> child_rel all"
      using assms by (auto simp: child_rel_def set_children)
    with below.IH show ?case by (auto intro: rtrancl_into_rtrancl)
  qed
qed

text \<open>
  Claim C33. For a caller that may list, the whole tree shows exactly the entries the access
  checks let the caller read, and the search index exactly those of them in a folder whose
  path is made of folders from the top down.
\<close>

theorem listings_match_checks:
  assumes "book_inv (book d)" "listing_caller (Some ident) d = Inr ident"
  shows "\<exists>tree index. ab_list_all pool_active (Some ident) d = Inr tree \<and> ab_search_index pool_active (Some ident) d = Inr index \<and>
    (\<forall>le. le \<in> (\<Union>(_, es) \<in> set tree. set es) \<longleftrightarrow> readable pool_active d ident le) \<and>
    (\<forall>le. le \<in> set index \<longleftrightarrow> readable pool_active d ident le \<and> rooted (book d) (le_scope le) (le_folder le))"
proof -
  let ?all = "list_ab_folders None (book d)"
  have all: "set ?all = set (folders (book d))" by (simp add: list_ab_folders_def)
  let ?tree = "map (\<lambda>f. (\<lparr>fi_name = f_name f, fi_scope = f_scope f, fi_description = f_description f, fi_path = f_name f,
      fi_has_children = list_ex (\<lambda>g. f_scope g = f_scope f \<and> prefix (f_name f @ ''/'') (f_name g)) ?all\<rparr>,
      map (\<lambda>e. \<lparr>le_scope = f_scope f, le_folder = f_name f, le_entry = e\<rparr>)
        (filter (entry_shown d ident) (list_ab_entries (f_id f) (book d)))))
    (filter (\<lambda>f. folder_shown pool_active d ident (f_scope f) (f_name f)) ?all)"
  let ?queue = "map (\<lambda>f. (f_scope f, f_name f)) (filter (\<lambda>f. CHR ''/'' \<notin> set (f_name f)) ?all)"
  have emits: "set (emit pool_active d ident (f_scope f, f_name f)) =
      (if folder_shown pool_active d ident (f_scope f) (f_name f)
       then set (map (\<lambda>e. \<lparr>le_scope = f_scope f, le_folder = f_name f, le_entry = e\<rparr>)
              (filter (entry_shown d ident) (list_ab_entries (f_id f) (book d)))) else {})"
    if "f \<in> set (folders (book d))" for f
    using get_ab_folder_iff [OF assms(1), of "f_scope f" "f_name f" f] that by (simp add: emit_def)
  have known: "\<exists>f \<in> set (folders (book d)). (le_scope le, le_folder le) = (f_scope f, f_name f)"
    if "readable pool_active d ident le" for le
    using that get_ab_folder_iff [OF assms(1), of "le_scope le" "le_folder le"] unfolding readable_def by metis
  have "(\<Union>(_, es) \<in> set ?tree. set es) = (\<Union>f \<in> set (folders (book d)). set (emit pool_active d ident (f_scope f, f_name f)))"
    by (auto simp: emits all split: if_splits)
  then have tree: "le \<in> (\<Union>(_, es) \<in> set ?tree. set es) \<longleftrightarrow> readable pool_active d ident le" for le
    using known [of le] by (auto simp: set_emit [OF assms(1)])
  have "set ?queue = {(f_scope f, f_name f) |f. f \<in> set ?all \<and> CHR ''/'' \<notin> set (f_name f)}" by auto
  then have index: "le \<in> set (search_loop pool_active d ident ?all ?queue []) \<longleftrightarrow>
      readable pool_active d ident le \<and> rooted (book d) (le_scope le) (le_folder le)" for le
    using rooted_reached [OF all, of "le_scope le" "le_folder le"]
    by (simp only: search_loop_set) (auto simp: set_emit [OF assms(1)])
  show ?thesis
    using tree index assms(2) by (simp add: ab_list_all_def ab_search_index_def Let_def)
qed


text \<open>
  The tree of before with an entry \<open>pg\<close> in \<open>Ops/Db\<close>, a folder without its parent, and one
  operator in the group \<open>ops\<close>.
\<close>

definition demo_access :: RbacDb where
  "demo_access = demo_rbac\<lparr>book := snd (create_ab_folder 0 ''shared'' ''Lost/One'' [] [] False
     (snd (create_ab_entry 0 2 ''pg'' [] ''ssh'' ''db1'' None [] [] [] demo_tree)))\<rparr>"

definition demo_operator :: AuthIdentity where
  "demo_operator = UserId ''a@x'' ''Ann'' ''operator'' [''ops'']"

lemma demo_access_inv: "book_inv (book demo_access)"
  by (simp add: demo_access_def demo_tree_def demo_rbac_def create_ab_folder_def create_ab_entry_def book_new_def book_invs Let_def)

theorem listings_match_checks_witness:
  "\<exists>tree index. ab_list_all False (Some demo_operator) demo_access = Inr tree \<and>
     ab_search_index False (Some demo_operator) demo_access = Inr index \<and>
     (\<forall>le. le \<in> (\<Union>(_, es) \<in> set tree. set es) \<longleftrightarrow> readable False demo_access demo_operator le) \<and>
     (\<forall>le. le \<in> set index \<longleftrightarrow> readable False demo_access demo_operator le \<and> rooted (book demo_access) (le_scope le) (le_folder le)) \<and>
     map (\<lambda>le. e_name (le_entry le)) index = [''pg'']"
proof -
  have c: "listing_caller (Some demo_operator) demo_access = Inr demo_operator"
    by (simp add: listing_caller_def demo_operator_def has_role_def role_level_def role_from_str_def)
  have "map_sum id (map (\<lambda>le. e_name (le_entry le))) (ab_search_index False (Some demo_operator) demo_access) = Inr [''pg'']"
    by code_simp
  with listings_match_checks [OF demo_access_inv c, of False] show ?thesis by auto
qed

text \<open>The tree shows the entries of a folder without its parent; the search index does not.\<close>

lemma search_misses_orphans:
  "let d = demo_access\<lparr>book := snd (create_ab_entry 0 3 ''web'' [] ''ssh'' ''w1'' None [] [] [] (book demo_access))\<rparr>
   in map_sum id (\<lambda>tree. map (\<lambda>le. e_name (le_entry le)) (concat (map snd tree))) (ab_list_all False (Some demo_operator) d) =
        Inr [''web'', ''pg''] \<and>
      map_sum id (map (\<lambda>le. e_name (le_entry le))) (ab_search_index False (Some demo_operator) d) = Inr [''pg'']"
  by code_simp

section \<open>Opening an entry\<close>



text \<open>An operator without a display name, in \<open>ops\<close>, which may connect to the folder of \<open>pg\<close>.\<close>

definition demo_connect :: RbacDb where
  "demo_connect = grant_group_permission ''g:ops'' ''Ops'' PermConnect demo_access"

definition demo_nameless :: AuthIdentity where
  "demo_nameless = UserId ''a@x'' [] ''operator'' [''ops'']"


text \<open>
  The gate looks the account up by the display name. The same operator with the name \<open>Ann\<close> is
  refused, and with the name \<open>a@x\<close> anyone else gets the permissions of that account.
\<close>

lemma connect_gate_uses_display_name:
  "connect_gate False (Some (UserId ''a@x'' ''Ann'' ''operator'' [''ops''])) ''shared'' ''Ops/Db'' ''pg'' demo_connect =
     Inl (AppForbidden ''No permission to connect to this entry. Ask an administrator to grant your group Connect access to it.'')"
  "is_ok (connect_gate False (Some (UserId ''eve@x'' ''a@x'' ''operator'' [''ops''])) ''shared'' ''Ops/Db'' ''pg'' demo_connect)"
proof -
  have "(connect_gate False (Some (UserId ''a@x'' ''Ann'' ''operator'' [''ops''])) ''shared'' ''Ops/Db'' ''pg'' demo_connect =
     Inl (AppForbidden ''No permission to connect to this entry. Ask an administrator to grant your group Connect access to it.'')) \<and>
       (is_ok (connect_gate False (Some (UserId ''eve@x'' ''a@x'' ''operator'' [''ops''])) ''shared'' ''Ops/Db'' ''pg'' demo_connect))"
    by code_simp
  then show "connect_gate False (Some (UserId ''a@x'' ''Ann'' ''operator'' [''ops''])) ''shared'' ''Ops/Db'' ''pg'' demo_connect =
     Inl (AppForbidden ''No permission to connect to this entry. Ask an administrator to grant your group Connect access to it.'')" "is_ok (connect_gate False (Some (UserId ''eve@x'' ''a@x'' ''operator'' [''ops''])) ''shared'' ''Ops/Db'' ''pg'' demo_connect)"
    by blast+
qed

section \<open>Changing folders and entries\<close>

text \<open>The audit log of the address book, without the JSON details of a row; a failing insert is ignored.\<close>

record AbEvent =
  ev_user_email :: string
  ev_action :: string
  ev_scope :: string
  ev_folder_path :: string
  ev_entry_name :: "string option"
  ev_ip :: string

record AbServer =
  ab_db :: RbacDb
  ab_log :: "AbEvent list"

definition log_ab_event :: "string \<Rightarrow> string \<Rightarrow> string \<Rightarrow> string \<Rightarrow> string option \<Rightarrow> string \<Rightarrow> AbServer \<Rightarrow> AbServer" where
  "log_ab_event email action scope folder_path entry_name ip s =
     s\<lparr>ab_log := ab_log s @ [\<lparr>ev_user_email = email, ev_action = action, ev_scope = scope, ev_folder_path = folder_path,
        ev_entry_name = entry_name, ev_ip = ip\<rparr>]\<rparr>"

definition set_book :: "Book \<Rightarrow> AbServer \<Rightarrow> AbServer" where
  "set_book b s = s\<lparr>ab_db := (ab_db s)\<lparr>book := b\<rparr>\<rparr>"

definition ab_create_folder ::
    "RegistryTs \<Rightarrow> string \<Rightarrow> AuthIdentity option \<Rightarrow> string \<Rightarrow> string \<Rightarrow> string \<Rightarrow> string list \<Rightarrow> bool \<Rightarrow> AbServer \<Rightarrow>
     (nat, AppError) result \<times> AbServer" where
  "ab_create_folder now ip identity scope name description allowed_groups inherit s =
     (case identity of
        None \<Rightarrow> (Inl (AppForbidden ''admin role required''), s)
      | Some ident \<Rightarrow>
          if \<not> (has_role ident ''admin'' \<or> identity_has_system_permission ident CreateConnectionGroup (ab_db s))
          then (Inl (AppForbidden ''admin role required''), s)
          else (case create_ab_folder now scope name description (join '','' allowed_groups) inherit (book (ab_db s)) of
                  (Inr _, b) \<Rightarrow> (Inr 201, log_ab_event (display_name ident) ''create_folder'' scope name None ip (set_book b s))
                | (Inl UniqueViolation, _) \<Rightarrow> (Inl (AppConflict ''folder already exists''), s)
                | (Inl QueryReturnedNoRows, _) \<Rightarrow> (Inl (AppInternal ''Query returned no rows''), s)))"

definition ab_update_folder ::
    "RegistryTs \<Rightarrow> string \<Rightarrow> AuthIdentity option \<Rightarrow> string \<Rightarrow> string \<Rightarrow> string \<Rightarrow> string list \<Rightarrow> bool \<Rightarrow> AbServer \<Rightarrow>
     (unit, AppError) result \<times> AbServer" where
  "ab_update_folder now ip identity scope folder description allowed_groups inherit s =
     (case require_role identity ''admin'' of
        Inl e \<Rightarrow> (Inl e, s)
      | Inr ident \<Rightarrow>
          let (changed, b) = update_ab_folder now scope folder description (join '','' allowed_groups) inherit (book (ab_db s))
          in if \<not> changed then (Inl (AppInternal ''folder not found''), set_book b s)
             else (Inr (), log_ab_event (display_name ident) ''update_folder'' scope folder None ip (set_book b s)))"

definition ab_get_folder_config ::
    "AuthIdentity option \<Rightarrow> string \<Rightarrow> string \<Rightarrow> RbacDb \<Rightarrow> (string list \<times> string \<times> bool, AppError) result" where
  "ab_get_folder_config identity scope folder d =
     (case require_role identity ''admin'' of
        Inl e \<Rightarrow> Inl e
      | Inr _ \<Rightarrow> (case get_ab_folder scope folder (book d) of
                     None \<Rightarrow> Inl (no_rows ''folder'')
                   | Some f \<Rightarrow> Inr (csv_groups (f_allowed_groups f), f_description f, f_inherit_from_parent f)))"

definition entries_in :: "string \<Rightarrow> string list \<Rightarrow> Book \<Rightarrow> nat" where
  "entries_in scope paths b = sum_list (map (\<lambda>path. case get_ab_folder scope path b of
     None \<Rightarrow> 0 | Some f \<Rightarrow> length (list_ab_entries (f_id f) b)) paths)"

text \<open>
  \<open>ab_delete_folder\<close> returns the numbers of subfolders and entries it removed. Removing the
  copies in Vault afterwards is best effort and does not change the outcome.
\<close>

definition ab_delete_folder ::
    "bool \<Rightarrow> string \<Rightarrow> AuthIdentity option \<Rightarrow> string \<Rightarrow> string \<Rightarrow> AbServer \<Rightarrow> (nat \<times> nat, AppError) result \<times> AbServer" where
  "ab_delete_folder pool_active ip identity scope folder s =
     (case identity of
        None \<Rightarrow> (Inl (AppForbidden ''admin role required''), s)
      | Some ident \<Rightarrow>
          if \<not> (has_role ident ''admin'' \<or>
                identity_has_object_permission pool_active ident ''connection_group'' folder PermDelete (ab_db s))
          then (Inl (AppForbidden ''admin role required''), s)
          else let b = book (ab_db s)
               in if get_ab_folder scope folder b = None then (Inl (no_rows ''folder''), s)
                  else let sub_paths = map f_name (filter (\<lambda>f. prefix (folder @ ''/'') (f_name f)) (list_ab_folders (Some scope) b));
                           entry_count = entries_in scope (sub_paths @ [folder]) b;
                           b' = fold (\<lambda>path c. snd (delete_ab_folder scope path c)) (sub_paths @ [folder]) b
                       in (Inr (length sub_paths, entry_count),
                           log_ab_event (display_name ident) ''delete_folder'' scope folder None ip (set_book b' s)))"

datatype VaultOutcome = VaultOk | VaultNotFound | VaultFailed string

text \<open>\<open>vault\<close> is \<open>None\<close> unless the credentials live in Vault, and else what deleting the copy there returned.\<close>

definition ab_delete_entry ::
    "bool \<Rightarrow> VaultOutcome option \<Rightarrow> string \<Rightarrow> AuthIdentity option \<Rightarrow> string \<Rightarrow> string \<Rightarrow> string \<Rightarrow> AbServer \<Rightarrow>
     (nat, AppError) result \<times> AbServer" where
  "ab_delete_entry pool_active vault ip identity scope folder entry s =
     (case identity of
        None \<Rightarrow> (Inl (AppForbidden ''admin role required''), s)
      | Some ident \<Rightarrow>
          if \<not> (has_role ident ''admin'' \<or>
                identity_has_object_permission pool_active ident ''connection'' (scope @ ''/'' @ folder @ ''/'' @ entry) PermDelete (ab_db s))
          then (Inl (AppForbidden ''admin role required''), s)
          else (case vault of
                  Some VaultNotFound \<Rightarrow> (Inl (AppSession ''entry not found''), s)
                | Some (VaultFailed e) \<Rightarrow> (Inl (AppVault e), s)
                | _ \<Rightarrow>
                    (case get_ab_folder scope folder (book (ab_db s)) of
                       None \<Rightarrow> (Inl (no_rows ''folder''), s)
                     | Some f \<Rightarrow>
                         (case get_ab_entry (f_id f) entry (book (ab_db s)) of
                            None \<Rightarrow> (Inl (no_rows ''entry''), s)
                          | Some e \<Rightarrow> (Inr 204, log_ab_event (display_name ident) ''delete_entry'' scope folder (Some entry) ip
                                         (set_book (snd (delete_ab_entry (e_id e) (book (ab_db s)))) s))))))"


section \<open>Deleting a subtree\<close>

lemma delete_one_folder:
  assumes "book_inv b" "get_ab_folder scope p b = Some f"
  shows "entries (snd (delete_ab_folder scope p b)) = filter (\<lambda>e. e_folder_id e \<noteq> f_id f) (entries b)"
    and "folders (snd (delete_ab_folder scope p b)) = filter (\<lambda>g. g \<noteq> f) (folders b)"
proof -
  have f: "f \<in> set (folders b)" "is_folder scope p f" using assms get_ab_folder_iff by blast+
  have same: "is_folder scope p g \<longleftrightarrow> g = f" if "g \<in> set (folders b)" for g
    using get_ab_folder_iff [OF assms(1), of scope p g] assms(2) f that by auto
  have "filter (is_folder scope p) (folders b) = filter (\<lambda>g. g = f) (folders b)"
    using same by (intro filter_cong) auto
  then have "f_id ` set (filter (is_folder scope p) (folders b)) = {f_id f}" using f(1) by auto
  then show "entries (snd (delete_ab_folder scope p b)) = filter (\<lambda>e. e_folder_id e \<noteq> f_id f) (entries b)"
    by (simp add: delete_ab_folder_def Let_def)
  show "folders (snd (delete_ab_folder scope p b)) = filter (\<lambda>g. g \<noteq> f) (folders b)"
  proof -
    have "folders (snd (delete_ab_folder scope p b)) = filter (\<lambda>g. \<not> is_folder scope p g) (folders b)"
      by (simp add: delete_ab_folder_def Let_def)
    also have "\<dots> = filter (\<lambda>g. g \<noteq> f) (folders b)" by (rule filter_cong) (use same in blast)+
    finally show ?thesis .
  qed
qed

lemma other_folder_kept:
  assumes "book_inv b" "get_ab_folder scope p b = Some f" "get_ab_folder scope q b = Some g" "q \<noteq> p"
  shows "get_ab_folder scope q (snd (delete_ab_folder scope p b)) = Some g"
    and "list_ab_entries (f_id g) (snd (delete_ab_folder scope p b)) = list_ab_entries (f_id g) b"
proof -
  have ne: "g \<noteq> f" and mem: "f \<in> set (folders b)" "g \<in> set (folders b)" "is_folder scope q g"
    using assms get_ab_folder_iff [OF assms(1)] by auto
  have id: "f_id g \<noteq> f_id f"
    using ne mem assms(1) by (auto simp: book_inv_def folders_inv_def distinct_map inj_on_def)
  show "get_ab_folder scope q (snd (delete_ab_folder scope p b)) = Some g"
    using get_ab_folder_iff [OF delete_folder_inv [OF assms(1)]] delete_one_folder(2) [OF assms(1,2)] ne mem by simp
  have "filter (\<lambda>e. e_folder_id e = f_id g) (filter (\<lambda>e. e_folder_id e \<noteq> f_id f) (entries b)) =
    filter (\<lambda>e. e_folder_id e = f_id g) (entries b)"
    using id by (auto intro: filter_cong)
  then show "list_ab_entries (f_id g) (snd (delete_ab_folder scope p b)) = list_ab_entries (f_id g) b"
    by (simp add: list_ab_entries_def delete_one_folder(1) [OF assms(1,2)])
qed

lemma length_filter_one: "distinct xs \<Longrightarrow> x \<in> set xs \<Longrightarrow> Suc (length (filter (\<lambda>y. y \<noteq> x) xs)) = length xs"
proof (induction xs)
  case (Cons z xs)
  have "z \<notin> set xs \<Longrightarrow> filter (\<lambda>y. y \<noteq> z) xs = xs" by (auto intro: filter_True)
  with Cons show ?case by auto
qed simp

lemma entries_in_kept:
  assumes "book_inv b" "get_ab_folder scope p b = Some f" "p \<notin> set paths" "\<forall>q \<in> set paths. get_ab_folder scope q b \<noteq> None"
  shows "\<forall>q \<in> set paths. get_ab_folder scope q (snd (delete_ab_folder scope p b)) = get_ab_folder scope q b"
    and "entries_in scope paths (snd (delete_ab_folder scope p b)) = entries_in scope paths b"
proof -
  let ?c = "snd (delete_ab_folder scope p b)"
  have keep: "get_ab_folder scope q ?c = get_ab_folder scope q b \<and>
      (\<forall>g. get_ab_folder scope q b = Some g \<longrightarrow> list_ab_entries (f_id g) ?c = list_ab_entries (f_id g) b)"
    if q: "q \<in> set paths" for q
  proof -
    obtain g where g: "get_ab_folder scope q b = Some g" using assms(4) q by blast
    have "q \<noteq> p" using q assms(3) by blast
    from other_folder_kept [OF assms(1,2) g this] g show ?thesis by simp
  qed
  then show "\<forall>q \<in> set paths. get_ab_folder scope q ?c = get_ab_folder scope q b" by blast
  show "entries_in scope paths ?c = entries_in scope paths b"
    unfolding entries_in_def by (rule arg_cong [where f = sum_list], rule map_cong) (use keep in \<open>auto split: option.splits\<close>)
qed

lemma delete_paths:
  assumes "book_inv b" "distinct paths" "\<forall>p \<in> set paths. get_ab_folder scope p b \<noteq> None"
    and "b' = fold (\<lambda>path c. snd (delete_ab_folder scope path c)) paths b"
  shows "book_inv b' \<and> folders b' = filter (\<lambda>f. \<not> (f_scope f = scope \<and> f_name f \<in> set paths)) (folders b) \<and>
    length (folders b') + length paths = length (folders b) \<and> length (entries b') + entries_in scope paths b = length (entries b)"
  using assms
proof (induction paths arbitrary: b)
  case Nil
  then show ?case by (simp add: entries_in_def)
next
  case (Cons p paths)
  let ?c = "snd (delete_ab_folder scope p b)"
  obtain f where f: "get_ab_folder scope p b = Some f" using Cons.prems(3) by auto
  have "p \<notin> set paths" "\<forall>q \<in> set paths. get_ab_folder scope q b \<noteq> None" using Cons.prems(2,3) by simp_all
  note kept = entries_in_kept [OF Cons.prems(1) f this]
  have "\<forall>q \<in> set paths. get_ab_folder scope q ?c \<noteq> None" using kept(1) Cons.prems(3) by simp
  moreover have "distinct paths" "b' = fold (\<lambda>path c. snd (delete_ab_folder scope path c)) paths ?c"
    using Cons.prems(2,4) by simp_all
  ultimately have IH: "book_inv b' \<and> folders b' = filter (\<lambda>f. \<not> (f_scope f = scope \<and> f_name f \<in> set paths)) (folders ?c) \<and>
    length (folders b') + length paths = length (folders ?c) \<and> length (entries b') + entries_in scope paths b = length (entries ?c)"
    unfolding kept(2) [symmetric] by (intro Cons.IH delete_folder_inv Cons.prems(1))
  have mem: "f \<in> set (folders b)" "is_folder scope p f" using get_ab_folder_iff [OF Cons.prems(1)] f by blast+
  have "distinct (folders b)" using Cons.prems(1) by (auto simp: book_inv_def folders_inv_def distinct_map)
  from length_filter_one [OF this mem(1)] have n: "Suc (length (folders ?c)) = length (folders b)"
    using delete_one_folder(2) [OF Cons.prems(1) f] by simp
  have "length (entries ?c) + length (list_ab_entries (f_id f) b) = length (entries b)"
    using sum_length_filter_compl [of "\<lambda>e. e_folder_id e = f_id f" "entries b"] delete_one_folder(1) [OF Cons.prems(1) f]
    by (simp add: list_ab_entries_def)
  moreover have "entries_in scope (p # paths) b = length (list_ab_entries (f_id f) b) + entries_in scope paths b"
    by (simp add: entries_in_def f)
  ultimately have "length (entries b') + entries_in scope (p # paths) b = length (entries b)" using IH by linarith
  moreover have "length (folders b') + length (p # paths) = length (folders b)" using IH n by (metis add_Suc_right length_Cons)
  moreover have "folders b' = filter (\<lambda>f. \<not> (f_scope f = scope \<and> f_name f \<in> set (p # paths))) (folders b)"
    using IH by (auto simp: delete_ab_folder_def Let_def intro!: filter_cong)
  ultimately show ?case using IH by blast
qed

text \<open>
  A folder deletion that succeeds removes the folder and exactly the folders below
  it in its scope, keeps the references of the address book intact, and reports the numbers of
  subfolders and entries it removed.
\<close>

theorem delete_subtree_exact:
  assumes "book_inv (book (ab_db s))" "ab_delete_folder pool_active ip identity scope folder s = (Inr (subs, ents), s')"
  shows "book_inv (book (ab_db s')) \<and>
    folders (book (ab_db s')) = filter (\<lambda>f. \<not> (f_scope f = scope \<and> (f_name f = folder \<or> prefix (folder @ ''/'') (f_name f))))
      (folders (book (ab_db s))) \<and>
    length (folders (book (ab_db s'))) + Suc subs = length (folders (book (ab_db s))) \<and>
    length (entries (book (ab_db s'))) + ents = length (entries (book (ab_db s)))"
proof -
  let ?b = "book (ab_db s)"
  define subp where "subp = map f_name (filter (\<lambda>f. prefix (folder @ ''/'') (f_name f)) (list_ab_folders (Some scope) ?b))"
  have ex: "get_ab_folder scope folder ?b \<noteq> None" and res: "subs = length subp" "ents = entries_in scope (subp @ [folder]) ?b"
    "book (ab_db s') = fold (\<lambda>path c. snd (delete_ab_folder scope path c)) (subp @ [folder]) ?b"
    using assms(2)
    by (auto simp: ab_delete_folder_def Let_def log_ab_event_def set_book_def subp_def split: option.splits if_splits)
  have mem: "p \<in> set subp \<longleftrightarrow> prefix (folder @ ''/'') p \<and> (\<exists>f \<in> set (folders ?b). f_scope f = scope \<and> f_name f = p)" for p
    by (auto simp: subp_def list_ab_folders_def)
  have "inj_on f_name {f \<in> set (folders ?b). f_scope f = scope}"
    using assms(1) by (auto simp: book_inv_def folders_inv_def distinct_map inj_on_def)
  moreover have "distinct (folders ?b)" using assms(1) by (auto simp: book_inv_def folders_inv_def distinct_map)
  ultimately have "distinct (subp @ [folder])"
    unfolding subp_def by (auto simp: list_ab_folders_def distinct_map inj_on_def prefix_def)
  moreover have "\<forall>p \<in> set (subp @ [folder]). get_ab_folder scope p ?b \<noteq> None"
    using ex mem get_ab_folder_iff [OF assms(1)] by fastforce
  ultimately show ?thesis
    using delete_paths [OF assms(1) _ _ res(3)] mem by (auto simp: res intro!: filter_cong)
qed


definition demo_server :: AbServer where
  "demo_server = \<lparr>ab_db = demo_access, ab_log = []\<rparr>"

theorem delete_subtree_exact_witness:
  "\<exists>s'. ab_delete_folder False ''10.0.0.1'' (Some (ApiKey ''root'')) ''shared'' ''Ops'' demo_server = (Inr (1, 1), s') \<and>
     book_inv (book (ab_db s')) \<and> map f_name (folders (book (ab_db s'))) = [''Lost/One''] \<and> length (entries (book (ab_db s'))) + 1 = 1"
proof -
  have "(fst (ab_delete_folder False ''10.0.0.1'' (Some (ApiKey ''root'')) ''shared'' ''Ops'' demo_server) = Inr (1, 1)) \<and>
       (map f_name (folders (book (ab_db (snd (ab_delete_folder False ''10.0.0.1'' (Some (ApiKey ''root'')) ''shared'' ''Ops'' demo_server))))) =
       [''Lost/One'']) \<and>
       (length (entries (book (ab_db demo_server))) = 1)"
    by code_simp
  then obtain s' where s': "ab_delete_folder False ''10.0.0.1'' (Some (ApiKey ''root'')) ''shared'' ''Ops'' demo_server = (Inr (1, 1), s')"
    "map f_name (folders (book (ab_db s'))) = [''Lost/One'']" "length (entries (book (ab_db demo_server))) = 1"
    by (metis prod.collapse snd_conv)
  with delete_subtree_exact [OF _ s'(1)] demo_access_inv show ?thesis by (auto simp: demo_server_def)
qed

end
