(* ===== verification/Personal_Folders.thy ===== *)
theory Personal_Folders
  imports Folder_Access
begin

text \<open>
  The personal folders of a user (\<open>src/src/api/address_book.rs\<close>, the \<open>pf_\<close> handlers): every
  request works on the folders of the account of its caller, references shared entries the
  caller may read, and neither shows nor changes the folders of anyone else.
\<close>

section \<open>Callers and names\<close>

definition personal_caller :: "AuthIdentity option \<Rightarrow> RbacDb \<Rightarrow> (int \<times> AuthIdentity, AppError) result" where
  "personal_caller identity d =
     (case identity of
        None \<Rightarrow> Inl (AppForbidden ''user session required'')
      | Some (ApiKey _) \<Rightarrow> Inl (AppForbidden ''user session required'')
      | Some (UserId email name role groups) \<Rightarrow>
          (case get_user_by_email email (accounts d) of
             None \<Rightarrow> Inl (AppForbidden ''authenticated user session required'')
           | Some u \<Rightarrow> Inr (u_id u, UserId email name role groups)))"

definition validate_personal_folder_name :: "string \<Rightarrow> (string, AppError) result" where
  "validate_personal_folder_name name =
     (let trimmed = trim name
      in if trimmed = [] then Inl (AppValidation ''folder name must not be empty'')
         else if hd trimmed = CHR ''/'' \<or> last trimmed = CHR ''/''
         then Inl (AppValidation ''folder name must not start or end with a slash'')
         else if list_ex (\<lambda>seg. trim seg = []) (split_on CHR ''/'' trimmed)
         then Inl (AppValidation ''folder name must not contain empty path segments'')
         else Inr trimmed)"

definition require_owned_personal_folder :: "int \<Rightarrow> int \<Rightarrow> RbacDb \<Rightarrow> (unit, AppError) result" where
  "require_owned_personal_folder uid fid d =
     (if list_ex (\<lambda>f. uf_id f = fid) (list_user_folders uid (book d)) then Inr ()
      else Inl (AppNotFound ''folder not found''))"

definition resolve_readable_shared_entry ::
    "bool \<Rightarrow> RbacDb \<Rightarrow> string \<Rightarrow> string \<Rightarrow> string \<Rightarrow> AuthIdentity \<Rightarrow> (int, AppError) result" where
  "resolve_readable_shared_entry pool_active d scope folder entry ident =
     (case get_ab_folder scope folder (book d) of
        None \<Rightarrow> Inl (AppNotFound ''folder not found'')
      | Some f \<Rightarrow>
          (case get_ab_entry (f_id f) entry (book d) of
             None \<Rightarrow> Inl (AppNotFound ''entry not found'')
           | Some e \<Rightarrow>
               if has_role ident ''admin'' \<or> identity_has_custom_permission ident ''read'' d then Inr (e_id e)
               else if \<not> is_ok (check_folder_access_db pool_active d scope folder ident) then Inl (AppNotFound ''folder not found'')
               else if \<not> is_ok (check_entry_access_db d (f_id f) entry ident) then Inl (AppNotFound ''entry not found'')
               else Inr (e_id e)))"

section \<open>Handlers\<close>

definition pf_list_folders :: "AuthIdentity option \<Rightarrow> RbacDb \<Rightarrow> ((UserFolder \<times> bool) list, AppError) result" where
  "pf_list_folders identity d =
     (case personal_caller identity d of
        Inl e \<Rightarrow> Inl e
      | Inr (uid, _) \<Rightarrow>
          let fs = list_user_folders uid (book d)
          in Inr (map (\<lambda>f. (f, list_ex (\<lambda>g. prefix (uf_name f @ ''/'') (uf_name g)) fs)) fs))"

definition with_book :: "Book \<Rightarrow> RbacDb \<Rightarrow> RbacDb" where
  "with_book b d = d\<lparr>book := b\<rparr>"

definition pf_create_folder ::
    "RegistryTs \<Rightarrow> AuthIdentity option \<Rightarrow> string \<Rightarrow> string \<Rightarrow> RbacDb \<Rightarrow> (int \<times> string, AppError) result \<times> RbacDb" where
  "pf_create_folder now identity req_name description d =
     (case personal_caller identity d of
        Inl e \<Rightarrow> (Inl e, d)
      | Inr (uid, _) \<Rightarrow>
          (case validate_personal_folder_name req_name of
             Inl e \<Rightarrow> (Inl e, d)
           | Inr name \<Rightarrow>
               (case create_user_folder now uid name description (book d) of
                  (Inr i, b) \<Rightarrow> (Inr (i, name), with_book b d)
                | (Inl UniqueViolation, b) \<Rightarrow> (Inl (AppConflict ''a folder with this name already exists''), with_book b d)
                | (Inl QueryReturnedNoRows, b) \<Rightarrow> (Inl (AppInternal ''Query returned no rows''), with_book b d))))"

definition pf_rename_folder ::
    "AuthIdentity option \<Rightarrow> int \<Rightarrow> string \<Rightarrow> RbacDb \<Rightarrow> (int \<times> string, AppError) result \<times> RbacDb" where
  "pf_rename_folder identity fid req_name d =
     (case personal_caller identity d of
        Inl e \<Rightarrow> (Inl e, d)
      | Inr (uid, _) \<Rightarrow>
          (case validate_personal_folder_name req_name of
             Inl e \<Rightarrow> (Inl e, d)
           | Inr name \<Rightarrow>
               (case rename_user_folder uid fid name (book d) of
                  (Inr True, b) \<Rightarrow> (Inr (fid, name), with_book b d)
                | (Inr False, b) \<Rightarrow> (Inl (AppNotFound ''folder not found''), with_book b d)
                | (Inl UniqueViolation, b) \<Rightarrow> (Inl (AppConflict ''a folder with this name already exists''), with_book b d)
                | (Inl QueryReturnedNoRows, b) \<Rightarrow> (Inl (AppInternal ''Query returned no rows''), with_book b d))))"

definition pf_delete_folder :: "AuthIdentity option \<Rightarrow> int \<Rightarrow> RbacDb \<Rightarrow> (nat, AppError) result \<times> RbacDb" where
  "pf_delete_folder identity fid d =
     (case personal_caller identity d of
        Inl e \<Rightarrow> (Inl e, d)
      | Inr (uid, _) \<Rightarrow>
          let (found, b) = delete_user_folder uid fid (book d)
          in (if found then Inr 204 else Inl (AppNotFound ''folder not found''), with_book b d))"

definition pf_add_folder_entry ::
    "bool \<Rightarrow> AuthIdentity option \<Rightarrow> int \<Rightarrow> string \<Rightarrow> string \<Rightarrow> string \<Rightarrow> RbacDb \<Rightarrow> (int \<times> int, AppError) result \<times> RbacDb" where
  "pf_add_folder_entry pool_active identity fid scope folder entry d =
     (case personal_caller identity d of
        Inl e \<Rightarrow> (Inl e, d)
      | Inr (uid, ident) \<Rightarrow>
          (case resolve_readable_shared_entry pool_active d scope folder entry ident of
             Inl e \<Rightarrow> (Inl e, d)
           | Inr eid \<Rightarrow>
               (case add_user_folder_entry uid fid eid (book d) of
                  (Inr i, b) \<Rightarrow> (Inr (i, eid), with_book b d)
                | (Inl QueryReturnedNoRows, b) \<Rightarrow> (Inl (AppNotFound ''folder not found''), with_book b d)
                | (Inl UniqueViolation, b) \<Rightarrow> (Inl (AppConflict ''this entry is already in the folder''), with_book b d))))"

definition pf_remove_entry :: "AuthIdentity option \<Rightarrow> int \<Rightarrow> int \<Rightarrow> RbacDb \<Rightarrow> (nat, AppError) result \<times> RbacDb" where
  "pf_remove_entry identity fid eid d =
     (case personal_caller identity d of
        Inl e \<Rightarrow> (Inl e, d)
      | Inr (uid, _) \<Rightarrow>
          let (found, b) = remove_user_folder_entry uid fid eid (book d)
          in (if found then Inr 204 else Inl (AppNotFound ''folder entry not found''), with_book b d))"

text \<open>An entry is shown with the folder path; the scope it is shown with is always \<open>shared\<close>.\<close>

definition pf_list_entries ::
    "bool \<Rightarrow> AuthIdentity option \<Rightarrow> int \<Rightarrow> RbacDb \<Rightarrow> (ListedEntry list, AppError) result" where
  "pf_list_entries pool_active identity fid d =
     (case personal_caller identity d of
        Inl e \<Rightarrow> Inl e
      | Inr (uid, ident) \<Rightarrow>
          (case require_owned_personal_folder uid fid d of
             Inl e \<Rightarrow> Inl e
           | Inr _ \<Rightarrow>
               Inr (concat (map (\<lambda>e.
                 case get_ab_folder_by_id (e_folder_id e) (book d) of
                   None \<Rightarrow> []
                 | Some f \<Rightarrow>
                     if \<not> is_ok (check_folder_access_db pool_active d ''shared'' (f_name f) ident) then []
                     else if \<not> entry_shown d ident e then []
                     else [\<lparr>le_scope = ''shared'', le_folder = f_name f, le_entry = e\<rparr>])
                 (list_user_folder_entries uid fid (book d))))))"


section \<open>Isolation\<close>

datatype PfOp =
    PfCreate RegistryTs string string
  | PfRename int string
  | PfDelete int
  | PfAdd int string string string
  | PfRemove int int

fun pf_step :: "bool \<Rightarrow> AuthIdentity option \<times> PfOp \<Rightarrow> RbacDb \<Rightarrow> RbacDb" where
  "pf_step pool_active (who, PfCreate now name description) d = snd (pf_create_folder now who name description d)"
| "pf_step pool_active (who, PfRename fid name) d = snd (pf_rename_folder who fid name d)"
| "pf_step pool_active (who, PfDelete fid) d = snd (pf_delete_folder who fid d)"
| "pf_step pool_active (who, PfAdd fid scope folder entry) d = snd (pf_add_folder_entry pool_active who fid scope folder entry d)"
| "pf_step pool_active (who, PfRemove fid eid) d = snd (pf_remove_entry who fid eid d)"

text \<open>What the requests of a user can depend on: everything but the rows of other users.\<close>

definition same_for :: "int \<Rightarrow> RbacDb \<Rightarrow> RbacDb \<Rightarrow> bool" where
  "same_for v d e \<longleftrightarrow> (\<exists>b. e = with_book b d \<and>
     folders b = folders (book d) \<and> entries b = entries (book d) \<and> credentials b = credentials (book d) \<and>
     filter (\<lambda>f. uf_user_id f = v) (user_folders b) = filter (\<lambda>f. uf_user_id f = v) (user_folders (book d)) \<and>
     filter (\<lambda>r. ufe_user_id r = v) (user_folder_entries b) = filter (\<lambda>r. ufe_user_id r = v) (user_folder_entries (book d)))"

lemma same_for_refl: "same_for v d d"
  by (auto simp: same_for_def with_book_def intro: exI [of _ "book d"])

lemma same_for_trans: "same_for v c d \<Longrightarrow> same_for v d e \<Longrightarrow> same_for v c e"
  by (auto simp: same_for_def with_book_def)

lemma personal_caller_with_book [simp]: "personal_caller who (with_book b d) = personal_caller who d"
  by (auto simp: personal_caller_def with_book_def split: option.splits AuthIdentity.splits)

lemma same_for_caller: "same_for v d e \<Longrightarrow> personal_caller who e = personal_caller who d"
  by (auto simp: same_for_def)

lemma filter_filter_other: "(\<And>x. P x \<Longrightarrow> Q x) \<Longrightarrow> filter P (filter Q xs) = filter P xs"
  by (auto intro: filter_cong)

lemma filter_map_other:
  "(\<And>x. P (g x) \<longleftrightarrow> P x) \<Longrightarrow> (\<And>x. P x \<Longrightarrow> g x = x) \<Longrightarrow> filter P (map g xs) = filter P xs"
  by (induction xs) auto

lemma create_user_folder_other:
  "u \<noteq> v \<Longrightarrow> same_for v d (with_book (snd (create_user_folder now u name description (book d))) d)"
  by (auto simp: same_for_def create_user_folder_def Let_def)

lemma rename_user_folder_other:
  "u \<noteq> v \<Longrightarrow> same_for v d (with_book (snd (rename_user_folder u fid name (book d))) d)"
  unfolding same_for_def
  by (rule exI [of _ "snd (rename_user_folder u fid name (book d))"])
    (auto simp: rename_user_folder_def owns_def intro!: filter_map_other)

lemma delete_user_folder_other:
  "u \<noteq> v \<Longrightarrow> same_for v d (with_book (snd (delete_user_folder u fid (book d))) d)"
  unfolding same_for_def
  by (rule exI [of _ "snd (delete_user_folder u fid (book d))"])
    (auto simp: delete_user_folder_def owns_def intro!: filter_cong)

lemma add_user_folder_entry_other:
  "u \<noteq> v \<Longrightarrow> same_for v d (with_book (snd (add_user_folder_entry u fid eid (book d))) d)"
  by (auto simp: same_for_def add_user_folder_entry_def Let_def)

lemma remove_user_folder_entry_other:
  "u \<noteq> v \<Longrightarrow> same_for v d (with_book (snd (remove_user_folder_entry u fid eid (book d))) d)"
  unfolding same_for_def
  by (rule exI [of _ "snd (remove_user_folder_entry u fid eid (book d))"])
    (auto simp: remove_user_folder_entry_def Let_def intro!: filter_cong)

lemmas other_rows_kept = create_user_folder_other rename_user_folder_other delete_user_folder_other
  add_user_folder_entry_other remove_user_folder_entry_other

lemma pf_step_other:
  assumes "\<And>u i. personal_caller who d = Inr (u, i) \<Longrightarrow> u \<noteq> v"
  shows "same_for v d (pf_step pool (who, op) d)"
proof (cases "personal_caller who d")
  case (Inl e)
  then show ?thesis
    by (cases op) (simp_all add: pf_create_folder_def pf_rename_folder_def pf_delete_folder_def pf_add_folder_entry_def
        pf_remove_entry_def same_for_refl)
next
  case (Inr p)
  then obtain u i where who: "personal_caller who d = Inr (u, i)" by (cases p) auto
  note ne = assms [OF who]
  show ?thesis
  proof (cases op)
    case (PfCreate now name description)
    then show ?thesis
      using other_rows_kept(1) [OF ne, of d now "projr (validate_personal_folder_name name)" description]
      by (auto simp: pf_create_folder_def who same_for_refl split: sum.splits prod.splits StoreError.splits)
  next
    case (PfRename fid name)
    then show ?thesis
      using other_rows_kept(2) [OF ne, of d fid "projr (validate_personal_folder_name name)"]
      by (auto simp: pf_rename_folder_def who same_for_refl split: sum.splits prod.splits StoreError.splits bool.splits)
  next
    case (PfDelete fid)
    then show ?thesis
      using other_rows_kept(3) [OF ne, of d fid] by (auto simp: pf_delete_folder_def who split: prod.splits)
  next
    case (PfAdd fid scope folder entry)
    then show ?thesis
      using other_rows_kept(4) [OF ne, of d fid "projr (resolve_readable_shared_entry pool d scope folder entry i)"]
      by (auto simp: pf_add_folder_entry_def who same_for_refl split: sum.splits prod.splits StoreError.splits)
  next
    case (PfRemove fid eid)
    then show ?thesis
      using other_rows_kept(5) [OF ne, of d fid eid] by (auto simp: pf_remove_entry_def who split: prod.splits)
  qed
qed


text \<open>The access checks of a folder read only the shared tables.\<close>

lemma get_ab_folder_cong: "folders b = folders c \<Longrightarrow> get_ab_folder scope name b = get_ab_folder scope name c"
  by (simp add: get_ab_folder_def)

lemma acl_walk_cong: "folders b = folders c \<Longrightarrow> acl_walk b scope gs name = acl_walk c scope gs name"
proof (induction c scope gs name rule: acl_walk.induct)
  case (1 c scope gs name)
  show ?case
    using 1 by (auto simp: acl_walk.simps [of b scope gs name] acl_walk.simps [of c scope gs name] get_ab_folder_cong [OF 1(2)]
        Let_def split: option.splits prod.splits)
qed

lemma folder_allowed_cong:
  "folders b = folders c \<Longrightarrow> entries b = entries c \<Longrightarrow> folder_allowed_for_user b scope name gs = folder_allowed_for_user c scope name gs"
  using get_ab_folder_cong [of b c] acl_walk_cong [of b c]
  by (simp add: folder_allowed_for_user_def list_ab_entries_def cong: option.case_cong)

lemma custom_permission_with_book: "user_has_custom_permission uid p (with_book b d) = user_has_custom_permission uid p d"
  by (simp add: user_has_custom_permission_def role_ids_of_def with_book_def)

lemma with_book_simps [simp]:
  "book (with_book b d) = b" "accounts (with_book b d) = accounts d"
  "identity_user_id ident (with_book b d) = identity_user_id ident d"
  "identity_has_custom_permission ident p (with_book b d) = identity_has_custom_permission ident p d"
proof -
  show "book (with_book b d) = b" "accounts (with_book b d) = accounts d" by (simp_all add: with_book_def)
  have i: "identity_user_id ident (with_book b d) = identity_user_id ident d" by (cases ident) (simp_all add: with_book_def)
  then show "identity_user_id ident (with_book b d) = identity_user_id ident d" .
  show "identity_has_custom_permission ident p (with_book b d) = identity_has_custom_permission ident p d"
    unfolding identity_has_custom_permission_def i
    by (simp add: custom_permission_with_book cong: option.case_cong)
qed

lemma group_object_with_book:
  "check_group_object_permission uid f p (with_book b d) = check_group_object_permission uid f p d"
  by (simp add: check_group_object_permission_def direct_grant_def granted_def parent_edges_def member_of_walk_def with_book_def
      cong: option.case_cong)

lemma folder_access_with_book:
  "folders b = folders (book d) \<Longrightarrow> entries b = entries (book d) \<Longrightarrow>
   check_folder_access_db pool (with_book b d) scope name ident = check_folder_access_db pool d scope name ident"
  using folder_allowed_cong [of b "book d"]
  by (auto simp: check_folder_access_db_def identity_has_object_permission_def user_has_object_permission_def
      group_object_with_book custom_permission_with_book split: option.splits)

lemma listing_same_for:
  assumes "same_for v d e" "personal_caller other d = Inr (v, j)"
  shows "pf_list_folders other e = pf_list_folders other d"
    and "pf_list_entries pool other fid e = pf_list_entries pool other fid d"
proof -
  obtain b where e: "e = with_book b d" and b: "folders b = folders (book d)" "entries b = entries (book d)"
    "filter (\<lambda>f. uf_user_id f = v) (user_folders b) = filter (\<lambda>f. uf_user_id f = v) (user_folders (book d))"
    "filter (\<lambda>r. ufe_user_id r = v) (user_folder_entries b) = filter (\<lambda>r. ufe_user_id r = v) (user_folder_entries (book d))"
    using assms(1) by (auto simp: same_for_def)
  have lf: "list_user_folders v b = list_user_folders v (book d)" by (simp add: list_user_folders_def b)
  then show "pf_list_folders other e = pf_list_folders other d"
    by (simp add: pf_list_folders_def e assms(2))
  have "filter (\<lambda>r. ufe_user_id r = v \<and> ufe_folder_id r = fid) (user_folder_entries b) =
      filter (\<lambda>r. ufe_user_id r = v \<and> ufe_folder_id r = fid) (user_folder_entries (book d))"
    using arg_cong [OF b(4), of "filter (\<lambda>r. ufe_folder_id r = fid)"] by (simp add: conj_commute)
  then have le: "list_user_folder_entries v fid b = list_user_folder_entries v fid (book d)"
    by (simp add: list_user_folder_entries_def b(2))
  show "pf_list_entries pool other fid e = pf_list_entries pool other fid d"
    using folder_access_with_book [OF b(1,2)]
    by (simp add: pf_list_entries_def require_owned_personal_folder_def e assms(2) lf le entry_shown_def
        get_ab_folder_by_id_def b(1) cong: option.case_cong if_cong)
qed

text \<open>
  Claim C36. Whatever the others do with their personal folders, the folders and entries a user
  sees, and the shared address book, stay the same.
\<close>

theorem personal_folders_isolated:
  assumes "personal_caller other d = Inr (v, ident)"
    and "\<forall>(who, op) \<in> set run. \<forall>u i. personal_caller who d = Inr (u, i) \<longrightarrow> u \<noteq> v"
  shows "let e = fold (pf_step pool_active) run d
    in pf_list_folders other e = pf_list_folders other d \<and>
       (\<forall>fid. pf_list_entries pool_active other fid e = pf_list_entries pool_active other fid d) \<and>
       folders (book e) = folders (book d) \<and> entries (book e) = entries (book d) \<and> credentials (book e) = credentials (book d)"
proof -
  have "same_for v d (fold (pf_step pool_active) run d)"
    using assms(2)
  proof (induction run arbitrary: d)
    case Nil
    then show ?case by (simp add: same_for_refl)
  next
    case (Cons req run)
    obtain who op where req: "req = (who, op)" by force
    have step: "same_for v d (pf_step pool_active req d)"
      using Cons.prems unfolding req by (intro pf_step_other) auto
    have "same_for v (pf_step pool_active req d) (fold (pf_step pool_active) run (pf_step pool_active req d))"
      using Cons.prems same_for_caller [OF step] by (intro Cons.IH) auto
    with step same_for_trans show ?case by fastforce
  qed
  then show ?thesis
    using listing_same_for [OF _ assms(1)] by (auto simp: Let_def same_for_def)
qed


definition demo_two :: RbacDb where
  "demo_two = demo_access\<lparr>accounts := demo_accounts\<lparr>users := users demo_accounts @
     [(\<lparr>u_id = 2, u_email = ''b@x'', u_name = ''Bob'', u_oidc_subject = None, u_role = ''operator'', u_custom_role_id = None,
        u_disabled = False, u_created_at = 0, u_last_login_at = None, u_oidc_groups = [], u_auth_source = ''database''\<rparr>, None)]\<rparr>\<rparr>"

definition demo_bob :: AuthIdentity where
  "demo_bob = UserId ''b@x'' ''Bob'' ''operator'' [''ops'']"

theorem personal_folders_isolated_witness:
  "let e = fold (pf_step False) [(Some demo_bob, PfCreate 5 ''Work'' []), (Some demo_bob, PfAdd 1 ''shared'' ''Ops/Db'' ''pg'')] demo_two
   in pf_list_folders (Some demo_operator) e = pf_list_folders (Some demo_operator) demo_two \<and>
      length (user_folder_entries (book e)) = 1"
proof -
  let ?run = "[(Some demo_bob, PfCreate 5 ''Work'' []), (Some demo_bob, PfAdd 1 ''shared'' ''Ops/Db'' ''pg'')]"
  have "(personal_caller (Some demo_operator) demo_two = Inr (1, demo_operator)) \<and>
       (personal_caller (Some demo_bob) demo_two = Inr (2, demo_bob))"
    by code_simp
  then have "pf_list_folders (Some demo_operator) (fold (pf_step False) ?run demo_two) = pf_list_folders (Some demo_operator) demo_two"
    using personal_folders_isolated [of "Some demo_operator" demo_two 1 demo_operator ?run False] by (simp add: Let_def)
  moreover have "length (user_folder_entries (book (fold (pf_step False) ?run demo_two))) = 1" by code_simp
  ultimately show ?thesis by (simp add: Let_def)
qed

section \<open>References to other scopes\<close>

text \<open>
  A reference may name an entry of any scope, but the listing checks the folder path in the
  scope \<open>shared\<close>. Here \<open>vm\<close> is an entry of the open folder \<open>Lab\<close> of the scope \<open>instance\<close>, where
  no shared folder has this path.
\<close>

definition demo_lab :: RbacDb where
  "demo_lab = demo_two\<lparr>book := snd (create_ab_entry 0 4 ''vm'' [] ''ssh'' ''h'' None [] [] []
     (snd (create_ab_folder 0 ''instance'' ''Lab'' [] [] True (book demo_two))))\<rparr>"

lemma foreign_scope_reference_hidden:
  "let (r, d) = pf_create_folder 5 (Some demo_bob) ''Work'' [] demo_lab;
       (r', e) = pf_add_folder_entry False (Some demo_bob) 1 ''instance'' ''Lab'' ''vm'' d
   in is_ok r \<and> is_ok r' \<and> pf_list_entries False (Some demo_bob) 1 e = Inr []"
  by code_simp

text \<open>
  With an open shared folder of the same path, a folder of the scope \<open>instance\<close> that was closed
  after the reference was made no longer hides its entry, and the scope shown is wrong.
\<close>

lemma foreign_scope_reference_shown:
  "let e = snd (pf_add_folder_entry False (Some demo_bob) 1 ''instance'' ''Lab'' ''vm'' (snd (pf_create_folder 5 (Some demo_bob) ''Work'' [] demo_lab)));
       closed = e\<lparr>book := snd (create_ab_folder 0 ''shared'' ''Lab'' [] [] True
                   (snd (update_ab_folder 9 ''instance'' ''Lab'' [] ''admins'' True (book e))))\<rparr>
   in check_folder_access_db False closed ''instance'' ''Lab'' demo_bob = Inl (AppForbidden ''no access to this folder'') \<and>
      map_sum id (map (\<lambda>le. (le_scope le, e_name (le_entry le)))) (pf_list_entries False (Some demo_bob) 1 closed) = Inr [(''shared'', ''vm'')]"
  by code_simp

end
