(* ===== verification/Audit_Chain.thy ===== *)
theory Audit_Chain
  imports Identity "HOL-Library.List_Lexorder" "HOL-Library.Char_ord"
begin

text \<open>
  The audit log (\<^verbatim>\<open>src/src/audit.rs\<close> and its functions in \<^verbatim>\<open>src/src/db.rs\<close>): events with a chain of
  hashes, their verification, the filtered listing and the CSV export. Text of JSON, SHA-256 and
  timestamps come from libraries and are parameters.
\<close>

section \<open>Events\<close>

datatype Value = Null | Boolean bool | Number string | Str string | Array "Value list" | Object "(string \<times> Value) list"

text \<open>
  What the libraries provide: the text of a JSON value and its parser, the hexadecimal SHA-256 of
  a text, the RFC 3339 text of a time and its parser.
\<close>

record AuditEnv =
  json_text :: "Value \<Rightarrow> string"
  json_parse :: "string \<Rightarrow> Value option"
  sha256_hex :: "string \<Rightarrow> string"
  to_rfc3339 :: "DateTime \<Rightarrow> string"
  parse_rfc3339 :: "string \<Rightarrow> DateTime option"

record AuditEvent =
  ae_id :: int
  ae_event_type :: string
  ae_timestamp :: DateTime
  ae_user_id :: "string option"
  ae_source_ip :: "string option"
  ae_outcome :: string
  ae_details :: Value
  ae_session_id :: "string option"
  ae_prev_hash :: string
  ae_event_hash :: string
  ae_username :: "string option"

record EventBuilder =
  eb_event_type :: string
  eb_user_id :: "string option"
  eb_source_ip :: "string option"
  eb_outcome :: string
  eb_details :: Value
  eb_session_id :: "string option"

definition event_builder_new :: "string \<Rightarrow> string \<Rightarrow> EventBuilder" where
  "event_builder_new event_type outcome = \<lparr>eb_event_type = event_type, eb_user_id = None, eb_source_ip = None,
     eb_outcome = outcome, eb_details = Null, eb_session_id = None\<rparr>"

definition event_build :: "DateTime \<Rightarrow> EventBuilder \<Rightarrow> AuditEvent" where
  "event_build now b = \<lparr>ae_id = 0, ae_event_type = eb_event_type b, ae_timestamp = now, ae_user_id = eb_user_id b,
     ae_source_ip = eb_source_ip b, ae_outcome = eb_outcome b, ae_details = eb_details b,
     ae_session_id = eb_session_id b, ae_prev_hash = [], ae_event_hash = [], ae_username = None\<rparr>"

text \<open>The canonical JSON has its keys in the order of a \<open>BTreeMap\<close>.\<close>

definition opt_field :: "string \<Rightarrow> string option \<Rightarrow> (string \<times> Value) list" where
  "opt_field k v = (case v of None \<Rightarrow> [] | Some s \<Rightarrow> [(k, Str s)])"

definition event_fields :: "AuditEnv \<Rightarrow> AuditEvent \<Rightarrow> (string \<times> Value) list" where
  "event_fields env e =
     [(''details'', ae_details e), (''event_type'', Str (ae_event_type e)), (''outcome'', Str (ae_outcome e))] @
     opt_field ''session_id'' (ae_session_id e) @ opt_field ''source_ip'' (ae_source_ip e) @
     [(''timestamp'', Str (to_rfc3339 env (ae_timestamp e)))] @ opt_field ''user_id'' (ae_user_id e)"

definition compute_event_hash :: "AuditEnv \<Rightarrow> AuditEvent \<Rightarrow> string" where
  "compute_event_hash env e = sha256_hex env (json_text env (Object (event_fields env e)))"

section \<open>The table\<close>

record AuditRow =
  ar_id :: int
  ar_event_type :: string
  ar_timestamp :: string
  ar_user_id :: "string option"
  ar_source_ip :: "string option"
  ar_outcome :: string
  ar_details :: "string option"
  ar_session_id :: "string option"
  ar_prev_hash :: string
  ar_event_hash :: string

text \<open>Rows in the order of their ids, and the last id given (\<open>AUTOINCREMENT\<close>).\<close>

record AuditDb =
  audit_events :: "AuditRow list"
  audit_seq :: int

definition audit_db_new :: AuditDb where
  "audit_db_new = \<lparr>audit_events = [], audit_seq = 0\<rparr>"

definition genesis_hash :: string where
  "genesis_hash = replicate 64 CHR ''0''"

definition audit_tail :: "AuditDb \<Rightarrow> string" where
  "audit_tail d = (if audit_events d = [] then genesis_hash else ar_event_hash (last (audit_events d)))"

definition chained :: "AuditEnv \<Rightarrow> string \<Rightarrow> AuditEvent \<Rightarrow> AuditEvent" where
  "chained env prev e = (let e' = e\<lparr>ae_prev_hash := prev\<rparr> in e'\<lparr>ae_event_hash := compute_event_hash env e'\<rparr>)"

definition audit_insert :: "AuditEnv \<Rightarrow> AuditEvent \<Rightarrow> AuditDb \<Rightarrow> int \<times> AuditDb" where
  "audit_insert env e d =
     (let rid = audit_seq d + 1;
          row = \<lparr>ar_id = rid, ar_event_type = ae_event_type e, ar_timestamp = to_rfc3339 env (ae_timestamp e),
            ar_user_id = ae_user_id e, ar_source_ip = ae_source_ip e, ar_outcome = ae_outcome e,
            ar_details = (if ae_details e = Null then None else Some (json_text env (ae_details e))),
            ar_session_id = ae_session_id e, ar_prev_hash = ae_prev_hash e, ar_event_hash = ae_event_hash e\<rparr>
      in (rid, d\<lparr>audit_events := audit_events d @ [row], audit_seq := rid\<rparr>))"

text \<open>
  \<open>log_event\<close> holds the connection, and its pool variant the write lock of the process, from
  reading the last hash to the insert.
\<close>

definition log_event :: "AuditEnv \<Rightarrow> AuditEvent \<Rightarrow> AuditDb \<Rightarrow> int \<times> AuditDb" where
  "log_event env e d = audit_insert env (chained env (audit_tail d) e) d"

text \<open>\<open>fire\<close>: the builder's calls, the event at the time \<open>now\<close>, its write when the task runs.\<close>

definition fire ::
    "AuditEnv \<Rightarrow> DateTime \<Rightarrow> string option \<Rightarrow> string \<Rightarrow> string \<Rightarrow> Value \<Rightarrow> string option \<Rightarrow> string option \<Rightarrow> AuditDb \<Rightarrow> AuditDb" where
  "fire env now actor event_type outcome details ip sid d =
     (let b = event_builder_new event_type outcome;
          b1 = (case actor of Some u \<Rightarrow> b\<lparr>eb_user_id := Some u\<rparr> | None \<Rightarrow> b);
          b2 = (case ip of Some a \<Rightarrow> b1\<lparr>eb_source_ip := Some a\<rparr> | None \<Rightarrow> b1);
          b3 = (case sid of Some s \<Rightarrow> b2\<lparr>eb_session_id := Some s\<rparr> | None \<Rightarrow> b2)
      in snd (log_event env (event_build now (b3\<lparr>eb_details := details\<rparr>)) d))"

text \<open>Reading a row back; \<open>now\<close> stands in for a timestamp that does not parse.\<close>

definition row_event :: "AuditEnv \<Rightarrow> DateTime \<Rightarrow> AuditRow \<Rightarrow> AuditEvent" where
  "row_event env now r = \<lparr>ae_id = ar_id r, ae_event_type = ar_event_type r,
     ae_timestamp = (case parse_rfc3339 env (ar_timestamp r) of Some t \<Rightarrow> t | None \<Rightarrow> now),
     ae_user_id = ar_user_id r, ae_source_ip = ar_source_ip r, ae_outcome = ar_outcome r,
     ae_details = (case ar_details r of
         Some s \<Rightarrow> (case json_parse env s of Some v \<Rightarrow> v | None \<Rightarrow> Null)
       | None \<Rightarrow> Null),
     ae_session_id = ar_session_id r, ae_prev_hash = ar_prev_hash r, ae_event_hash = ar_event_hash r, ae_username = None\<rparr>"

section \<open>Verification\<close>

datatype ChainStatus = Verified | Broken

datatype ChainProblem =
    PrevMismatch string string
  | NotGenesis string
  | HashMismatch string string

record ChainVerification =
  cv_status :: ChainStatus
  cv_events_scanned :: nat
  cv_errors :: "(int \<times> ChainProblem) list"

text \<open>The two checks of one event, with the hash of the event before it in the scan.\<close>

definition link_errors :: "int option \<Rightarrow> string option \<Rightarrow> int \<times> AuditEvent \<Rightarrow> (int \<times> ChainProblem) list" where
  "link_errors first_id prev x =
     (case prev of
        Some expected \<Rightarrow>
          if ae_prev_hash (snd x) \<noteq> expected then [(fst x, PrevMismatch expected (ae_prev_hash (snd x)))] else []
      | None \<Rightarrow>
          if ae_prev_hash (snd x) \<noteq> genesis_hash \<and> first_id \<noteq> Some (fst x)
          then [(fst x, NotGenesis (ae_prev_hash (snd x)))] else [])"

definition hash_errors :: "AuditEnv \<Rightarrow> int \<times> AuditEvent \<Rightarrow> (int \<times> ChainProblem) list" where
  "hash_errors env x =
     (let computed = compute_event_hash env (snd x)
      in if computed \<noteq> ae_event_hash (snd x) then [(fst x, HashMismatch (ae_event_hash (snd x)) computed)] else [])"

fun scan_events ::
    "AuditEnv \<Rightarrow> int option \<Rightarrow> string option \<Rightarrow> (int \<times> AuditEvent) list \<Rightarrow> (int \<times> ChainProblem) list" where
  "scan_events env first_id prev [] = []"
| "scan_events env first_id prev (x # xs) =
     link_errors first_id prev x @ hash_errors env x @ scan_events env first_id (Some (ae_event_hash (snd x))) xs"

definition verify_events :: "AuditEnv \<Rightarrow> (int \<times> AuditEvent) list \<Rightarrow> int option \<Rightarrow> ChainVerification" where
  "verify_events env events first_id =
     (let errors = scan_events env first_id None events
      in \<lparr>cv_status = (if errors = [] then Verified else Broken), cv_events_scanned = length events, cv_errors = errors\<rparr>)"

definition in_range :: "string option \<Rightarrow> string option \<Rightarrow> AuditRow \<Rightarrow> bool" where
  "in_range from to r \<longleftrightarrow>
     (case from of None \<Rightarrow> True | Some f \<Rightarrow> f \<le> ar_timestamp r) \<and> (case to of None \<Rightarrow> True | Some t \<Rightarrow> ar_timestamp r \<le> t)"

definition min_id :: "AuditDb \<Rightarrow> int option" where
  "min_id d = (if audit_events d = [] then None else Some (Min (ar_id ` set (audit_events d))))"

definition verify_chain :: "AuditEnv \<Rightarrow> DateTime \<Rightarrow> string option \<Rightarrow> string option \<Rightarrow> AuditDb \<Rightarrow> ChainVerification" where
  "verify_chain env now from to d =
     verify_events env (map (\<lambda>r. (ar_id r, row_event env now r)) (filter (in_range from to) (audit_events d))) (min_id d)"


section \<open>Intact chains verify\<close>

definition row_hash :: "AuditEnv \<Rightarrow> DateTime \<Rightarrow> AuditRow \<Rightarrow> string" where
  "row_hash env now r = compute_event_hash env (row_event env now r)"

definition link_ok :: "int option \<Rightarrow> string option \<Rightarrow> AuditRow \<Rightarrow> bool" where
  "link_ok first_id prev r =
     (case prev of Some h \<Rightarrow> ar_prev_hash r = h | None \<Rightarrow> ar_prev_hash r = genesis_hash \<or> first_id = Some (ar_id r))"

fun linked :: "AuditEnv \<Rightarrow> DateTime \<Rightarrow> int option \<Rightarrow> string option \<Rightarrow> AuditRow list \<Rightarrow> bool" where
  "linked env now first_id prev [] = True"
| "linked env now first_id prev (r # rs) \<longleftrightarrow>
     link_ok first_id prev r \<and> row_hash env now r = ar_event_hash r \<and> linked env now first_id (Some (ar_event_hash r)) rs"

lemma scan_linked:
  "scan_events env first_id prev (map (\<lambda>r. (ar_id r, row_event env now r)) rs) = [] \<longleftrightarrow> linked env now first_id prev rs"
proof (induction rs arbitrary: prev)
  case (Cons r rs)
  then show ?case
    by (auto simp: link_errors_def hash_errors_def link_ok_def row_hash_def row_event_def Let_def split: option.splits)
qed simp

lemma range_all [simp]: "in_range None None r"
  by (simp add: in_range_def)

text \<open>A scan of the whole table is a check of every link and every hash.\<close>

lemma verified_iff:
  "cv_status (verify_chain env now None None d) = Verified \<longleftrightarrow> linked env now (min_id d) None (audit_events d)"
  by (simp add: verify_chain_def verify_events_def Let_def scan_linked)

lemma broken_iff:
  "cv_status (verify_chain env now None None d) = Broken \<longleftrightarrow> \<not> linked env now (min_id d) None (audit_events d)"
  using verified_iff [of env now d] by (cases "cv_status (verify_chain env now None None d)") simp_all

definition last_hash :: "string option \<Rightarrow> AuditRow list \<Rightarrow> string option" where
  "last_hash prev rs = (if rs = [] then prev else Some (ar_event_hash (last rs)))"

lemma last_hash_simps [simp]:
  "last_hash prev [] = prev" "last_hash prev (r # rs) = last_hash (Some (ar_event_hash r)) rs"
  "last_hash prev (rs @ [r]) = Some (ar_event_hash r)"
  by (simp_all add: last_hash_def)

lemma linked_append:
  "linked env now f prev (xs @ ys) \<longleftrightarrow> linked env now f prev xs \<and> linked env now f (last_hash prev xs) ys"
  by (induction xs arbitrary: prev) auto

text \<open>What is compared of an event: everything but the id, the two hashes and the resolved name.\<close>

definition content :: "AuditEvent \<Rightarrow> AuditEvent" where
  "content e = e\<lparr>ae_id := 0, ae_prev_hash := [], ae_event_hash := [], ae_username := None\<rparr>"

lemma compute_event_hash_content: "content a = content b \<Longrightarrow> compute_event_hash env a = compute_event_hash env b"
  by (cases a; cases b) (simp add: content_def compute_event_hash_def event_fields_def)

definition env_reads :: "AuditEnv \<Rightarrow> AuditEvent \<Rightarrow> bool" where
  "env_reads env e \<longleftrightarrow> parse_rfc3339 env (to_rfc3339 env (ae_timestamp e)) = Some (ae_timestamp e) \<and>
     (ae_details e \<noteq> Null \<longrightarrow> json_parse env (json_text env (ae_details e)) = Some (ae_details e))"

definition log_events :: "AuditEnv \<Rightarrow> AuditEvent list \<Rightarrow> AuditDb \<Rightarrow> AuditDb" where
  "log_events env es d = fold (\<lambda>e d. snd (log_event env e d)) es d"

text \<open>The row that an event becomes.\<close>

definition event_row :: "AuditEnv \<Rightarrow> AuditEvent \<Rightarrow> AuditDb \<Rightarrow> AuditRow" where
  "event_row env e d = last (audit_events (snd (log_event env e d)))"

lemma log_event_rows:
  "audit_events (snd (log_event env e d)) = audit_events d @ [event_row env e d]"
  "audit_seq (snd (log_event env e d)) = audit_seq d + 1" "fst (log_event env e d) = audit_seq d + 1"
  by (simp_all add: event_row_def log_event_def audit_insert_def Let_def)

lemma event_row_fields:
  "ar_id (event_row env e d) = audit_seq d + 1" "ar_prev_hash (event_row env e d) = audit_tail d"
  "ar_event_hash (event_row env e d) = compute_event_hash env e"
  by (simp_all add: event_row_def log_event_def audit_insert_def chained_def Let_def compute_event_hash_def event_fields_def)

lemma event_row_read:
  assumes "env_reads env e"
  shows "content (row_event env now (event_row env e d)) = content e"
  using assms
  by (cases e) (auto simp: event_row_def log_event_def audit_insert_def chained_def Let_def row_event_def content_def env_reads_def)

lemma event_row_hash: "env_reads env e \<Longrightarrow> row_hash env now (event_row env e d) = compute_event_hash env e"
  unfolding row_hash_def by (rule compute_event_hash_content [OF event_row_read])

text \<open>Ids grow along the table, and the first row is the one of the smallest id.\<close>

definition ids_grow :: "AuditDb \<Rightarrow> bool" where
  "ids_grow d \<longleftrightarrow> sorted_wrt (<) (map ar_id (audit_events d)) \<and> (\<forall>r \<in> set (audit_events d). ar_id r \<le> audit_seq d)"

lemma ids_grow_log: "ids_grow d \<Longrightarrow> ids_grow (snd (log_event env e d))"
  by (auto simp: ids_grow_def log_event_rows event_row_fields sorted_wrt_append)

definition chain_inv :: "AuditEnv \<Rightarrow> DateTime \<Rightarrow> AuditDb \<Rightarrow> bool" where
  "chain_inv env now d \<longleftrightarrow> (\<forall>f. linked env now f None (audit_events d)) \<and> ids_grow d"

lemma chain_inv_log:
  assumes "chain_inv env now d" "env_reads env e"
  shows "chain_inv env now (snd (log_event env e d))"
proof -
  have "link_ok f (last_hash None (audit_events d)) (event_row env e d)" for f
    by (simp add: link_ok_def last_hash_def event_row_fields audit_tail_def)
  with assms show ?thesis
    by (simp add: chain_inv_def log_event_rows linked_append event_row_hash event_row_fields ids_grow_log)
qed

definition read_back :: "AuditEnv \<Rightarrow> DateTime \<Rightarrow> AuditDb \<Rightarrow> AuditEvent list" where
  "read_back env now d = map (\<lambda>r. content (row_event env now r)) (audit_events d)"

lemma log_events_inv:
  assumes "list_all (env_reads env) es" "chain_inv env now d"
  shows "chain_inv env now (log_events env es d) \<and>
     read_back env now (log_events env es d) = read_back env now d @ map content es \<and>
     map ar_id (audit_events (log_events env es d)) = map ar_id (audit_events d) @ map (\<lambda>i. audit_seq d + 1 + int i) [0..<length es]"
  using assms
proof (induction es arbitrary: d)
  case (Cons e es)
  let ?d = "snd (log_event env e d)"
  have ids: "map (\<lambda>i. audit_seq d + 1 + int i) [0..<length (e # es)] =
      (audit_seq d + 1) # map (\<lambda>i. audit_seq ?d + 1 + int i) [0..<length es]"
    by (simp add: log_event_rows upt_conv_Cons map_Suc_upt [symmetric] comp_def del: upt_Suc)
  have run: "log_events env (e # es) d = log_events env es ?d" by (simp add: log_events_def)
  have e: "env_reads env e" and es: "list_all (env_reads env) es" using Cons.prems(1) by simp_all
  have rb: "read_back env now ?d = read_back env now d @ [content e]"
    using event_row_read [OF e] by (simp add: read_back_def log_event_rows)
  have ar: "map ar_id (audit_events ?d) = map ar_id (audit_events d) @ [audit_seq d + 1]"
    by (simp add: log_event_rows event_row_fields)
  from Cons.IH [OF es chain_inv_log [OF Cons.prems(2) e]] show ?case
    unfolding run rb ar ids by simp
qed (simp add: log_events_def)


text \<open>
  Claim C10. Whatever events are logged, one after the other, a verification of the whole log says
  verified, has scanned all of them and has no errors; the log holds exactly the events, in order
  and with their content, under growing ids.
\<close>

theorem logged_chain_verifies:
  assumes "list_all (env_reads env) es"
  shows "verify_chain env now None None (log_events env es audit_db_new) =
       \<lparr>cv_status = Verified, cv_events_scanned = length es, cv_errors = []\<rparr> \<and>
     read_back env now (log_events env es audit_db_new) = map content es \<and>
     map ar_id (audit_events (log_events env es audit_db_new)) = map (\<lambda>i. 1 + int i) [0..<length es]"
proof -
  let ?d = "log_events env es audit_db_new"
  have "chain_inv env now audit_db_new" by (simp add: chain_inv_def audit_db_new_def ids_grow_def)
  from log_events_inv [OF assms this] have inv: "chain_inv env now ?d"
    and rb: "read_back env now ?d = map content es"
    and ids: "map ar_id (audit_events ?d) = map (\<lambda>i. 1 + int i) [0..<length es]"
    by (simp_all add: audit_db_new_def read_back_def)
  have len: "length (audit_events ?d) = length es"
    using arg_cong [OF rb, of length] by (simp add: read_back_def)
  from inv have "scan_events env (min_id ?d) None (map (\<lambda>r. (ar_id r, row_event env now r)) (audit_events ?d)) = []"
    by (simp add: chain_inv_def scan_linked)
  with len rb ids show ?thesis by (simp add: verify_chain_def verify_events_def)
qed

text \<open>A small instance of the libraries, for evaluation.\<close>

fun demo_json :: "Value \<Rightarrow> string" where
  "demo_json Null = ''null''"
| "demo_json (Boolean b) = (if b then ''true'' else ''false'')"
| "demo_json (Number n) = n"
| "demo_json (Str s) = CHR 0x22 # s @ [CHR 0x22]"
| "demo_json (Array vs) = ''['' @ join '','' (map demo_json vs) @ '']''"
| "demo_json (Object kvs) = ''{'' @ join '','' (map (\<lambda>(k, v). (CHR 0x22 # k @ CHR 0x22 # '':'') @ demo_json v) kvs) @ ''}''"

definition demo_libs :: AuditEnv where
  "demo_libs = \<lparr>json_text = demo_json,
     json_parse = (\<lambda>s. if s = ''true'' then Some (Boolean True) else if s = ''false'' then Some (Boolean False) else None),
     sha256_hex = (\<lambda>s. s), to_rfc3339 = (\<lambda>t. show_nat (nat t)), parse_rfc3339 = (\<lambda>s. map_option int (parse_digits (10 ^ 30) s))\<rparr>"

definition demo_audit :: "string \<Rightarrow> DateTime \<Rightarrow> AuditEvent" where
  "demo_audit ty t = event_build t ((event_builder_new ty ''success'')\<lparr>eb_user_id := Some ''7'', eb_details := Boolean True\<rparr>)"

definition demo_log :: AuditDb where
  "demo_log = log_events demo_libs [demo_audit ''login'' 5, demo_audit ''logout'' 9, demo_audit ''login'' 12] audit_db_new"

lemma demo_log_reads: "list_all (env_reads demo_libs) [demo_audit ''login'' 5, demo_audit ''logout'' 9, demo_audit ''login'' 12]"
  by code_simp

theorem logged_chain_verifies_witness:
  "verify_chain demo_libs 0 None None demo_log = \<lparr>cv_status = Verified, cv_events_scanned = 3, cv_errors = []\<rparr>"
  using logged_chain_verifies [OF demo_log_reads, of 0] by (simp add: demo_log_def)


section \<open>Changed chains do not\<close>

text \<open>
  Claim C9. Take a log that verifies and two rows \<open>r\<close> and \<open>s\<close> that follow each other in it, and any
  row \<open>x\<close> with another hash than \<open>r\<close>. Replacing \<open>r\<close> by \<open>x\<close>, whatever hashes are written into \<open>x\<close>, and
  inserting \<open>x\<close> between \<open>r\<close> and \<open>s\<close> make the log verify as broken, and so does removing \<open>r\<close> when a row
  with another hash comes before it.
\<close>

theorem tampering_detected:
  assumes "cv_status (verify_chain env now None None (d\<lparr>audit_events := rs @ r # s # ss\<rparr>)) = Verified"
    and "row_hash env now x \<noteq> row_hash env now r"
  shows "cv_status (verify_chain env now None None (d\<lparr>audit_events := rs @ x # s # ss\<rparr>)) = Broken \<and>
     cv_status (verify_chain env now None None (d\<lparr>audit_events := rs @ r # x # s # ss\<rparr>)) = Broken \<and>
     (rs \<noteq> [] \<and> row_hash env now (last rs) \<noteq> row_hash env now r \<longrightarrow>
        cv_status (verify_chain env now None None (d\<lparr>audit_events := rs @ s # ss\<rparr>)) = Broken)"
proof -
  from assms(1) have s: "ar_prev_hash s = ar_event_hash r" "ar_event_hash r = row_hash env now r"
    by (simp_all add: verified_iff linked_append link_ok_def)
  have "linked env now f None rs \<Longrightarrow> rs \<noteq> [] \<Longrightarrow> ar_event_hash (last rs) = row_hash env now (last rs)" for f
    by (induction rs rule: rev_induct) (simp_all add: linked_append)
  with s assms(2) show ?thesis
    by (auto simp: broken_iff linked_append link_ok_def last_hash_def)
qed

lemma demo_log_rows:
  "audit_events demo_log = [audit_events demo_log ! 0] @ (audit_events demo_log ! 1) # (audit_events demo_log ! 2) # []"
  "row_hash demo_libs 0 ((audit_events demo_log ! 1)\<lparr>ar_user_id := Some ''8''\<rparr>) \<noteq> row_hash demo_libs 0 (audit_events demo_log ! 1)"
  "row_hash demo_libs 0 (audit_events demo_log ! 0) \<noteq> row_hash demo_libs 0 (audit_events demo_log ! 1)"
  "cv_status (verify_chain demo_libs 0 None None (demo_log\<lparr>audit_events := [audit_events demo_log ! 0] @
     (audit_events demo_log ! 1) # (audit_events demo_log ! 2) # []\<rparr>)) = Verified"
proof -
  have "(audit_events demo_log = [audit_events demo_log ! 0] @ (audit_events demo_log ! 1) # (audit_events demo_log ! 2) # []) \<and>
       (row_hash demo_libs 0 ((audit_events demo_log ! 1)\<lparr>ar_user_id := Some ''8''\<rparr>) \<noteq> row_hash demo_libs 0 (audit_events demo_log ! 1)) \<and>
       (row_hash demo_libs 0 (audit_events demo_log ! 0) \<noteq> row_hash demo_libs 0 (audit_events demo_log ! 1)) \<and>
       (cv_status (verify_chain demo_libs 0 None None (demo_log\<lparr>audit_events := [audit_events demo_log ! 0] @
     (audit_events demo_log ! 1) # (audit_events demo_log ! 2) # []\<rparr>)) = Verified)"
    by code_simp
  then show "audit_events demo_log = [audit_events demo_log ! 0] @ (audit_events demo_log ! 1) # (audit_events demo_log ! 2) # []" "row_hash demo_libs 0 ((audit_events demo_log ! 1)\<lparr>ar_user_id := Some ''8''\<rparr>) \<noteq> row_hash demo_libs 0 (audit_events demo_log ! 1)" "row_hash demo_libs 0 (audit_events demo_log ! 0) \<noteq> row_hash demo_libs 0 (audit_events demo_log ! 1)" "cv_status (verify_chain demo_libs 0 None None (demo_log\<lparr>audit_events := [audit_events demo_log ! 0] @
     (audit_events demo_log ! 1) # (audit_events demo_log ! 2) # []\<rparr>)) = Verified"
    by blast+
qed

theorem tampering_detected_witness:
  "cv_status (verify_chain demo_libs 0 None None (demo_log\<lparr>audit_events :=
      [audit_events demo_log ! 0] @ (audit_events demo_log ! 1)\<lparr>ar_user_id := Some ''8''\<rparr> # (audit_events demo_log ! 2) # []\<rparr>)) = Broken \<and>
   cv_status (verify_chain demo_libs 0 None None (demo_log\<lparr>audit_events :=
      [audit_events demo_log ! 0] @ (audit_events demo_log ! 2) # []\<rparr>)) = Broken"
  using tampering_detected [OF demo_log_rows(4,2)] demo_log_rows(3) by simp

text \<open>
  The hash of an event does not cover the hash before it. A row is removed without a trace by
  one more change, to the link of the row after it; nothing further down is regenerated.
\<close>

lemma interior_removal_repaired:
  assumes "cv_status (verify_chain env now None None (d\<lparr>audit_events := rs @ [q] @ r # s # ss\<rparr>)) = Verified"
    and "min_id (d\<lparr>audit_events := rs @ [q] @ r # s # ss\<rparr>) = min_id (d\<lparr>audit_events := rs @ [q] @ s\<lparr>ar_prev_hash := ar_event_hash q\<rparr> # ss\<rparr>)"
  shows "cv_status (verify_chain env now None None
     (d\<lparr>audit_events := rs @ [q] @ s\<lparr>ar_prev_hash := ar_event_hash q\<rparr> # ss\<rparr>)) = Verified"
proof -
  have "row_hash env now (s\<lparr>ar_prev_hash := h\<rparr>) = row_hash env now s" for h
    unfolding row_hash_def by (rule compute_event_hash_content) (simp add: row_event_def content_def)
  with assms show ?thesis by (simp add: verified_iff linked_append link_ok_def split: option.splits)
qed

text \<open>The end of the log can be cut off unseen.\<close>

lemma truncation_unseen:
  assumes "cv_status (verify_chain env now None None (d\<lparr>audit_events := rs @ ss\<rparr>)) = Verified"
    and "min_id (d\<lparr>audit_events := rs @ ss\<rparr>) = min_id (d\<lparr>audit_events := rs\<rparr>)"
  shows "cv_status (verify_chain env now None None (d\<lparr>audit_events := rs\<rparr>)) = Verified"
  using assms by (simp add: verified_iff linked_append)

text \<open>A verification from a later time on reports an intact log as broken.\<close>

lemma ranged_verification_broken:
  "cv_status (verify_chain demo_libs 0 None None demo_log) = Verified"
  "cv_status (verify_chain demo_libs 0 (Some ''9'') None demo_log) = Broken"
proof -
  have "(cv_status (verify_chain demo_libs 0 None None demo_log) = Verified) \<and>
       (cv_status (verify_chain demo_libs 0 (Some ''9'') None demo_log) = Broken)"
    by code_simp
  then show "cv_status (verify_chain demo_libs 0 None None demo_log) = Verified" "cv_status (verify_chain demo_libs 0 (Some ''9'') None demo_log) = Broken"
    by blast+
qed

text \<open>
  The write lock is one of the process. Two processes on the same database that both read the
  last hash before either writes fork the chain.
\<close>

lemma two_writers_fork:
  "cv_status (verify_chain demo_libs 0 None None
     (snd (audit_insert demo_libs (chained demo_libs (audit_tail demo_log) (demo_audit ''b'' 21))
       (snd (audit_insert demo_libs (chained demo_libs (audit_tail demo_log) (demo_audit ''a'' 20)) demo_log))))) = Broken"
  by code_simp

end
