(* ===== verification/Csv.thy ===== *)
theory Csv
  imports Persea_Prelude "HOL-Library.Sublist"
begin

text \<open>
  Fields of CSV files (\<open>csv_escape_field\<close> of \<^verbatim>\<open>src/src/db.rs\<close>), with a reader of the format to state
  what a spreadsheet gets, and the escaping of HTML (\<open>html_escape\<close> of the handlers).
\<close>

section \<open>Writing fields\<close>

abbreviation quote :: char where
  "quote \<equiv> CHR 0x22"

definition formula_start :: "char \<Rightarrow> bool" where
  "formula_start c \<longleftrightarrow> c \<in> {CHR ''='', CHR ''+'', CHR ''-'', CHR ''@'', CHR 0x09, CHR 0x0D}"

definition csv_safe :: "string \<Rightarrow> string" where
  "csv_safe f = (case f of [] \<Rightarrow> [] | c # _ \<Rightarrow> if formula_start c then CHR 0x27 # f else f)"

definition csv_quoted :: "string \<Rightarrow> string" where
  "csv_quoted s = quote # concat (map (\<lambda>c. if c = quote then [quote, quote] else [c]) s) @ [quote]"

definition csv_special :: "char \<Rightarrow> bool" where
  "csv_special c \<longleftrightarrow> c \<in> {CHR '','', quote, CHR 0x0A, CHR 0x0D}"

definition csv_escape_field :: "string \<Rightarrow> string" where
  "csv_escape_field f = (let s = csv_safe f in if list_ex csv_special s then csv_quoted s else s)"

definition csv_line :: "string list \<Rightarrow> string" where
  "csv_line fs = join '','' (map csv_escape_field fs) @ [CHR 0x0A]"

section \<open>Reading a file\<close>

text \<open>A quoted field after its opening quote: the text and the rest.\<close>

fun read_quoted :: "string \<Rightarrow> (string \<times> string) option" where
  "read_quoted [] = None"
| "read_quoted (c # r) =
     (if c = quote
      then (case r of
              d # r' \<Rightarrow> if d = quote then map_option (\<lambda>(f, t). (quote # f, t)) (read_quoted r') else Some ([], r)
            | [] \<Rightarrow> Some ([], r))
      else map_option (\<lambda>(f, t). (c # f, t)) (read_quoted r))"

definition read_field :: "string \<Rightarrow> (string \<times> string) option" where
  "read_field s =
     (case s of
        c # r \<Rightarrow> if c = quote then read_quoted r
                 else Some (takeWhile (\<lambda>c. \<not> csv_special c) s, dropWhile (\<lambda>c. \<not> csv_special c) s)
      | [] \<Rightarrow> Some ([], []))"

lemma read_quoted_length: "read_quoted s = Some (f, t) \<Longrightarrow> length t < length s"
proof (induction s arbitrary: f t rule: read_quoted.induct)
  case (2 c r)
  then show ?case by (fastforce split: if_splits list.splits)
qed simp

lemma read_field_length: "read_field s = Some (f, t) \<Longrightarrow> length t \<le> length s"
  by (auto simp: read_field_def split: list.splits if_splits dest!: read_quoted_length intro: length_dropWhile_le le_SucI)

function read_csv :: "string list \<Rightarrow> string \<Rightarrow> string list list option" where
  "read_csv acc s =
     (if s = [] then (if acc = [] then Some [] else None)
      else case read_field s of
             None \<Rightarrow> None
           | Some (f, t) \<Rightarrow>
               (case t of
                  [] \<Rightarrow> None
                | c # t' \<Rightarrow>
                    if c = CHR '','' then read_csv (acc @ [f]) t'
                    else if c = CHR 0x0A then map_option (Cons (acc @ [f])) (read_csv [] t')
                    else None))"
  by pat_completeness auto
termination
  by (relation "measure (\<lambda>(_, s). length s)") (auto dest!: read_field_length)

declare read_csv.simps [simp del]

lemma read_csv_Nil [simp]: "read_csv [] [] = Some []"
  by (subst read_csv.simps) simp

lemma read_quoted_write:
  assumes "t = [] \<or> hd t \<noteq> quote"
  shows "read_quoted (concat (map (\<lambda>c. if c = quote then [quote, quote] else [c]) s) @ quote # t) = Some (s, t)"
  using assms by (induction s) (auto split: list.splits)

lemma read_field_plain:
  assumes "\<not> list_ex csv_special s" "csv_special c"  "c \<noteq> quote"
  shows "read_field (s @ c # t) = Some (s, c # t)"
proof -
  have s: "\<forall>x \<in> set s. \<not> csv_special x" using assms(1) by (simp add: list_ex_iff)
  have "read_field (s @ c # t) = Some (takeWhile (\<lambda>c. \<not> csv_special c) (s @ c # t), dropWhile (\<lambda>c. \<not> csv_special c) (s @ c # t))"
    using s assms(3) by (cases s) (auto simp: read_field_def csv_special_def)
  with s assms(2) show ?thesis by (simp add: takeWhile_append2 dropWhile_append2)
qed

text \<open>A written field is read back as the safe one, and the reader stops at its end.\<close>

lemma read_field_write:
  assumes "c = CHR '','' \<or> c = CHR 0x0A"
  shows "read_field (csv_escape_field f @ c # t) = Some (csv_safe f, c # t)"
proof (cases "list_ex csv_special (csv_safe f)")
  case True
  then show ?thesis
    using assms read_quoted_write [of "c # t" "csv_safe f"]
    by (auto simp: csv_escape_field_def csv_quoted_def read_field_def)
next
  case False
  with assms show ?thesis
    using read_field_plain [OF False, of c t] by (auto simp: csv_escape_field_def csv_special_def)
qed

lemma read_csv_field:
  assumes "c = CHR '','' \<or> c = CHR 0x0A"
  shows "read_csv acc (csv_escape_field f @ c # t) =
     (if c = CHR '','' then read_csv (acc @ [csv_safe f]) t else map_option (Cons (acc @ [csv_safe f])) (read_csv [] t))"
  by (subst read_csv.simps) (use assms in \<open>auto simp: read_field_write\<close>)

lemma read_csv_line:
  "fs \<noteq> [] \<Longrightarrow> read_csv acc (csv_line fs @ t) = map_option (Cons (acc @ map csv_safe fs)) (read_csv [] t)"
proof (induction fs arbitrary: acc)
  case (Cons f fs)
  show ?case
  proof (cases fs)
    case Nil
    then show ?thesis using read_csv_field [of "CHR 0x0A" acc f t] by (simp add: csv_line_def)
  next
    case (Cons g gs)
    with Cons.IH [of "acc @ [csv_safe f]"] show ?thesis
      using read_csv_field [of "CHR '',''" acc f "csv_line fs @ t"] by (simp add: csv_line_def join_Cons)
  qed
qed simp

lemma read_csv_lines:
  "list_all (\<lambda>fs. fs \<noteq> []) rows \<Longrightarrow> read_csv [] (concat (map csv_line rows)) = Some (map (map csv_safe) rows)"
  by (induction rows) (simp_all add: read_csv_line)

text \<open>No cell of a file starts a formula.\<close>

definition inert_cell :: "string \<Rightarrow> bool" where
  "inert_cell c \<longleftrightarrow> c = [] \<or> \<not> formula_start (hd c)"

lemma csv_safe_inert: "inert_cell (csv_safe f)"
  by (cases f) (auto simp: csv_safe_def formula_start_def inert_cell_def)

section \<open>HTML\<close>

text \<open>\<open>str::replace\<close> of a character by a text.\<close>

definition replace_char :: "char \<Rightarrow> string \<Rightarrow> string \<Rightarrow> string" where
  "replace_char c t s = concat (map (\<lambda>x. if x = c then t else [x]) s)"

definition html_escape :: "string \<Rightarrow> string" where
  "html_escape s =
     replace_char CHR 0x27 ''&#x27;'' (replace_char quote ''&quot;'' (replace_char CHR ''>'' ''&gt;''
       (replace_char CHR ''<'' ''&lt;'' (replace_char CHR ''&'' ''&amp;'' s))))"

text \<open>What one pass would do, character by character.\<close>

definition html_char :: "char \<Rightarrow> string" where
  "html_char c = (if c = CHR ''&'' then ''&amp;'' else if c = CHR ''<'' then ''&lt;'' else if c = CHR ''>'' then ''&gt;''
     else if c = quote then ''&quot;'' else if c = CHR 0x27 then ''&#x27;'' else [c])"

lemma html_escape_one_pass: "html_escape s = concat (map html_char s)"
  by (induction s) (simp_all add: html_escape_def replace_char_def html_char_def)

text \<open>A reader of the five entities.\<close>

function html_unescape :: "string \<Rightarrow> string" where
  "html_unescape s =
     (if s = [] then []
      else if prefix ''&amp;'' s then CHR ''&'' # html_unescape (drop 5 s)
      else if prefix ''&lt;'' s then CHR ''<'' # html_unescape (drop 4 s)
      else if prefix ''&gt;'' s then CHR ''>'' # html_unescape (drop 4 s)
      else if prefix ''&quot;'' s then quote # html_unescape (drop 6 s)
      else if prefix ''&#x27;'' s then CHR 0x27 # html_unescape (drop 6 s)
      else hd s # html_unescape (tl s))"
  by pat_completeness auto
termination by (relation "measure length") auto


declare html_unescape.simps [simp del]

lemma html_unescape_char: "html_unescape (html_char c @ r) = c # html_unescape r"
  by (subst html_unescape.simps) (simp add: html_char_def)

text \<open>
  Escaped text has none of the characters that end a text or an attribute, and decodes to the
  original.
\<close>

lemma html_escape_safe: "set (html_escape s) \<inter> {CHR ''<'', CHR ''>'', quote, CHR 0x27} = {}"
  by (auto simp: html_escape_one_pass html_char_def split: if_splits)

lemma html_escape_decodes: "html_unescape (html_escape s) = s"
  unfolding html_escape_one_pass
proof (induction s)
  case Nil
  show ?case by (subst html_unescape.simps) simp
qed (simp add: html_unescape_char)

end
