(* ===== verification/Audit_Reports.thy ===== *)
theory Audit_Reports
  imports Audit_Chain Csv
begin

text \<open>
  Reading the audit log (\<open>list_events\<close>, \<open>count_events\<close> and \<open>export_events_csv\<close> of \<^verbatim>\<open>src/src/audit.rs\<close>)
  and the handlers of the audit page (\<open>audit_events\<close>, \<open>audit_verify\<close> and \<open>audit_export\<close> of
  \<^verbatim>\<open>src/src/api/admin.rs\<close>).
\<close>

section \<open>Listing\<close>

record AuditFilters =
  af_user_id :: "string option"
  af_event_type :: "string option"
  af_outcome :: "string option"
  af_from :: "string option"
  af_to :: "string option"

definition filter_matches :: "AuditFilters \<Rightarrow> AuditRow \<Rightarrow> bool" where
  "filter_matches f r \<longleftrightarrow>
     (case af_user_id f of None \<Rightarrow> True | Some u \<Rightarrow> ar_user_id r = Some u) \<and>
     (case af_event_type f of None \<Rightarrow> True | Some t \<Rightarrow> ar_event_type r = t) \<and>
     (case af_outcome f of None \<Rightarrow> True | Some t \<Rightarrow> ar_outcome r = t) \<and>
     in_range (af_from f) (af_to f) r"

definition show_int :: "int \<Rightarrow> string" where
  "show_int i = (if i < 0 then CHR ''-'' # show_nat (nat (- i)) else show_nat (nat i))"

definition resolve_username :: "string \<Rightarrow> (int \<rightharpoonup> string) \<Rightarrow> string" where
  "resolve_username raw names =
     (case parse_signed 64 raw of
        Some uid \<Rightarrow> (case names uid of Some n \<Rightarrow> n | None \<Rightarrow> ''deleted user #'' @ show_int uid)
      | None \<Rightarrow> raw)"

definition numeric_ids :: "AuditEvent list \<Rightarrow> int list" where
  "numeric_ids es = remdups (List.map_filter (\<lambda>e. Option.bind (ae_user_id e) (parse_signed 64)) es)"

definition build_user_map :: "AuthDb \<Rightarrow> int list \<Rightarrow> int \<rightharpoonup> string" where
  "build_user_map db ids =
     map_of (map (\<lambda>(u, _). (u_id u, u_name u)) (filter (\<lambda>(u, _). u_id u \<in> set ids) (users db)))"

text \<open>SQLite takes a limit and an offset as signed numbers; a larger one is an error.\<close>

definition i64_max :: nat where
  "i64_max = 2 ^ 63 - 1"

datatype AuditFailure = SqlConversion

definition list_events ::
    "AuditEnv \<Rightarrow> DateTime \<Rightarrow> AuthDb \<Rightarrow> nat \<Rightarrow> nat \<Rightarrow> AuditFilters \<Rightarrow> AuditDb \<Rightarrow> (AuditEvent list, AuditFailure) result" where
  "list_events env now db limit offset f d =
     (if i64_max < limit \<or> i64_max < offset then Inl SqlConversion
      else let rows = take limit (drop offset (rev (filter (filter_matches f) (audit_events d))));
               es = map (row_event env now) rows;
               names = build_user_map db (numeric_ids es)
           in Inr (map (\<lambda>e. case ae_user_id e of
                              Some uid \<Rightarrow> e\<lparr>ae_username := Some (resolve_username uid names)\<rparr>
                            | None \<Rightarrow> e) es))"

definition count_events :: "AuditFilters \<Rightarrow> AuditDb \<Rightarrow> nat" where
  "count_events f d = length (filter (filter_matches f) (audit_events d))"

section \<open>Export\<close>

definition csv_header :: "string list" where
  "csv_header = [''id'', ''timestamp'', ''event_type'', ''user_id'', ''username'', ''source_ip'', ''outcome'', ''details'',
     ''session_id'', ''event_hash'']"

definition event_csv_fields :: "AuditEnv \<Rightarrow> AuditEvent \<Rightarrow> string list" where
  "event_csv_fields env e =
     [show_int (ae_id e), to_rfc3339 env (ae_timestamp e), ae_event_type e,
      case ae_user_id e of Some u \<Rightarrow> u | None \<Rightarrow> [],
      case ae_username e of Some u \<Rightarrow> u | None \<Rightarrow> [],
      case ae_source_ip e of Some i \<Rightarrow> i | None \<Rightarrow> [],
      ae_outcome e,
      if ae_details e = Null then [] else json_text env (ae_details e),
      case ae_session_id e of Some s \<Rightarrow> s | None \<Rightarrow> [],
      ae_event_hash e]"

definition EXPORT_LIMIT :: nat where
  "EXPORT_LIMIT = 100000"

definition export_events_csv ::
    "AuditEnv \<Rightarrow> DateTime \<Rightarrow> AuthDb \<Rightarrow> AuditFilters \<Rightarrow> AuditDb \<Rightarrow> (string, AuditFailure) result" where
  "export_events_csv env now db f d =
     (case list_events env now db EXPORT_LIMIT 0 f d of
        Inl e \<Rightarrow> Inl e
      | Inr es \<Rightarrow> Inr (join '','' csv_header @ [CHR 0x0A] @ concat (map (\<lambda>e. csv_line (event_csv_fields env e)) es)))"

section \<open>Handlers\<close>

definition non_empty :: "string option \<Rightarrow> string option" where
  "non_empty v = (case v of Some s \<Rightarrow> if s = [] then None else Some s | None \<Rightarrow> None)"

definition request_filters :: "(string \<rightharpoonup> string) \<Rightarrow> AuditFilters" where
  "request_filters params = \<lparr>af_user_id = non_empty (params ''user''), af_event_type = non_empty (params ''event_type''),
     af_outcome = non_empty (params ''outcome''), af_from = non_empty (params ''from''), af_to = non_empty (params ''to'')\<rparr>"

definition u64_max :: nat where
  "u64_max = 2 ^ 64 - 1"

definition number_param :: "(string \<rightharpoonup> string) \<Rightarrow> string \<Rightarrow> nat \<Rightarrow> nat" where
  "number_param params key dflt =
     (case Option.bind (params key) (parse_unsigned u64_max) of Some n \<Rightarrow> n | None \<Rightarrow> dflt)"

record AuditPage =
  ap_events :: "AuditEvent list"
  ap_total :: nat
  ap_pages :: nat
  ap_current :: nat
  ap_limit :: nat

text \<open>How a handler ends: with an error response, with a panic, or with its value.\<close>

datatype 'a Outcome = Refused AppError | Panicked | Answer 'a

definition audit_events_handler ::
    "AuditEnv \<Rightarrow> DateTime \<Rightarrow> AuthDb \<Rightarrow> AuthIdentity option \<Rightarrow> (string \<rightharpoonup> string) \<Rightarrow> AuditDb \<Rightarrow> AuditPage Outcome" where
  "audit_events_handler env now db identity params d =
     (case require_role identity ''admin'' of
        Inl e \<Rightarrow> Refused e
      | Inr _ \<Rightarrow>
          let limit = number_param params ''limit'' 50;
              offset = number_param params ''offset'' 0;
              f = request_filters params;
              total = count_events f d;
              es = (case list_events env now db limit offset f d of Inr es \<Rightarrow> es | Inl _ \<Rightarrow> [])
          in if limit = 0 then Panicked
             else Answer \<lparr>ap_events = es, ap_total = total, ap_pages = (total + limit - 1) div limit,
                    ap_current = (offset div limit + 1) mod 2 ^ 64, ap_limit = limit\<rparr>)"

definition audit_verify :: "AuditEnv \<Rightarrow> DateTime \<Rightarrow> AuthIdentity option \<Rightarrow> AuditDb \<Rightarrow> ChainVerification Outcome" where
  "audit_verify env now identity d =
     (case require_role identity ''admin'' of
        Inl e \<Rightarrow> Refused e
      | Inr _ \<Rightarrow> Answer (verify_chain env now None None d))"

datatype Export = ExportJson "AuditEvent list" | ExportCsv string

definition audit_export ::
    "AuditEnv \<Rightarrow> DateTime \<Rightarrow> AuthDb \<Rightarrow> AuthIdentity option \<Rightarrow> (string \<rightharpoonup> string) \<Rightarrow> AuditDb \<Rightarrow> Export Outcome" where
  "audit_export env now db identity params d =
     (case require_role identity ''admin'' of
        Inl e \<Rightarrow> Refused e
      | Inr _ \<Rightarrow>
          let f = request_filters params;
              format = (case params ''format'' of Some s \<Rightarrow> s | None \<Rightarrow> ''csv'')
          in if format = ''json''
             then (case list_events env now db 100000 0 f d of
                     Inl _ \<Rightarrow> Refused (AppInternal ''export error'')
                   | Inr es \<Rightarrow> Answer (ExportJson es))
             else (case export_events_csv env now db f d of
                     Inl _ \<Rightarrow> Refused (AppInternal ''export error'')
                   | Inr s \<Rightarrow> Answer (ExportCsv s)))"

section \<open>What a spreadsheet reads\<close>

lemma list_events_Inr:
  assumes "limit \<le> i64_max" "offset \<le> i64_max"
  obtains es where "list_events env now db limit offset f d = Inr es"
    "map content es = map content (map (row_event env now) (take limit (drop offset (rev (filter (filter_matches f) (audit_events d))))))"
proof -
  let ?es = "map (row_event env now) (take limit (drop offset (rev (filter (filter_matches f) (audit_events d)))))"
  let ?r = "map (\<lambda>e. case ae_user_id e of
      Some uid \<Rightarrow> e\<lparr>ae_username := Some (resolve_username uid (build_user_map db (numeric_ids ?es)))\<rparr> | None \<Rightarrow> e) ?es"
  have "list_events env now db limit offset f d = Inr ?r"
    using assms by (simp add: list_events_def Let_def)
  moreover have "map content ?r = map content ?es" by (auto simp: content_def split: option.splits)
  ultimately show thesis by (rule that)
qed

lemma csv_header_plain: "map csv_escape_field csv_header = csv_header" "map csv_safe csv_header = csv_header" "csv_header \<noteq> []"
proof -
  have "(map csv_escape_field csv_header = csv_header) \<and>
       (map csv_safe csv_header = csv_header) \<and>
       (csv_header \<noteq> [])"
    by code_simp
  then show "map csv_escape_field csv_header = csv_header" "map csv_safe csv_header = csv_header" "csv_header \<noteq> []"
    by blast+
qed



section \<open>Paging and filters\<close>

text \<open>Consecutive pages list every matching event once, newest first.\<close>

lemma take_drop_pages:
  "0 < n \<Longrightarrow> length xs \<le> k * n \<Longrightarrow> concat (map (\<lambda>i. take n (drop (i * n) xs)) [0..<k]) = xs"
proof (induction k arbitrary: xs)
  case (Suc k)
  have "concat (map (\<lambda>i. take n (drop (i * n) xs)) [0..<Suc k]) =
      take n xs @ concat (map (\<lambda>i. take n (drop (i * n) (drop n xs))) [0..<k])"
    by (simp add: upt_conv_Cons map_Suc_upt [symmetric] comp_def add.commute del: upt_Suc)
  with Suc.IH [of "drop n xs"] Suc.prems show ?case by simp
qed simp

lemma pages_cover: "0 < n \<Longrightarrow> m \<le> (m + n - 1) div n * (n :: nat)"
proof -
  assume n: "0 < n"
  have "(m + n - 1) div n * n = m + n - 1 - (m + n - 1) mod n" by (simp add: minus_mod_eq_div_mult)
  moreover have "(m + n - 1) mod n < n" using n by simp
  ultimately show ?thesis by linarith
qed

text \<open>
  A page size of zero is taken from the request as it is and divides: the handler panics, for
  every log.
\<close>

lemma zero_limit_panics:
  "require_role identity ''admin'' = Inr a \<Longrightarrow> params ''limit'' = Some ''0'' \<Longrightarrow>
     audit_events_handler env now db identity params d = Panicked"
proof -
  have "parse_unsigned u64_max ''0'' = Some 0" by code_simp
  then show "require_role identity ''admin'' = Inr a \<Longrightarrow> params ''limit'' = Some ''0'' \<Longrightarrow> ?thesis"
    by (simp add: audit_events_handler_def number_param_def Let_def)
qed

text \<open>
  Times are compared as text. A time that ends in \<open>Z\<close> is after every fraction of its second, so that
  an event of that second is left out of a listing from it on.
\<close>

lemma filter_from_drops_later_event:
  "\<not> in_range (Some ''2026-01-01T00:00:00Z'') None
     \<lparr>ar_id = 1, ar_event_type = [], ar_timestamp = ''2026-01-01T00:00:00.500+00:00'', ar_user_id = None, ar_source_ip = None,
      ar_outcome = [], ar_details = None, ar_session_id = None, ar_prev_hash = [], ar_event_hash = []\<rparr>"
  by (simp add: in_range_def less_eq_char_def Char_ord.less_char_def)


definition matching :: "AuditEnv \<Rightarrow> DateTime \<Rightarrow> AuditFilters \<Rightarrow> AuditDb \<Rightarrow> AuditEvent list" where
  "matching env now f d = map (\<lambda>r. content (row_event env now r)) (rev (filter (filter_matches f) (audit_events d)))"

definition page_params :: "(string \<rightharpoonup> string) \<Rightarrow> nat \<Rightarrow> nat \<Rightarrow> string \<rightharpoonup> string" where
  "page_params params limit i = params(''limit'' \<mapsto> show_nat limit, ''offset'' \<mapsto> show_nat (i * limit))"

definition page_content :: "AuditPage Outcome \<Rightarrow> AuditEvent list" where
  "page_content r = (case r of Answer p \<Rightarrow> map content (ap_events p) | _ \<Rightarrow> [])"

lemma page_params_numbers:
  assumes "limit \<le> i64_max" "i * limit \<le> i64_max"
  shows "number_param (page_params params limit i) ''limit'' 50 = limit"
    "number_param (page_params params limit i) ''offset'' 0 = i * limit"
    "request_filters (page_params params limit i) = request_filters params"
  using assms
  by (simp_all add: number_param_def page_params_def parse_unsigned_show_nat u64_max_def i64_max_def request_filters_def)

lemma page_content_eq:
  assumes "require_role identity ''admin'' = Inr a" "0 < limit" "limit \<le> i64_max" "i * limit \<le> i64_max"
  shows "page_content (audit_events_handler env now db identity (page_params params limit i) d) =
     take limit (drop (i * limit) (matching env now (request_filters params) d))"
proof -
  let ?m = "take limit (drop (i * limit) (rev (filter (filter_matches (request_filters params)) (audit_events d))))"
  obtain es where es: "list_events env now db limit (i * limit) (request_filters params) d = Inr es"
    and c: "map content es = map content (map (row_event env now) ?m)"
    using list_events_Inr [OF assms(3,4)] by blast
  have "page_content (audit_events_handler env now db identity (page_params params limit i) d) = map content es"
    using assms es by (simp add: audit_events_handler_def page_content_def page_params_numbers Let_def)
  with c show ?thesis by (simp add: matching_def take_map drop_map comp_def)
qed


definition demo_ops :: "AuthIdentity option" where
  "demo_ops = Some (ApiKey ''ops'')"


lemma demo_ops_role: "require_role demo_ops ''admin'' = Inr (ApiKey ''ops'')"
  by code_simp

lemma demo_log_count: "count_events (request_filters Map.empty) demo_log = 3"
  by code_simp


end
