(* ===== verification/Ws_Proxy.thy ===== *)
theory Ws_Proxy
  imports Protocol Identity Text_Util "HOL-Library.AList"
begin

text \<open>
  The proxy between the browser and guacd (\<open>src/src/websocket.rs\<close>): the two loops that forward
  a connection, the filter of view-only connections, the record of file transfers for the audit
  log, and the checks of an upgrade request. The two loops run as tasks that share the sink to
  the browser and the table of transfers; a connection is a sequence of their steps in any
  order. Sockets deliver bytes and messages, which are the events of that sequence.
\<close>

section \<open>File transfers\<close>

datatype TransferDirection = BrowserToGuacd | GuacdToBrowser

datatype TransferKind = Upload | Download

record PendingTransfer =
  pt_kind :: TransferKind
  pt_filename :: string
  pt_mimetype :: string
  pt_size :: nat

record TransferAuditEvent =
  ta_kind :: TransferKind
  ta_filename :: string
  ta_mimetype :: string
  ta_size :: nat
  ta_error :: bool

definition trim_end :: "string \<Rightarrow> string" where
  "trim_end s = concat (rev (dropWhile is_whitespace (rev (chars s))))"

definition base64_blob_len :: "string \<Rightarrow> nat" where
  "base64_blob_len data =
     (let d = trim_end data;
          len = (if suffix ''=='' d then length d - 2 else if suffix ''='' d then length d - 1 else length d)
      in len * 3 div 4)"

definition MAX_PENDING_TRANSFERS :: nat where
  "MAX_PENDING_TRANSFERS = 4096"

type_synonym Pending = "(int \<times> PendingTransfer) list"

definition track_transfer :: "int \<Rightarrow> PendingTransfer \<Rightarrow> Pending \<Rightarrow> Pending" where
  "track_transfer idx t pending =
     (let room = (if map_of pending idx = None \<and> MAX_PENDING_TRANSFERS \<le> length pending
                  then (if pending = [] then pending else AList.delete (Min (fst ` set pending)) pending)
                  else pending)
      in AList.update idx t room)"

text \<open>The index in the first argument of an instruction.\<close>

definition first_index :: "Instruction \<Rightarrow> int option" where
  "first_index instr = (case args instr of [] \<Rightarrow> None | a # _ \<Rightarrow> parse_signed 64 a)"

definition stream_index_mimetype :: string where
  "stream_index_mimetype = ''application/vnd.glyptodon.guacamole.stream-index+json''"

definition finished :: "bool \<Rightarrow> PendingTransfer \<Rightarrow> TransferAuditEvent" where
  "finished err p = \<lparr>ta_kind = pt_kind p, ta_filename = pt_filename p, ta_mimetype = pt_mimetype p,
     ta_size = pt_size p, ta_error = err\<rparr>"

text \<open>The arms of \<open>sniff_transfer_instruction\<close>: the events it returns and the table after it.\<close>

type_synonym Sniffed = "TransferAuditEvent list \<times> Pending"

definition kind_matches :: "TransferDirection \<Rightarrow> PendingTransfer \<Rightarrow> bool" where
  "kind_matches direction p \<longleftrightarrow> (pt_kind p = Upload) = (direction = BrowserToGuacd)"

definition sniff_file :: "string list \<Rightarrow> TransferDirection \<Rightarrow> Pending \<Rightarrow> Sniffed" where
  "sniff_file as direction pending =
     ([], if 3 \<le> length as
          then (case parse_signed 64 (as ! 0) of
                  Some idx \<Rightarrow>
                    if 0 \<le> idx
                    then track_transfer idx
                           \<lparr>pt_kind = (case direction of BrowserToGuacd \<Rightarrow> Upload | GuacdToBrowser \<Rightarrow> Download),
                            pt_filename = as ! 2, pt_mimetype = as ! 1, pt_size = 0\<rparr> pending
                    else pending
                | None \<Rightarrow> pending)
          else pending)"

definition sniff_body :: "string list \<Rightarrow> TransferDirection \<Rightarrow> Pending \<Rightarrow> Sniffed" where
  "sniff_body as direction pending =
     ([], if direction = GuacdToBrowser \<and> 4 \<le> length as \<and> as ! 2 \<noteq> stream_index_mimetype
          then (case parse_signed 64 (as ! 1) of
                  Some idx \<Rightarrow>
                    if 0 \<le> idx
                    then track_transfer idx
                           \<lparr>pt_kind = Download, pt_filename = last (split_on CHR ''/'' (as ! 3)),
                            pt_mimetype = as ! 2, pt_size = 0\<rparr> pending
                    else pending
                | None \<Rightarrow> pending)
          else pending)"

definition sniff_blob :: "string list \<Rightarrow> TransferDirection \<Rightarrow> int \<Rightarrow> PendingTransfer \<Rightarrow> Pending \<Rightarrow> Sniffed" where
  "sniff_blob as direction idx p pending =
     ([], if kind_matches direction p \<and> 2 \<le> length as
          then AList.update idx (p\<lparr>pt_size := pt_size p + base64_blob_len (as ! 1)\<rparr>) pending
          else pending)"

definition sniff_end :: "TransferDirection \<Rightarrow> int \<Rightarrow> PendingTransfer \<Rightarrow> Pending \<Rightarrow> Sniffed" where
  "sniff_end direction idx p pending =
     (if kind_matches direction p then ([finished False p], AList.delete idx pending) else ([], pending))"

definition sniff_ack :: "string list \<Rightarrow> TransferDirection \<Rightarrow> int \<Rightarrow> PendingTransfer \<Rightarrow> Pending \<Rightarrow> Sniffed" where
  "sniff_ack as direction idx p pending =
     (if (pt_kind p = Upload) = (direction = GuacdToBrowser) \<and> (if 3 \<le> length as then as ! 2 else ''0'') \<noteq> ''0''
      then ([finished True p], AList.delete idx pending) else ([], pending))"

text \<open>The entry that the index in the first argument names, when there is one.\<close>

definition pending_entry :: "Instruction \<Rightarrow> Pending \<Rightarrow> (int \<times> PendingTransfer) option" where
  "pending_entry instr pending =
     (case first_index instr of
        None \<Rightarrow> None
      | Some idx \<Rightarrow> map_option (Pair idx) (map_of pending idx))"

definition sniff_transfer_instruction :: "Instruction \<Rightarrow> TransferDirection \<Rightarrow> Pending \<Rightarrow> Sniffed" where
  "sniff_transfer_instruction instr direction pending =
     (if opcode instr = ''file'' then sniff_file (args instr) direction pending
      else if opcode instr = ''body'' then sniff_body (args instr) direction pending
      else if opcode instr \<in> {''blob'', ''end'', ''ack''} then
        (case pending_entry instr pending of
           None \<Rightarrow> ([], pending)
         | Some (idx, p) \<Rightarrow>
             if opcode instr = ''blob'' then sniff_blob (args instr) direction idx p pending
             else if opcode instr = ''end'' then sniff_end direction idx p pending
             else sniff_ack (args instr) direction idx p pending)
      else ([], pending))"

section \<open>View-only connections\<close>

definition shadow_blocked_opcode :: "string \<Rightarrow> bool" where
  "shadow_blocked_opcode op =
     (op \<in> {''key'', ''mouse'', ''clipboard'', ''argv'', ''get'', ''file'', ''blob'', ''end'', ''body'', ''size'', ''ack''})"

definition filter_read_only_input :: "string \<Rightarrow> string" where
  "filter_read_only_input text =
     concat (map encode (filter (\<lambda>i. \<not> shadow_blocked_opcode (opcode i)) (oks (fst (receive parser_new text)))))"

section \<open>The two loops\<close>

definition MAX_GUACD_CARRY :: nat where
  "MAX_GUACD_CARRY = 16 * 1024 * 1024"

definition MAX_WS_MSG_SIZE :: nat where
  "MAX_WS_MSG_SIZE = 64 * 1024 * 1024"

text \<open>What is sent to the browser: a chunk of guacd's stream, or the echo of a ping.\<close>

datatype Sent = FromGuacd string | Echo string

datatype LoopState = Running | Finished "string option" | Aborted

datatype ProxyResult = GuacdEnded "string option" | BrowserEnded "string option" | Cancelled

text \<open>
  The state of one connection: the carry buffer of \<open>guacd_to_ws\<close>, what was sent to either
  side, the recording file, the shared flags and the shared table of transfers, the number of
  calls of \<open>update_activity\<close>, the state of the two tasks and the branch of \<open>select!\<close> taken.
\<close>

record Proxy =
  carry :: string
  to_browser :: "Sent list"
  to_guacd :: "string list"
  recording :: "string option"
  guacd_error :: "string option"
  server_disconnected :: bool
  transfers :: Pending
  audits :: "TransferAuditEvent list"
  activity :: nat
  guacd_loop :: LoopState
  browser_loop :: LoopState
  proxy_result :: "ProxyResult option"

definition proxy_new :: "bool \<Rightarrow> Proxy" where
  "proxy_new record_it = \<lparr>carry = [], to_browser = [], to_guacd = [], recording = (if record_it then Some [] else None),
     guacd_error = None, server_disconnected = False, transfers = [], audits = [], activity = 0,
     guacd_loop = Running, browser_loop = Running, proxy_result = None\<rparr>"

definition audit_transfer :: "TransferDirection \<Rightarrow> Instruction \<Rightarrow> Proxy \<Rightarrow> Proxy" where
  "audit_transfer direction instr st =
     (case sniff_transfer_instruction instr direction (transfers st) of
        (events, pending) \<Rightarrow> st\<lparr>transfers := pending, audits := audits st @ events\<rparr>)"

definition observe_guacd :: "Instruction \<Rightarrow> Proxy \<Rightarrow> Proxy" where
  "observe_guacd instr st =
     (if opcode instr = ''error''
      then st\<lparr>guacd_error := Some (case args instr of [] \<Rightarrow> ''unknown error'' | m # _ \<Rightarrow> m)\<rparr>
      else if opcode instr \<in> {''file'', ''blob'', ''ack'', ''end'', ''body''}
      then audit_transfer GuacdToBrowser instr st
      else st)"

text \<open>What the carry buffer releases: all up to its last boundary, or everything over the bound.\<close>

definition carry_cut :: "string \<Rightarrow> (string \<times> string) option" where
  "carry_cut c =
     (case last_instruction_boundary c of
        Some e \<Rightarrow> Some (take e c, drop e c)
      | None \<Rightarrow> if MAX_GUACD_CARRY < length c then Some (c, []) else None)"

text \<open>The released text: observed for errors, transfers and the disconnect, then sent.\<close>

definition observe_text :: "string \<Rightarrow> Proxy \<Rightarrow> Proxy" where
  "observe_text text st =
     (let st1 = fold observe_guacd (oks (fst (receive parser_new text))) st
      in if prefix ''10.disconnect;'' text \<or> contains text '';10.disconnect;''
         then st1\<lparr>server_disconnected := True\<rparr> else st1)"

text \<open>
  One turn of the loop of \<open>guacd_to_ws\<close> with the bytes it read. \<open>send_err\<close> is the error of the
  sink, when it has one; an error ends the loop. The table is locked once per instruction, and
  the two loops meet only there and at the sink, so that a turn is one step.
\<close>

definition guacd_chunk :: "string option \<Rightarrow> string \<Rightarrow> Proxy \<Rightarrow> Proxy" where
  "guacd_chunk send_err data st =
     (let st1 = st\<lparr>recording := map_option (\<lambda>r. r @ data) (recording st), carry := carry st @ data\<rparr>
      in case carry_cut (carry st @ data) of
           None \<Rightarrow> st1
         | Some (text, rest) \<Rightarrow>
             let st2 = st1\<lparr>carry := rest\<rparr>
             in if \<not> utf8_valid text then st2\<lparr>guacd_loop := Finished (Some ''invalid UTF-8 from guacd'')\<rparr>
                else let st3 = observe_text text st2
                     in (case send_err of
                           Some e \<Rightarrow> st3\<lparr>guacd_loop := Finished (Some e)\<rparr>
                         | None \<Rightarrow> st3\<lparr>to_browser := to_browser st3 @ [FromGuacd text]\<rparr>))"

datatype Message = TextMsg string | BinaryMsg string | CloseMsg | OtherMsg

text \<open>
  The browser's loop ends, and \<open>ws_to_guacd\<close> ends the side of guacd; \<open>up\<close> says whether guacd
  still takes the disconnect.
\<close>

definition send_disconnect_to_guacd :: "bool \<Rightarrow> Proxy \<Rightarrow> Proxy" where
  "send_disconnect_to_guacd up st =
     (if up then st\<lparr>to_guacd := to_guacd st @ [encode (instruction_new ''disconnect'' [])]\<rparr> else st)"

definition ws_to_guacd_end :: "bool \<Rightarrow> string option \<Rightarrow> Proxy \<Rightarrow> Proxy" where
  "ws_to_guacd_end up err st = (send_disconnect_to_guacd up st)\<lparr>browser_loop := Finished err\<rparr>"

text \<open>A text message that is not on the internal channel of the tunnel: filter, audit, forward.\<close>

definition forward_text :: "bool \<Rightarrow> string option \<Rightarrow> bool \<Rightarrow> string \<Rightarrow> Proxy \<Rightarrow> Proxy" where
  "forward_text read_only io_err up msg st =
     (let text = (if read_only then filter_read_only_input msg else msg)
      in if read_only \<and> text = [] then st
         else let st1 = (if contains text ''file,'' \<or> contains text ''blob,'' \<or> contains text ''ack,'' \<or> contains text ''end,''
                         then fold (audit_transfer BrowserToGuacd)
                                (filter (\<lambda>i. opcode i \<in> {''file'', ''blob'', ''ack'', ''end''}) (oks (fst (receive parser_new text)))) st
                         else st);
                  st2 = st1\<lparr>activity := activity st1 + 1\<rparr>
              in case io_err of
                   Some e \<Rightarrow> ws_to_guacd_end up (Some e) st2
                 | None \<Rightarrow> st2\<lparr>to_guacd := to_guacd st2 @ [text]\<rparr>)"

text \<open>One turn of the loop of \<open>ws_to_guacd_inner\<close>, and what follows the loop when it ends it.\<close>

definition browser_message :: "bool \<Rightarrow> string option \<Rightarrow> bool \<Rightarrow> Message \<Rightarrow> Proxy \<Rightarrow> Proxy" where
  "browser_message read_only io_err up msg st =
     (case msg of
        TextMsg text \<Rightarrow>
          if MAX_WS_MSG_SIZE < length text then ws_to_guacd_end up None st
          else (case (if prefix ''0.,'' text then parse (trim_end_char CHR '';'' text) else Inl Empty) of
                  Inr instr \<Rightarrow>
                    if opcode instr = []
                    then (if args instr \<noteq> [] \<and> hd (args instr) = ''ping''
                          then (case io_err of
                                  Some e \<Rightarrow> ws_to_guacd_end up (Some e) st
                                | None \<Rightarrow> st\<lparr>to_browser := to_browser st @ [Echo (encode (instruction_new [] (args instr)))]\<rparr>)
                          else st)
                    else forward_text read_only io_err up text st
                | Inl _ \<Rightarrow> forward_text read_only io_err up text st)
      | BinaryMsg data \<Rightarrow> if MAX_WS_MSG_SIZE < length data then ws_to_guacd_end up None st else st
      | CloseMsg \<Rightarrow> ws_to_guacd_end up None st
      | OtherMsg \<Rightarrow> st)"

section \<open>A connection\<close>

text \<open>
  What can happen next in \<open>proxy_ws_guacd\<close>: a read of guacd's socket with bytes, at the end or
  with an error; a message of the browser, the end of its messages or an error; a branch of
  \<open>select!\<close>; the aborts that follow it. A step of a task that has ended, or of a branch that
  is not ready, does nothing.
\<close>

datatype Arm = GuacdArm | BrowserArm | CancelArm

datatype ProxyEvent =
    GuacdRead "string option" string
  | GuacdStop "string option"
  | BrowserMsg "string option" bool Message
  | BrowserStop "string option" bool
  | Select Arm
  | Abort

definition select_arm :: "Arm \<Rightarrow> Proxy \<Rightarrow> ProxyResult option" where
  "select_arm arm st =
     (case arm of
        GuacdArm \<Rightarrow> (case guacd_loop st of Finished e \<Rightarrow> Some (GuacdEnded e) | _ \<Rightarrow> None)
      | BrowserArm \<Rightarrow> (case browser_loop st of Finished e \<Rightarrow> Some (BrowserEnded e) | _ \<Rightarrow> None)
      | CancelArm \<Rightarrow> Some Cancelled)"

definition abort_loop :: "LoopState \<Rightarrow> LoopState" where
  "abort_loop l = (if l = Running then Aborted else l)"

definition proxy_event :: "bool \<Rightarrow> ProxyEvent \<Rightarrow> Proxy \<Rightarrow> Proxy" where
  "proxy_event read_only ev st =
     (case ev of
        GuacdRead e data \<Rightarrow> if guacd_loop st = Running \<and> data \<noteq> [] then guacd_chunk e data st else st
      | GuacdStop e \<Rightarrow> if guacd_loop st = Running then st\<lparr>guacd_loop := Finished e\<rparr> else st
      | BrowserMsg e up msg \<Rightarrow> if browser_loop st = Running then browser_message read_only e up msg st else st
      | BrowserStop e up \<Rightarrow> if browser_loop st = Running then ws_to_guacd_end up e st else st
      | Select arm \<Rightarrow> if proxy_result st = None then st\<lparr>proxy_result := select_arm arm st\<rparr> else st
      | Abort \<Rightarrow>
          if proxy_result st = None then st
          else st\<lparr>guacd_loop := abort_loop (guacd_loop st), browser_loop := abort_loop (browser_loop st)\<rparr>)"

definition proxy_ws_guacd :: "bool \<Rightarrow> bool \<Rightarrow> ProxyEvent list \<Rightarrow> Proxy" where
  "proxy_ws_guacd read_only record_it evs = fold (proxy_event read_only) evs (proxy_new record_it)"

text \<open>
  What the sockets can deliver: a read fills at most the buffer of 64 KiB, and a text message is
  valid UTF-8.
\<close>

definition event_ok :: "ProxyEvent \<Rightarrow> bool" where
  "event_ok ev = (case ev of
       GuacdRead _ data \<Rightarrow> length data \<le> 65536
     | BrowserMsg _ _ (TextMsg text) \<Rightarrow> utf8_valid text
     | _ \<Rightarrow> True)"

section \<open>What guacd reads\<close>

text \<open>
  The stream of guacd's side read by the lengths of its elements, the way guacd reads it: the
  instructions, or \<open>None\<close> when the stream is not made of whole instructions.
\<close>

definition element_text :: "string \<Rightarrow> string" where
  "element_text e = tl (dropWhile is_ascii_digit e)"

function read_wire :: "string list \<Rightarrow> string \<Rightarrow> Instruction list option" where
  "read_wire acc s =
     (if s = [] then (if acc = [] then Some [] else None)
      else case scan_element s of
             None \<Rightarrow> None
           | Some (k, c, r) \<Rightarrow>
               let es = acc @ [element_text (take k s)]
               in if c = CHR '','' then read_wire es r
                  else map_option (Cons \<lparr>opcode = hd es, args = tl es\<rparr>) (read_wire [] r))"
  by pat_completeness auto
termination
  by (relation "measure (\<lambda>(_, s). length s)") (auto dest: scan_element_length)

declare read_wire.simps [simp del]

lemma read_wire_Nil [simp]: "read_wire [] [] = Some []"
  by (subst read_wire.simps) simp

lemma wire_element_encode':
  "wf_element e \<Longrightarrow> wire_element (encode_element e) \<and> element_text (encode_element e) = e"
proof -
  assume "wf_element e"
  moreover have "dropWhile is_ascii_digit (show_nat (length (chars e)) @ ''.'' @ e) = ''.'' @ e"
    using show_nat_digits [of "length (chars e)"]
    by (simp add: list_all_iff dropWhile_append2 is_ascii_digit_def byte_simps)
  ultimately show ?thesis using wire_element_encode [of e] by (simp add: element_text_def encode_element_def)
qed

lemma read_wire_element:
  assumes "wf_element e" "c = CHR '','' \<or> c = CHR '';''"
  shows "read_wire acc (encode_element e @ c # r) =
     (if c = CHR '','' then read_wire (acc @ [e]) r
      else map_option (Cons \<lparr>opcode = hd (acc @ [e]), args = tl (acc @ [e])\<rparr>) (read_wire [] r))"
  using scan_element_wire [of "encode_element e" c r] wire_element_encode' [OF assms(1)] assms(2)
  by (subst read_wire.simps) (auto simp: Let_def)

lemma read_wire_elements:
  assumes "list_all wf_element es" "es \<noteq> []"
  shows "read_wire acc (join '','' (map encode_element es) @ '';'' @ r) =
     map_option (Cons \<lparr>opcode = hd (acc @ es), args = tl (acc @ es)\<rparr>) (read_wire [] r)"
  using assms
proof (induction es arbitrary: acc)
  case (Cons e es)
  show ?case
  proof (cases es)
    case Nil
    with Cons.prems show ?thesis using read_wire_element [of e "CHR '';''" acc r] by simp
  next
    case (Cons e' es')
    with Cons.prems Cons.IH [of "acc @ [e]"] show ?thesis
      using read_wire_element [of e "CHR '',''" acc "join '','' (map encode_element es) @ '';'' @ r"]
      by (simp add: join_Cons)
  qed
qed simp

text \<open>Encoded instructions are read back, whatever their elements hold.\<close>

lemma read_wire_encode:
  "list_all wf_instruction is \<Longrightarrow> read_wire [] (concat (map encode is)) = Some is"
proof (induction "is")
  case (Cons i "is")
  then have "list_all wf_element (elements i)" by (simp add: wf_instruction_def)
  from read_wire_elements [OF this, of "[]"] Cons show ?case
    by (simp add: encode_elements elements_def)
qed simp

section \<open>What the parser returns is well formed\<close>

lemma take_chars_valid:
  assumes "take_chars n s = Some (e, r)" "utf8_valid s"
  shows "utf8_valid e \<and> length (chars e) = n \<and> utf8_valid r"
proof -
  from assms(1) have n: "n \<le> length (chars s)" and e: "e = concat (take n (chars s))" and r: "r = concat (drop n (chars s))"
    by (auto simp: take_chars_chars split: if_splits)
  have v: "list_all utf8_char (take n (chars s))" "list_all utf8_char (drop n (chars s))"
    using assms(2) by (auto simp: utf8_valid_def list_all_iff dest: in_set_takeD in_set_dropD)
  with n show ?thesis using chars_concat [OF v(1), of "[]"] by (simp add: e r utf8_valid_concat)
qed

lemma parse_elements_valid:
  "parse_elements s = Inr es \<Longrightarrow> utf8_valid s \<Longrightarrow> list_all wf_element es"
proof (induction s arbitrary: es rule: parse_elements.induct)
  case (1 s)
  from 1(2) obtain pre rest len e rest' where sp: "split_once (CHR ''.'') s = Some (pre, rest)"
    and len: "parse_unsigned usize_max pre = Some len" and tk: "take_chars len rest = Some (e, rest')"
    and es: "(case rest' of [] \<Rightarrow> Inr [e]
        | c # rest'' \<Rightarrow> if c = CHR '','' then (case parse_elements rest'' of Inl x \<Rightarrow> Inl x | Inr es \<Rightarrow> Inr (e # es))
            else Inl UnexpectedChar) = (Inr es :: (string list, ParseError) result)"
    by (subst (asm) parse_elements.simps) (auto split: option.splits prod.splits)
  from split_once_SomeD [OF sp] have "utf8_valid rest"
    using utf8_valid_split_ascii [of pre "CHR ''.''" rest] 1(3) by (simp add: byte_simps)
  from take_chars_valid [OF tk this] parse_unsigned_le [OF len] have e: "wf_element e" and r: "utf8_valid rest'"
    by (simp_all add: wf_element_def)
  show ?case
  proof (cases rest')
    case Nil
    with es e show ?thesis by auto
  next
    case (Cons c rest'')
    with es obtain es' where c: "c = CHR '',''" and rec: "parse_elements rest'' = Inr es'" and eq: "es = e # es'"
      by (auto split: if_splits sum.splits)
    have "utf8_valid rest''" using r Cons c utf8_valid_Cons_ascii [of c rest''] by (simp add: byte_simps)
    from 1(1) [OF sp refl len tk refl Cons c rec this] e eq show ?thesis by simp
  qed
qed

lemma utf8_valid_trim:
  assumes "utf8_valid s"
  shows "utf8_valid (trim_end_char (CHR '';'') s)"
proof -
  let ?t = "trim_end_char (CHR '';'') s"
  obtain n where n: "s = ?t @ replicate n (CHR '';'')" using trim_end_char_decomp by blast
  show ?thesis
  proof (cases n)
    case 0
    with n assms show ?thesis by simp
  next
    case (Suc m)
    with n assms show ?thesis
      using utf8_valid_split_ascii [of ?t "CHR '';''" "replicate m (CHR '';'')"] by (simp add: byte_simps)
  qed
qed

lemma parse_valid: "parse s = Inr i \<Longrightarrow> utf8_valid s \<Longrightarrow> wf_instruction i"
  using utf8_valid_trim [of s]
  by (auto simp: parse_def Let_def wf_instruction_def elements_def split: if_splits sum.splits list.splits
      dest!: parse_elements_valid)

lemma receive_loop_valid: "i \<in> set (oks (fst (receive_loop s))) \<Longrightarrow> wf_instruction i"
proof (induction s rule: receive_loop.induct)
  case (1 s)
  show ?case
  proof (cases "split_once (CHR '';'') s")
    case None
    with 1(2) show ?thesis by (subst (asm) receive_loop.simps) simp
  next
    case (Some p)
    obtain f r where p: "p = (f, r)" by (cases p)
    with Some have s: "s = f @ CHR '';'' # r" "CHR '';'' \<notin> set f" by (auto dest: split_once_SomeD)
    have "Inr i = decode_frame f \<or> i \<in> set (oks (fst (receive_loop r)))"
      using 1(2) unfolding s(1) receive_loop_frame [OF s(2)] by (auto simp: in_set_oks)
    then show ?thesis
    proof
      assume "Inr i = decode_frame f"
      then show ?thesis using parse_valid [of f i] by (auto simp: decode_frame_def split: if_splits)
    next
      assume "i \<in> set (oks (fst (receive_loop r)))"
      with 1(1) [OF Some p [symmetric] refl] show ?thesis by simp
    qed
  qed
qed

lemma receive_valid: "i \<in> set (oks (fst (receive parser_new s))) \<Longrightarrow> wf_instruction i"
  by (cases "length s \<le> MAX_PROTOCOL_BUFFER_LEN")
    (auto simp: receive_eq receive_overflow parser_new_def dest: receive_loop_valid)


section \<open>The stream to the browser\<close>

lemma wire_stream_append: "wire_stream s \<Longrightarrow> wire_stream t \<Longrightarrow> wire_stream (s @ t)"
  by (induction rule: wire_stream.induct) (auto intro: wire_stream.instr)

lemma last_boundary_cases:
  obtains (cut) e where "last_instruction_boundary s = Some e" "is_boundary s e" "\<And>j. \<not> is_boundary (drop e s) j"
  | (none) "last_instruction_boundary s = None" "\<And>j. \<not> is_boundary s j"
proof -
  have "scan_result 0 None s (last_instruction_boundary s)"
    using full_scan_result [of 0 None s] last_instruction_boundary_full_scan [of s] by simp
  then consider k where "is_boundary s k" "\<forall>j. is_boundary s j \<longrightarrow> j \<le> k" "last_instruction_boundary s = Some k"
    | "\<forall>j. \<not> is_boundary s j" "last_instruction_boundary s = None"
    by (auto simp: scan_result_def)
  then show thesis
  proof cases
    case (1 k)
    have "\<not> is_boundary (drop k s) j" for j
    proof
      assume b: "is_boundary (drop k s) j"
      with 1(1) have "wire_stream (take k s @ take j (drop k s))"
        by (auto simp: is_boundary_def intro: wire_stream_append)
      then have "wire_stream (take (k + j) s)" by (simp add: take_add)
      with b 1(1) have "is_boundary s (k + j)" by (auto simp: is_boundary_def)
      with 1(2) have "k + j \<le> k" by blast
      with b show False by (simp add: is_boundary_def)
    qed
    with 1 cut show thesis by blast
  qed (use none in blast)
qed

definition delivered :: "Proxy \<Rightarrow> string" where
  "delivered st = concat (map (\<lambda>m. case m of FromGuacd t \<Rightarrow> t | Echo _ \<Rightarrow> []) (to_browser st))"

text \<open>
  A message to the browser is made of whole instructions. The exception is the flush of a
  buffer over its bound.
\<close>

definition sent_ok :: "Sent \<Rightarrow> bool" where
  "sent_ok m = (case m of
       FromGuacd t \<Rightarrow> utf8_valid t \<and> (wire_stream t \<or> MAX_GUACD_CARRY < length t \<and> (\<forall>k. \<not> is_boundary t k))
     | Echo t \<Rightarrow> wire_stream t)"

definition stream_inv :: "Proxy \<Rightarrow> bool" where
  "stream_inv st \<longleftrightarrow>
     (\<forall>rec. recording st = Some rec \<longrightarrow>
        prefix (delivered st) rec \<and> ((\<forall>e. guacd_loop st \<noteq> Finished e) \<longrightarrow> rec = delivered st @ carry st)) \<and>
     list_all sent_ok (to_browser st) \<and>
     (\<forall>k. \<not> is_boundary (carry st) k) \<and> ((\<forall>e. guacd_loop st \<noteq> Finished e) \<longrightarrow> length (carry st) \<le> MAX_GUACD_CARRY)"

text \<open>Observing an instruction touches the table, the log and the error only.\<close>

definition same_stream :: "Proxy \<Rightarrow> Proxy \<Rightarrow> bool" where
  "same_stream a b \<longleftrightarrow> carry a = carry b \<and> to_browser a = to_browser b \<and> to_guacd a = to_guacd b \<and> recording a = recording b \<and>
     guacd_loop a = guacd_loop b \<and> browser_loop a = browser_loop b \<and> proxy_result a = proxy_result b"

lemma same_stream_refl [simp]: "same_stream a a"
  by (simp add: same_stream_def)

lemma same_stream_observe: "same_stream (observe_guacd i st) st" "same_stream (audit_transfer d i st) st"
  by (auto simp: same_stream_def observe_guacd_def audit_transfer_def split: prod.splits)

lemma same_stream_fold:
  assumes "\<And>x st. same_stream (f x st) st"
  shows "same_stream (fold f xs st) st"
proof (induction xs arbitrary: st)
  case (Cons x xs)
  from Cons [of "f x st"] assms [of x st] show ?case by (simp add: same_stream_def)
qed simp


lemma same_stream_observe_text [simp]:
  "carry (observe_text t st) = carry st" "to_browser (observe_text t st) = to_browser st"
  "to_guacd (observe_text t st) = to_guacd st" "recording (observe_text t st) = recording st"
  "guacd_loop (observe_text t st) = guacd_loop st" "browser_loop (observe_text t st) = browser_loop st"
  "proxy_result (observe_text t st) = proxy_result st"
  using same_stream_fold [of observe_guacd "oks (fst (receive parser_new t))" st, OF same_stream_observe(1)]
  by (simp_all add: observe_text_def Let_def same_stream_def)

lemma carry_cut_None:
  assumes "carry_cut c = None"
  shows "\<not> is_boundary c k \<and> length c \<le> MAX_GUACD_CARRY"
  using assms by (cases rule: last_boundary_cases [of c]) (auto simp: carry_cut_def split: if_splits)

lemma carry_cut_Some:
  assumes "carry_cut c = Some (t, r)"
  shows "c = t @ r \<and> \<not> is_boundary r k \<and> (wire_stream t \<and> is_boundary c (length t) \<or> MAX_GUACD_CARRY < length t \<and> (\<forall>k. \<not> is_boundary t k) \<and> r = [])"
  using assms by (cases rule: last_boundary_cases [of c]) (auto simp: carry_cut_def is_boundary_def split: if_splits)


lemma delivered_snoc [simp]:
  "delivered (st\<lparr>to_browser := to_browser st' @ [FromGuacd t]\<rparr>) = delivered st' @ t"
  "delivered (st\<lparr>to_browser := to_browser st' @ [Echo t]\<rparr>) = delivered st'"
  by (simp_all add: delivered_def)

lemma delivered_cong: "to_browser a = to_browser b \<Longrightarrow> delivered a = delivered b"
  by (simp add: delivered_def)

lemma stream_inv_cong:
  assumes "same_stream a b"
  shows "stream_inv a \<longleftrightarrow> stream_inv b"
  using assms delivered_cong [of a b] by (simp add: stream_inv_def same_stream_def)

lemma stream_inv_new: "stream_inv (proxy_new r)"
  by (auto simp: stream_inv_def proxy_new_def delivered_def is_boundary_def)

lemma not_boundary_prefix: "is_boundary (s @ t) k \<Longrightarrow> \<not> is_boundary s k \<Longrightarrow> length s < k"
  by (rule ccontr) (auto simp: is_boundary_def)

lemma stream_inv_guacd_chunk:
  assumes inv: "stream_inv st" and run: "guacd_loop st = Running" and len: "length data \<le> 65536"
  shows "stream_inv (guacd_chunk err data st)"
proof -
  let ?c = "carry st @ data"
  from inv run have rc: "recording st = Some x \<Longrightarrow> x = delivered st @ carry st" for x
    by (simp add: stream_inv_def)
  from inv have ok: "list_all sent_ok (to_browser st)" and nb: "\<And>k. \<not> is_boundary (carry st) k"
    by (simp_all add: stream_inv_def)
  show ?thesis
  proof (cases "carry_cut ?c")
    case None
    with rc ok carry_cut_None [OF None] run show ?thesis
      by (auto simp: guacd_chunk_def stream_inv_def delivered_def)
  next
    case (Some p)
    obtain t r where p: "p = (t, r)" by (cases p)
    note cut = carry_cut_Some [OF Some [unfolded p]]
    then have c: "?c = t @ r" and nr: "\<And>k. \<not> is_boundary r k" by blast+
    have pre: "prefix (delivered st) (x @ data)" and all: "x @ data = (delivered st @ t) @ r" if "recording st = Some x" for x
      using rc [OF that] c by simp_all
    have "is_boundary ?c (length t) \<or> r = []" using cut by blast
    then have "length r \<le> length data"
      using not_boundary_prefix [of "carry st" data "length t"] nb arg_cong [OF c, of length] by auto
    then have rl: "length r \<le> MAX_GUACD_CARRY" using len by (simp add: MAX_GUACD_CARRY_def)
    have t: "sent_ok (FromGuacd t)" if "utf8_valid t"
      using cut that unfolding sent_ok_def by auto
    show ?thesis
    proof (cases "utf8_valid t \<and> err = None")
      case True
      with Some p ok t nr rl all run show ?thesis
        by (auto simp: guacd_chunk_def Let_def stream_inv_def)
    next
      case False
      with Some p ok nr pre show ?thesis
        by (auto simp: guacd_chunk_def Let_def stream_inv_def delivered_def)
    qed
  qed
qed

lemma same_stream_audit [simp]:
  "carry (fold (audit_transfer d) is st) = carry st" "to_browser (fold (audit_transfer d) is st) = to_browser st"
  "to_guacd (fold (audit_transfer d) is st) = to_guacd st" "recording (fold (audit_transfer d) is st) = recording st"
  "guacd_loop (fold (audit_transfer d) is st) = guacd_loop st" "browser_loop (fold (audit_transfer d) is st) = browser_loop st"
  "proxy_result (fold (audit_transfer d) is st) = proxy_result st"
  using same_stream_fold [of "audit_transfer d" "is" st, OF same_stream_observe(2)] by (simp_all add: same_stream_def)

text \<open>The browser's loop adds at most an echo to what the other loop sends.\<close>

lemma forward_text_stream [simp]:
  "carry (forward_text ro err up t st) = carry st" "recording (forward_text ro err up t st) = recording st"
  "guacd_loop (forward_text ro err up t st) = guacd_loop st" "to_browser (forward_text ro err up t st) = to_browser st"
  by (simp_all add: forward_text_def Let_def ws_to_guacd_end_def send_disconnect_to_guacd_def split: option.splits)

lemma ws_to_guacd_end_stream [simp]:
  "carry (ws_to_guacd_end up err st) = carry st" "recording (ws_to_guacd_end up err st) = recording st"
  "guacd_loop (ws_to_guacd_end up err st) = guacd_loop st" "to_browser (ws_to_guacd_end up err st) = to_browser st"
  by (simp_all add: ws_to_guacd_end_def send_disconnect_to_guacd_def)

text \<open>The branches of a turn: the loop goes on, ends, echoes a ping or forwards a message.\<close>

lemma browser_message_cases:
  obtains (skip) "browser_message ro err up msg st = st"
  | (stop) e where "browser_message ro err up msg st = ws_to_guacd_end up e st"
  | (echo) t i where "msg = TextMsg t" "parse (trim_end_char CHR '';'' t) = Inr i" "opcode i = []"
      "browser_message ro err up msg st = st\<lparr>to_browser := to_browser st @ [Echo (encode i)]\<rparr>"
  | (forward) t where "msg = TextMsg t" "browser_message ro err up msg st = forward_text ro err up t st"
proof (cases msg)
  case (TextMsg t)
  show thesis
  proof (cases "MAX_WS_MSG_SIZE < length t")
    case True
    then show thesis using stop TextMsg by (simp add: browser_message_def)
  next
    case False
    show thesis
    proof (cases "if prefix ''0.,'' t then parse (trim_end_char CHR '';'' t) else Inl Empty")
      case (Inl e)
      then show thesis using forward [OF TextMsg] TextMsg False by (simp add: browser_message_def)
    next
      case (Inr i)
      then have p: "parse (trim_end_char CHR '';'' t) = Inr i" by (simp split: if_splits)
      have i: "instruction_new [] (args i) = i" if "opcode i = []"
        using that by (cases i) (simp add: instruction_new_def)
      have eq: "browser_message ro err up msg st =
          (if opcode i = []
           then (if args i \<noteq> [] \<and> hd (args i) = ''ping''
                 then (case err of Some e \<Rightarrow> ws_to_guacd_end up (Some e) st
                       | None \<Rightarrow> st\<lparr>to_browser := to_browser st @ [Echo (encode (instruction_new [] (args i)))]\<rparr>)
                 else st)
           else forward_text ro err up t st)"
        unfolding browser_message_def TextMsg Message.case if_not_P [OF False] Inr sum.case ..
      consider "opcode i \<noteq> []" | "opcode i = []" "\<not> (args i \<noteq> [] \<and> hd (args i) = ''ping'')"
        | e where "opcode i = []" "args i \<noteq> [] \<and> hd (args i) = ''ping''" "err = Some e"
        | "opcode i = []" "args i \<noteq> [] \<and> hd (args i) = ''ping''" "err = None"
        by (cases err) auto
      then show thesis
      proof cases
        case 1 with eq show thesis using forward [OF TextMsg] by simp
      next
        case 2 with eq show thesis using skip by simp
      next
        case 3 with eq show thesis using stop by simp
      next
        case 4 with eq i show thesis using echo [OF TextMsg p] by simp
      qed
    qed
  qed
next
  case (BinaryMsg d)
  then show thesis using skip stop by (cases "MAX_WS_MSG_SIZE < length d") (simp_all add: browser_message_def)
qed (use skip stop in \<open>simp_all add: browser_message_def\<close>)

lemma browser_message_stream:
  assumes "event_ok (BrowserMsg err up msg)"
  shows "carry (browser_message ro err up msg st) = carry st \<and> recording (browser_message ro err up msg st) = recording st \<and>
     guacd_loop (browser_message ro err up msg st) = guacd_loop st \<and>
     (to_browser (browser_message ro err up msg st) = to_browser st \<or>
      (\<exists>t. wire_stream t \<and> to_browser (browser_message ro err up msg st) = to_browser st @ [Echo t]))"
proof (cases rule: browser_message_cases [of ro err up msg st])
  case (echo t i)
  then have "wf_instruction i"
    using assms parse_valid utf8_valid_trim by (auto simp: event_ok_def)
  then have "wire_stream (encode i)" using wire_stream_encode [of "[i]"] by simp
  with echo show ?thesis by auto
qed simp_all

lemma stream_inv_event:
  assumes "stream_inv st" "event_ok ev"
  shows "stream_inv (proxy_event ro ev st)"
proof (cases ev)
  case (GuacdRead e data)
  with assms stream_inv_guacd_chunk show ?thesis by (auto simp: proxy_event_def event_ok_def)
next
  case (BrowserMsg e up msg)
  have "stream_inv (browser_message ro e up msg st)"
    using browser_message_stream [OF assms(2) [unfolded BrowserMsg], of ro st] assms(1)
    by (auto simp: stream_inv_def delivered_def sent_ok_def)
  with BrowserMsg assms(1) show ?thesis by (simp add: proxy_event_def)
qed (use assms(1) in \<open>auto simp: proxy_event_def stream_inv_def delivered_def abort_loop_def\<close>)

lemma stream_inv_run: "list_all event_ok evs \<Longrightarrow> stream_inv st \<Longrightarrow> stream_inv (fold (proxy_event ro) evs st)"
  by (induction evs arbitrary: st) (auto intro: stream_inv_event)


lemma recording_kept: "recording (proxy_event ro ev st) = None \<longleftrightarrow> recording st = None"
proof (cases ev)
  case (BrowserMsg e up msg)
  then show ?thesis
    by (cases rule: browser_message_cases [of ro e up msg st]) (simp_all add: proxy_event_def)
qed (auto simp: proxy_event_def guacd_chunk_def Let_def split: option.splits)



definition demo_events :: "ProxyEvent list" where
  "demo_events = [GuacdRead None ''4.sync,1.1;4.na'', BrowserMsg None True (TextMsg ''0.,4.ping,1.7;''),
     GuacdRead None ''me;3.'']"

lemma demo_events_run:
  "recording (proxy_ws_guacd False True demo_events) = Some ''4.sync,1.1;4.name;3.''"
  "to_browser (proxy_ws_guacd False True demo_events) =
     [FromGuacd ''4.sync,1.1;'', Echo ''0.,4.ping,1.7;'', FromGuacd ''4.name;'']"
  "guacd_loop (proxy_ws_guacd False True demo_events) = Running" "list_all event_ok demo_events"
proof -
  have "(recording (proxy_ws_guacd False True demo_events) = Some ''4.sync,1.1;4.name;3.'') \<and>
       (to_browser (proxy_ws_guacd False True demo_events) =
     [FromGuacd ''4.sync,1.1;'', Echo ''0.,4.ping,1.7;'', FromGuacd ''4.name;'']) \<and>
       (guacd_loop (proxy_ws_guacd False True demo_events) = Running) \<and>
       (list_all event_ok demo_events)"
    by code_simp
  then show "recording (proxy_ws_guacd False True demo_events) = Some ''4.sync,1.1;4.name;3.''" "to_browser (proxy_ws_guacd False True demo_events) =
     [FromGuacd ''4.sync,1.1;'', Echo ''0.,4.ping,1.7;'', FromGuacd ''4.name;'']" "guacd_loop (proxy_ws_guacd False True demo_events) = Running" "list_all event_ok demo_events"
    by blast+
qed


section \<open>View-only connections send no input\<close>

text \<open>What a view-only connection has written: whole instructions, none of them blocked.\<close>

definition input_free :: "string \<Rightarrow> bool" where
  "input_free s \<longleftrightarrow> (\<exists>is. s = concat (map encode is) \<and> list_all wf_instruction is \<and>
     list_all (\<lambda>i. \<not> shadow_blocked_opcode (opcode i)) is)"

lemma input_free_Nil [simp]: "input_free []"
  by (auto simp: input_free_def intro: exI [of _ "[]"])

lemma input_free_append: "input_free s \<Longrightarrow> input_free t \<Longrightarrow> input_free (s @ t)"
  unfolding input_free_def by (metis concat_append list_all_append map_append)

lemma input_free_filtered: "input_free (filter_read_only_input text)"
  unfolding input_free_def filter_read_only_input_def
  by (rule exI [of _ "filter (\<lambda>i. \<not> shadow_blocked_opcode (opcode i)) (oks (fst (receive parser_new text)))"])
    (auto simp: list_all_iff dest: receive_valid)

lemma input_free_disconnect: "input_free (encode (instruction_new ''disconnect'' []))"
proof -
  have "(utf8_valid ''disconnect'') \<and>
       (length (chars ''disconnect'') = 10)"
    by code_simp
  then have "wf_instruction (instruction_new ''disconnect'' [])"
    by (simp add: wf_instruction_def elements_def instruction_new_def wf_element_def usize_max_def)
  then show ?thesis
    unfolding input_free_def
    by (intro exI [of _ "[instruction_new ''disconnect'' []]"]) (simp add: instruction_new_def shadow_blocked_opcode_def)
qed

lemma forward_text_input_free:
  "input_free (concat (to_guacd st)) \<Longrightarrow> input_free (concat (to_guacd (forward_text True err up t st)))"
  by (auto simp: forward_text_def Let_def ws_to_guacd_end_def send_disconnect_to_guacd_def
      input_free_append input_free_filtered input_free_disconnect split: option.splits)

lemma event_input_free:
  assumes "input_free (concat (to_guacd st))"
  shows "input_free (concat (to_guacd (proxy_event True ev st)))"
proof (cases ev)
  case (BrowserMsg e up msg)
  have "input_free (concat (to_guacd (browser_message True e up msg st)))"
    by (cases rule: browser_message_cases [of True e up msg st])
      (use assms in \<open>simp_all add: forward_text_input_free ws_to_guacd_end_def send_disconnect_to_guacd_def
        input_free_append input_free_disconnect\<close>)
  with BrowserMsg assms show ?thesis by (simp add: proxy_event_def)
qed (use assms in \<open>auto simp: proxy_event_def guacd_chunk_def Let_def ws_to_guacd_end_def send_disconnect_to_guacd_def
      input_free_append input_free_disconnect split: option.splits\<close>)

lemma input_free_read:
  assumes "input_free s"
  shows "\<exists>is. read_wire [] s = Some is \<and> list_all (\<lambda>i. \<not> shadow_blocked_opcode (opcode i)) is"
  using assms read_wire_encode by (auto simp: input_free_def)

lemma shadow_run_filtered:
  "\<exists>is. read_wire [] (concat (to_guacd (proxy_ws_guacd True record_it evs))) = Some is \<and>
     list_all (\<lambda>i. \<not> shadow_blocked_opcode (opcode i)) is"
proof -
  have "input_free (concat (to_guacd (fold (proxy_event True) evs st)))" if "input_free (concat (to_guacd st))" for st
    using that by (induction evs arbitrary: st) (simp_all add: event_input_free)
  from this [of "proxy_new record_it"] show ?thesis
    unfolding proxy_ws_guacd_def by (intro input_free_read) (simp add: proxy_new_def)
qed

text \<open>
  Whatever a view-only browser sends, cut and interleaved in any way with the rest of
  the connection, the bytes guacd gets on that connection read, by the lengths of the elements, as
  whole instructions of which none is a key, mouse, clipboard, argv, size or transfer instruction.
\<close>

theorem shadow_input_filtered:
  "\<exists>is. read_wire [] (concat (to_guacd (proxy_ws_guacd True record_it evs))) = Some is \<and>
     list_all (\<lambda>i. opcode i \<notin> {''key'', ''mouse'', ''clipboard'', ''argv'', ''get'', ''file'', ''blob'', ''end'', ''body'',
       ''size'', ''ack''}) is"
  using shadow_run_filtered unfolding shadow_blocked_opcode_def .

end
