(* ===== verification/Ws_Transfers.thy ===== *)
theory Ws_Transfers
  imports Ws_Proxy
begin

text \<open>
  The record of file transfers of \<^verbatim>\<open>src/src/websocket.rs\<close>: the table of pending transfers is
  bounded, and a transfer is logged once, with the number of bytes it carried.
\<close>

section \<open>File transfers are audited with their size\<close>

text \<open>Standard base64 with padding, as guacd and the client write their blobs.\<close>

definition base64_alphabet :: string where
  "base64_alphabet = ''ABCDEFGHIJKLMNOPQRSTUVWXYZabcdefghijklmnopqrstuvwxyz0123456789+/''"

definition sextet :: "nat \<Rightarrow> char" where
  "sextet n = base64_alphabet ! (n mod 64)"

fun base64 :: "string \<Rightarrow> string" where
  "base64 [] = []"
| "base64 [a] = [sextet (byte a div 4), sextet (byte a mod 4 * 16), CHR ''='', CHR ''='']"
| "base64 [a, b] = [sextet (byte a div 4), sextet (byte a mod 4 * 16 + byte b div 16), sextet (byte b mod 16 * 4), CHR ''='']"
| "base64 (a # b # c # r) =
     [sextet (byte a div 4), sextet (byte a mod 4 * 16 + byte b div 16), sextet (byte b mod 16 * 4 + byte c div 64),
      sextet (byte c mod 64)] @ base64 r"

lemma sextet_in: "sextet n \<in> set base64_alphabet"
proof -
  have "length base64_alphabet = 64" by code_simp
  then show ?thesis by (simp add: sextet_def)
qed

lemma base64_shape:
  "\<exists>body pad. base64 bs = body @ pad \<and> set body \<subseteq> set base64_alphabet \<and> pad \<in> {[], ''='', ''==''} \<and>
     length body * 3 div 4 = length bs"
proof (induction bs rule: base64.induct)
  case (2 a)
  show ?case by (rule exI [of _ "take 2 (base64 [a])"], rule exI [of _ "''==''"]) (simp add: sextet_in)
next
  case (3 a b)
  show ?case by (rule exI [of _ "take 3 (base64 [a, b])"], rule exI [of _ "''=''"]) (simp add: sextet_in)
next
  case (4 a b c r)
  then obtain body pad where r: "base64 r = body @ pad" "set body \<subseteq> set base64_alphabet" "pad \<in> {[], ''='', ''==''}"
    "length body * 3 div 4 = length r" by blast
  show ?case
    by (rule exI [of _ "take 4 (base64 (a # b # c # r)) @ body"], rule exI [of _ pad])
      (use r in \<open>auto simp: sextet_in\<close>)
qed simp

lemma alphabet_chars: "c \<in> set base64_alphabet \<Longrightarrow> byte c < 128 \<and> c \<noteq> CHR ''='' \<and> \<not> is_whitespace [c]"
proof -
  have "list_all (\<lambda>c. byte c < 128 \<and> c \<noteq> CHR ''='' \<and> \<not> is_whitespace [c]) base64_alphabet" by code_simp
  then show "c \<in> set base64_alphabet \<Longrightarrow> ?thesis" by (simp add: list_all_iff)
qed

lemma trim_end_ascii:
  assumes "is_ascii s" "s = [] \<or> \<not> is_whitespace [last s]"
  shows "trim_end s = s"
proof -
  have "dropWhile is_whitespace (rev (map (\<lambda>c. [c]) s)) = rev (map (\<lambda>c. [c]) s)"
    using assms(2) by (intro dropWhile_none) (auto simp: hd_rev last_map)
  then show ?thesis by (simp add: trim_end_def chars_ascii [OF assms(1)])
qed

lemma base64_blob_len_exact: "base64_blob_len (base64 bs) = length bs"
proof -
  obtain body pad where b: "base64 bs = body @ pad" "set body \<subseteq> set base64_alphabet" "pad \<in> {[], ''='', ''==''}"
    "length body * 3 div 4 = length bs" using base64_shape by blast
  have eq: "\<not> is_whitespace ''=''" by code_simp
  have body: "byte c < 128" "c \<noteq> CHR ''=''" "\<not> is_whitespace [c]" if "c \<in> set body" for c
    using alphabet_chars [of c] b(2) that by auto
  have asc: "is_ascii (body @ pad)" using b(3) body by (auto simp: is_ascii_def list_all_iff byte_simps)
  have "trim_end (body @ pad) = body @ pad"
    by (rule trim_end_ascii [OF asc]) (use b(3) body eq in \<open>cases "body = []"; auto\<close>)
  moreover have "body \<noteq> [] \<Longrightarrow> last body \<noteq> CHR ''=''" using body by auto
  then have "\<not> suffix ''='' body" "\<not> suffix ''=='' body" "\<not> suffix ''=='' (body @ ''='')"
    by (auto simp: suffix_def)
  moreover have "suffix ''=='' (body @ ''=='')" "suffix ''='' (body @ ''='')" by (simp_all add: suffix_def)
  ultimately show ?thesis
    using b by (auto simp: base64_blob_len_def Let_def)
qed


text \<open>The index an instruction is about.\<close>

definition instr_index :: "Instruction \<Rightarrow> int option" where
  "instr_index i =
     (if opcode i = ''body'' then (if 4 \<le> length (args i) then parse_signed 64 (args i ! 1) else None) else first_index i)"

lemma first_index_nth: "3 \<le> length (args i) \<Longrightarrow> first_index i = parse_signed 64 (args i ! 0)"
  by (cases "args i") (simp_all add: first_index_def)

lemma length_update_le: "length (AList.update k v al) \<le> Suc (length al)"
  by (induction al) auto

lemma length_update_old: "map_of al k \<noteq> None \<Longrightarrow> length (AList.update k v al) = length al"
  by (induction al) (auto split: if_splits)

lemma length_delete_le: "length (AList.delete k al) \<le> length al"
  by (simp add: AList.delete_eq)

lemma length_delete_key: "k \<in> fst ` set al \<Longrightarrow> length (AList.delete k al) < length al"
  by (auto simp: AList.delete_eq intro!: length_filter_less)

lemma track_transfer_room:
  "length p < MAX_PENDING_TRANSFERS \<Longrightarrow>
     map_of (track_transfer idx t p) = (map_of p)(idx \<mapsto> t) \<and> length (track_transfer idx t p) \<le> Suc (length p)"
  using length_update_le [of idx t p] by (simp add: track_transfer_def AList.update_conv')

lemma track_transfer_bounded:
  assumes "length p \<le> MAX_PENDING_TRANSFERS"
  shows "length (track_transfer idx t p) \<le> MAX_PENDING_TRANSFERS"
proof (cases "map_of p idx = None \<and> MAX_PENDING_TRANSFERS \<le> length p")
  case True
  then have ne: "p \<noteq> []" by (auto simp: MAX_PENDING_TRANSFERS_def)
  then have "length (AList.delete (Min (fst ` set p)) p) < length p"
    by (intro length_delete_key Min_in) auto
  with True ne show ?thesis
    using length_update_le [of idx t "AList.delete (Min (fst ` set p)) p"] assms by (simp add: track_transfer_def)
next
  case False
  then show ?thesis
    using assms length_update_le [of idx t p] length_update_old [of p idx t] by (auto simp: track_transfer_def)
qed

text \<open>What one instruction does to the table.\<close>

lemma sniff_cases:
  obtains (same) "sniff_transfer_instruction i d p = ([], p)"
  | (track) idx t where "instr_index i = Some idx" "sniff_transfer_instruction i d p = ([], track_transfer idx t p)"
  | (grow) idx q n where "instr_index i = Some idx" "map_of p idx = Some q"
      "sniff_transfer_instruction i d p = ([], AList.update idx (q\<lparr>pt_size := n\<rparr>) p)"
  | (close) idx q err where "instr_index i = Some idx" "map_of p idx = Some q"
      "sniff_transfer_instruction i d p = ([finished err q], AList.delete idx p)"
proof -
  let ?r = "sniff_transfer_instruction i d p"
  let ?same = "?r = ([], p)"
  let ?track = "\<exists>idx t. instr_index i = Some idx \<and> ?r = ([], track_transfer idx t p)"
  let ?grow = "\<exists>idx q n. instr_index i = Some idx \<and> map_of p idx = Some q \<and> ?r = ([], AList.update idx (q\<lparr>pt_size := n\<rparr>) p)"
  let ?close = "\<exists>idx q err. instr_index i = Some idx \<and> map_of p idx = Some q \<and> ?r = ([finished err q], AList.delete idx p)"
  have "?same \<or> ?track" if op: "opcode i = ''file''"
  proof -
    have "sniff_file (args i) d p = ([], p) \<or>
        (\<exists>idx t. 3 \<le> length (args i) \<and> parse_signed 64 (args i ! 0) = Some idx \<and> sniff_file (args i) d p = ([], track_transfer idx t p))"
      by (auto simp: sniff_file_def split: option.splits)
    with op show ?thesis by (auto simp: sniff_transfer_instruction_def instr_index_def first_index_nth)
  qed
  moreover have "?same \<or> ?track" if op: "opcode i = ''body''"
  proof -
    have "sniff_body (args i) d p = ([], p) \<or>
        (\<exists>idx t. 4 \<le> length (args i) \<and> parse_signed 64 (args i ! 1) = Some idx \<and> sniff_body (args i) d p = ([], track_transfer idx t p))"
      by (auto simp: sniff_body_def split: option.splits)
    with op show ?thesis by (auto simp: sniff_transfer_instruction_def instr_index_def)
  qed
  moreover have "?same \<or> ?grow \<or> ?close" if op: "opcode i \<noteq> ''file''" "opcode i \<noteq> ''body''"
  proof (cases "opcode i \<in> {''blob'', ''end'', ''ack''} \<and> pending_entry i p \<noteq> None")
    case True
    then obtain idx q where e: "pending_entry i p = Some (idx, q)" by auto
    then have ix: "instr_index i = Some idx" "map_of p idx = Some q"
      using op by (auto simp: pending_entry_def instr_index_def split: option.splits)
    have "?r \<in> {sniff_blob (args i) d idx q p, sniff_end d idx q p, sniff_ack (args i) d idx q p}"
      using True op e by (auto simp: sniff_transfer_instruction_def)
    moreover have "sniff_blob (args i) d idx q p = ([], p) \<or> (\<exists>n. sniff_blob (args i) d idx q p = ([], AList.update idx (q\<lparr>pt_size := n\<rparr>) p))"
      by (cases "kind_matches d q \<and> 2 \<le> length (args i)") (auto simp: sniff_blob_def)
    moreover have "sniff_end d idx q p = ([], p) \<or> sniff_end d idx q p = ([finished False q], AList.delete idx p)"
      by (simp add: sniff_end_def)
    moreover have "sniff_ack (args i) d idx q p = ([], p) \<or> sniff_ack (args i) d idx q p = ([finished True q], AList.delete idx p)"
      by (simp add: sniff_ack_def)
    ultimately show ?thesis using ix by auto
  next
    case False
    then have ?same using op by (cases "pending_entry i p") (auto simp: sniff_transfer_instruction_def)
    then show ?thesis ..
  qed
  ultimately have "?same \<or> ?track \<or> ?grow \<or> ?close" by blast
  then show thesis using same track grow close by blast
qed

lemma sniff_bounded:
  "length p \<le> MAX_PENDING_TRANSFERS \<Longrightarrow> length (snd (sniff_transfer_instruction i d p)) \<le> MAX_PENDING_TRANSFERS"
  by (cases rule: sniff_cases [of i d p])
    (auto simp: track_transfer_bounded length_update_old intro: le_trans [OF length_delete_le])

text \<open>An instruction on another index leaves an entry alone while the table has room.\<close>

lemma sniff_other_index:
  assumes "length p < MAX_PENDING_TRANSFERS" "instr_index i \<noteq> Some j"
  shows "map_of (snd (sniff_transfer_instruction i d p)) j = map_of p j"
  by (cases rule: sniff_cases [of i d p])
    (use assms in \<open>auto simp: track_transfer_room AList.update_conv' AList.delete_conv'\<close>)

lemma sniff_grows:
  assumes "length p < MAX_PENDING_TRANSFERS"
  shows "length (snd (sniff_transfer_instruction i d p)) \<le> Suc (length p)"
  by (cases rule: sniff_cases [of i d p])
    (use assms in \<open>auto simp: track_transfer_room length_update_old intro: le_SucI le_trans [OF length_delete_le]\<close>)


section \<open>One transfer among others\<close>

definition transfer_run :: "(TransferDirection \<times> Instruction) list \<Rightarrow> Proxy \<Rightarrow> Proxy" where
  "transfer_run xs st = fold (\<lambda>(d, i). audit_transfer d i) xs st"

lemma transfer_run_simps [simp]:
  "transfer_run [] st = st"
  "transfer_run (x # xs) st = transfer_run xs (audit_transfer (fst x) (snd x) st)"
  "transfer_run (xs @ ys) st = transfer_run ys (transfer_run xs st)"
  by (simp_all add: transfer_run_def case_prod_beta)

text \<open>What does not concern a transfer: another index, or an acknowledgement without an error.\<close>

definition quiet :: "int \<Rightarrow> TransferDirection \<times> Instruction \<Rightarrow> bool" where
  "quiet idx x \<longleftrightarrow> instr_index (snd x) \<noteq> Some idx \<or>
     opcode (snd x) = ''ack'' \<and> (length (args (snd x)) < 3 \<or> args (snd x) ! 2 = ''0'')"

definition blob_instr :: "string \<Rightarrow> string \<Rightarrow> Instruction" where
  "blob_instr idx bytes = instruction_new ''blob'' [idx, base64 bytes]"

lemma audit_transfer_fields:
  "transfers (audit_transfer d i st) = snd (sniff_transfer_instruction i d (transfers st))"
  "audits (audit_transfer d i st) = audits st @ fst (sniff_transfer_instruction i d (transfers st))"
  by (simp_all add: audit_transfer_def split: prod.splits)

lemma quiet_step:
  assumes "quiet idx x" "length p < MAX_PENDING_TRANSFERS"
  shows "map_of (snd (sniff_transfer_instruction (snd x) (fst x) p)) idx = map_of p idx"
proof (cases "instr_index (snd x) = Some idx")
  case True
  with assms(1) have "opcode (snd x) = ''ack''" "length (args (snd x)) < 3 \<or> args (snd x) ! 2 = ''0''"
    by (auto simp: quiet_def)
  then show ?thesis by (auto simp: sniff_transfer_instruction_def sniff_ack_def split: option.splits)
next
  case False
  with assms(2) show ?thesis by (rule sniff_other_index)
qed

lemma blob_step:
  assumes "parse_signed 64 s = Some idx" "map_of p idx = Some q" "kind_matches d q"
  shows "sniff_transfer_instruction (blob_instr s b) d p = ([], AList.update idx (q\<lparr>pt_size := pt_size q + length b\<rparr>) p)"
  using assms
  by (simp add: sniff_transfer_instruction_def blob_instr_def instruction_new_def pending_entry_def first_index_def
      sniff_blob_def base64_blob_len_exact)

lemma blobs_run:
  assumes "parse_signed 64 s = Some idx" "map_of (transfers st) idx = Some q" "kind_matches d q"
    and "length (transfers st) + length xs \<le> MAX_PENDING_TRANSFERS"
    and "filter (\<lambda>x. \<not> quiet idx x) xs = map (\<lambda>b. (d, blob_instr s b)) bs"
  shows "map_of (transfers (transfer_run xs st)) idx = Some (q\<lparr>pt_size := pt_size q + length (concat bs)\<rparr>)"
  using assms(2-)
proof (induction xs arbitrary: st q bs)
  case (Cons x xs)
  let ?st = "audit_transfer (fst x) (snd x) st"
  have room: "length (transfers st) < MAX_PENDING_TRANSFERS" using Cons.prems(3) by simp
  have len: "length (transfers ?st) + length xs \<le> MAX_PENDING_TRANSFERS"
    using sniff_grows [OF room, of "snd x" "fst x"] Cons.prems(3) by (simp add: audit_transfer_fields)
  show ?case
  proof (cases "quiet idx x")
    case True
    with Cons.prems room have "map_of (transfers ?st) idx = Some q" by (simp add: audit_transfer_fields quiet_step)
    from Cons.IH [OF this Cons.prems(2) len] True Cons.prems(4) show ?thesis by simp
  next
    case False
    with Cons.prems(4) obtain b bs' where bs: "bs = b # bs'" "x = (d, blob_instr s b)"
      "filter (\<lambda>x. \<not> quiet idx x) xs = map (\<lambda>b. (d, blob_instr s b)) bs'" by (cases bs) auto
    have "map_of (transfers ?st) idx = Some (q\<lparr>pt_size := pt_size q + length b\<rparr>)"
      using bs(2) blob_step [OF assms(1) Cons.prems(1,2)] by (simp add: audit_transfer_fields AList.update_conv')
    from Cons.IH [OF this _ len bs(3)] Cons.prems(2) bs show ?thesis by (simp add: kind_matches_def add.assoc)
  qed
qed simp

definition file_instr :: "string \<Rightarrow> string \<Rightarrow> string \<Rightarrow> Instruction" where
  "file_instr idx mimetype name = instruction_new ''file'' [idx, mimetype, name]"

definition end_instr :: "string \<Rightarrow> Instruction" where
  "end_instr idx = instruction_new ''end'' [idx]"

text \<open>
  A file sent in either direction in blobs, among any other instructions of both sides,
  is logged when it ends as one transfer with its name, its type, its direction and exactly the
  number of its bytes, as long as the table has room for what is opened meanwhile. Instructions of
  the same index that are in between are successful acknowledgements.
\<close>

lemma transfer_logged_with_size:
  assumes "parse_signed 64 s = Some idx" "0 \<le> idx"
    and "length (transfers st) + length xs < MAX_PENDING_TRANSFERS"
    and "filter (\<lambda>x. \<not> quiet idx x) xs = map (\<lambda>b. (d, blob_instr s b)) bs"
  shows "let before = transfer_run ((d, file_instr s mimetype name) # xs) st;
             after = transfer_run [(d, end_instr s)] before
         in audits after = audits before @
              [\<lparr>ta_kind = (case d of BrowserToGuacd \<Rightarrow> Upload | GuacdToBrowser \<Rightarrow> Download), ta_filename = name,
                ta_mimetype = mimetype, ta_size = length (concat bs), ta_error = False\<rparr>] \<and>
            map_of (transfers after) idx = None"
proof -
  let ?q = "\<lparr>pt_kind = (case d of BrowserToGuacd \<Rightarrow> Upload | GuacdToBrowser \<Rightarrow> Download), pt_filename = name,
     pt_mimetype = mimetype, pt_size = 0\<rparr>"
  let ?st = "audit_transfer d (file_instr s mimetype name) st"
  have room: "length (transfers st) < MAX_PENDING_TRANSFERS" using assms(3) by simp
  have st: "transfers ?st = track_transfer idx ?q (transfers st)"
    using assms(1,2) by (simp add: audit_transfer_fields sniff_transfer_instruction_def sniff_file_def file_instr_def instruction_new_def)
  have km: "kind_matches d ?q" by (cases d) (simp_all add: kind_matches_def)
  have len: "length (transfers ?st) + length xs \<le> MAX_PENDING_TRANSFERS"
    using track_transfer_room [OF room, of idx ?q] assms(3) unfolding st by simp
  have q: "map_of (transfers ?st) idx = Some ?q"
    using track_transfer_room [OF room, of idx ?q] unfolding st by simp
  from blobs_run [OF assms(1) q km len assms(4)]
  have "map_of (transfers (transfer_run xs ?st)) idx = Some (?q\<lparr>pt_size := length (concat bs)\<rparr>)" by simp
  then show ?thesis using km assms(1)
    by (simp add: Let_def audit_transfer_fields sniff_transfer_instruction_def end_instr_def instruction_new_def
        pending_entry_def first_index_def sniff_end_def kind_matches_def finished_def AList.delete_conv')
qed


definition demo_transfer :: "(TransferDirection \<times> Instruction) list" where
  "demo_transfer = [(BrowserToGuacd, blob_instr ''1'' ''hello''), (GuacdToBrowser, instruction_new ''ack'' [''1'', ''OK'', ''0'']),
     (BrowserToGuacd, file_instr ''2'' ''text/plain'' ''b.txt''), (BrowserToGuacd, blob_instr ''1'' '' world'')]"

lemma demo_transfer_quiet:
  "filter (\<lambda>x. \<not> quiet 1 x) demo_transfer = map (\<lambda>b. (BrowserToGuacd, blob_instr ''1'' b)) [''hello'', '' world'']"
  "parse_signed 64 ''1'' = Some 1"
proof -
  have "(filter (\<lambda>x. \<not> quiet 1 x) demo_transfer = map (\<lambda>b. (BrowserToGuacd, blob_instr ''1'' b)) [''hello'', '' world'']) \<and>
       (parse_signed 64 ''1'' = Some 1)"
    by code_simp
  then show "filter (\<lambda>x. \<not> quiet 1 x) demo_transfer = map (\<lambda>b. (BrowserToGuacd, blob_instr ''1'' b)) [''hello'', '' world'']" "parse_signed 64 ''1'' = Some 1"
    by blast+
qed

section \<open>The table is bounded\<close>

lemma fold_audit_bounded:
  assumes "\<And>x st. length (transfers st) \<le> MAX_PENDING_TRANSFERS \<Longrightarrow> length (transfers (f x st)) \<le> MAX_PENDING_TRANSFERS"
    and "length (transfers st) \<le> MAX_PENDING_TRANSFERS"
  shows "length (transfers (fold f xs st)) \<le> MAX_PENDING_TRANSFERS"
  using assms(2) by (induction xs arbitrary: st) (simp_all add: assms(1))

lemma audit_bounded:
  "length (transfers st) \<le> MAX_PENDING_TRANSFERS \<Longrightarrow> length (transfers (audit_transfer d i st)) \<le> MAX_PENDING_TRANSFERS"
  "length (transfers st) \<le> MAX_PENDING_TRANSFERS \<Longrightarrow> length (transfers (observe_guacd i st)) \<le> MAX_PENDING_TRANSFERS"
  by (simp_all add: audit_transfer_fields sniff_bounded observe_guacd_def)

lemma observe_text_bounded:
  "length (transfers st) \<le> MAX_PENDING_TRANSFERS \<Longrightarrow> length (transfers (observe_text t st)) \<le> MAX_PENDING_TRANSFERS"
  by (simp add: observe_text_def Let_def fold_audit_bounded audit_bounded)

lemma forward_text_bounded:
  assumes "length (transfers st) \<le> MAX_PENDING_TRANSFERS"
  shows "length (transfers (forward_text ro err up t st)) \<le> MAX_PENDING_TRANSFERS"
  using assms fold_audit_bounded [of "audit_transfer BrowserToGuacd", OF audit_bounded(1) assms]
  by (simp add: forward_text_def Let_def ws_to_guacd_end_def send_disconnect_to_guacd_def split: option.splits)

lemma event_bounded:
  assumes "length (transfers st) \<le> MAX_PENDING_TRANSFERS"
  shows "length (transfers (proxy_event ro ev st)) \<le> MAX_PENDING_TRANSFERS"
proof (cases ev)
  case (GuacdRead e data)
  with assms show ?thesis
    by (auto simp: proxy_event_def guacd_chunk_def Let_def observe_text_bounded split: option.splits)
next
  case (BrowserMsg e up msg)
  have "length (transfers (browser_message ro e up msg st)) \<le> MAX_PENDING_TRANSFERS"
    by (cases rule: browser_message_cases [of ro e up msg st])
      (use assms in \<open>simp_all add: forward_text_bounded ws_to_guacd_end_def send_disconnect_to_guacd_def\<close>)
  with BrowserMsg assms show ?thesis by (simp add: proxy_event_def)
qed (use assms in \<open>auto simp: proxy_event_def ws_to_guacd_end_def send_disconnect_to_guacd_def\<close>)

text \<open>Whatever indices a peer opens, a connection tracks at most 4096 transfers.\<close>

lemma transfers_bounded: "length (transfers (proxy_ws_guacd ro rec evs)) \<le> MAX_PENDING_TRANSFERS"
proof -
  have "length (transfers (fold (proxy_event ro) evs st)) \<le> MAX_PENDING_TRANSFERS"
    if "length (transfers st) \<le> MAX_PENDING_TRANSFERS" for st
    using that by (induction evs arbitrary: st) (simp_all add: event_bounded)
  then show ?thesis unfolding proxy_ws_guacd_def by (simp add: proxy_new_def)
qed

section \<open>Behaviour at the edges\<close>

text \<open>
  The table is keyed by the index alone. A download on the index of a pending upload replaces it:
  the upload ends without a record.
\<close>

lemma download_replaces_upload:
  "audits (transfer_run [(BrowserToGuacd, file_instr ''1'' ''text/plain'' ''up''), (BrowserToGuacd, blob_instr ''1'' ''data''),
     (GuacdToBrowser, file_instr ''1'' ''text/plain'' ''down''), (BrowserToGuacd, end_instr ''1'')] (proxy_new False)) = []"
  by code_simp

text \<open>
  The parser splits at every semicolon. An upload whose name has one is forwarded and leaves no
  record, and neither does one that is opened by \<open>put\<close>.
\<close>

lemma semicolon_upload_unaudited:
  "audits (proxy_ws_guacd False False
     [BrowserMsg None True (TextMsg (encode (file_instr ''1'' ''text/plain'' ''a;b''))),
      BrowserMsg None True (TextMsg (encode (blob_instr ''1'' ''data''))),
      BrowserMsg None True (TextMsg (encode (end_instr ''1'')))]) = []"
  "audits (proxy_ws_guacd False False
     [BrowserMsg None True (TextMsg (encode (instruction_new ''put'' [''0'', ''1'', ''text/plain'', ''/a'']))),
      BrowserMsg None True (TextMsg (encode (blob_instr ''1'' ''data''))),
      BrowserMsg None True (TextMsg (encode (end_instr ''1'')))]) = []"
proof -
  have "(audits (proxy_ws_guacd False False
     [BrowserMsg None True (TextMsg (encode (file_instr ''1'' ''text/plain'' ''a;b''))),
      BrowserMsg None True (TextMsg (encode (blob_instr ''1'' ''data''))),
      BrowserMsg None True (TextMsg (encode (end_instr ''1'')))]) = []) \<and>
       (audits (proxy_ws_guacd False False
     [BrowserMsg None True (TextMsg (encode (instruction_new ''put'' [''0'', ''1'', ''text/plain'', ''/a'']))),
      BrowserMsg None True (TextMsg (encode (blob_instr ''1'' ''data''))),
      BrowserMsg None True (TextMsg (encode (end_instr ''1'')))]) = [])"
    by code_simp
  then show "audits (proxy_ws_guacd False False
     [BrowserMsg None True (TextMsg (encode (file_instr ''1'' ''text/plain'' ''a;b''))),
      BrowserMsg None True (TextMsg (encode (blob_instr ''1'' ''data''))),
      BrowserMsg None True (TextMsg (encode (end_instr ''1'')))]) = []" "audits (proxy_ws_guacd False False
     [BrowserMsg None True (TextMsg (encode (instruction_new ''put'' [''0'', ''1'', ''text/plain'', ''/a'']))),
      BrowserMsg None True (TextMsg (encode (blob_instr ''1'' ''data''))),
      BrowserMsg None True (TextMsg (encode (end_instr ''1'')))]) = []"
    by blast+
qed

text \<open>The filter of view-only connections lets \<open>put\<close> through, which opens an upload to a file system.\<close>

lemma put_passes_filter:
  "to_guacd (proxy_ws_guacd True False
     [BrowserMsg None True (TextMsg (encode (instruction_new ''put'' [''0'', ''1'', ''text/plain'', ''/a''])))]) =
   [encode (instruction_new ''put'' [''0'', ''1'', ''text/plain'', ''/a''])]"
  by code_simp

text \<open>
  The end of the remote session is looked for in the text and not in its instructions: a clipboard
  or file name that holds the words ends it as completed.
\<close>

lemma disconnect_in_data:
  "server_disconnected (proxy_ws_guacd False False [GuacdRead None (encode (instruction_new ''name'' [''a;10.disconnect;'']))])"
  by code_simp

end
