(* ===== verification/Ws_Handler.thy ===== *)
theory Ws_Handler
  imports Session_Caps Ws_Tickets Ws_Transfers Audit_Chain
begin

text \<open>
  The life of a WebSocket connection (\<open>ws_handler\<close> and \<open>handle_ws\<close> of \<^verbatim>\<open>src/src/websocket.rs\<close>): the
  checks of the upgrade request, the redirect to the instance that owns the session, the way a
  connection becomes owner, viewer or shadow of a session, the proxy, and what happens to the
  session when the connection ends. It composes the session manager, the WebSocket tickets, the
  proxy and the audit log.
\<close>

section \<open>The upgrade request\<close>

function trim_start_matches :: "string \<Rightarrow> string \<Rightarrow> string" where
  "trim_start_matches p s =
     (case strip_prefix p s of
        Some r \<Rightarrow> if p = [] then s else trim_start_matches p r
      | None \<Rightarrow> s)"
  by pat_completeness auto
termination by (relation "measure (\<lambda>(_, s). length s)") (auto simp: strip_prefix_Some)

declare trim_start_matches.simps [simp del]

definition eq_ignore_ascii_case :: "string \<Rightarrow> string \<Rightarrow> bool" where
  "eq_ignore_ascii_case a b \<longleftrightarrow> map to_ascii_lowercase a = map to_ascii_lowercase b"

definition origin_host :: "string \<Rightarrow> string" where
  "origin_host origin =
     hd (split_on CHR '':'' (trim_end_char CHR ''/'' (trim_start_matches ''http://'' (trim_start_matches ''https://'' origin))))"

definition origin_host_matches :: "string \<Rightarrow> string \<Rightarrow> bool" where
  "origin_host_matches origin host =
     (let host_name = hd (split_on CHR '':'' host)
      in if host_name = [] \<or> origin_host origin = [] then False
         else eq_ignore_ascii_case (origin_host origin) host_name)"

definition query_key :: "string \<Rightarrow> string" where
  "query_key pair = hd (split_on CHR ''='' pair)"

definition redact_ws_query :: "string \<Rightarrow> string" where
  "redact_ws_query input =
     (case split_once CHR ''?'' input of
        None \<Rightarrow> input
      | Some (base, query) \<Rightarrow>
          base @ ''?'' @ join ''&'' (map (\<lambda>pair. if query_key pair = ''ticket'' \<or> query_key pair = ''token''
                                         then query_key pair @ ''=***'' else pair) (split_on CHR ''&'' query)))"

fun identity_key :: "AuthIdentity \<Rightarrow> string" where
  "identity_key (ApiKey name) = name"
| "identity_key (UserId email _ _ _) = email"

definition owner_path_authorized :: "AuthIdentity option \<Rightarrow> string option \<Rightarrow> bool" where
  "owner_path_authorized identity creator =
     (case identity of
        Some ident \<Rightarrow>
          has_role ident ''admin'' \<or>
          (case creator of Some c \<Rightarrow> c = identity_key ident \<or> c = display_name ident | None \<Rightarrow> False)
      | None \<Rightarrow> False)"

definition kept_params :: "string option \<Rightarrow> string list" where
  "kept_params qs =
     (case qs of
        None \<Rightarrow> []
      | Some q \<Rightarrow> filter (\<lambda>pair. pair \<noteq> [] \<and> query_key pair \<noteq> ''ticket'') (split_on CHR ''&'' q))"

definition redirect_location :: "string \<Rightarrow> Uuid \<Rightarrow> string \<Rightarrow> string list \<Rightarrow> string" where
  "redirect_location owner_base sid fresh kept =
     trim_end_char CHR ''/'' owner_base @ ''/ws/'' @ sid @ ''?ticket='' @ fresh @
     (if kept = [] then [] else ''&'' @ join ''&'' kept)"

record WsRequest =
  wr_identity :: "AuthIdentity option"
  wr_origin :: "string option"
  wr_host :: "string option"
  wr_query :: "string option"
  wr_ticket_authenticated :: bool

datatype WsDecision = WsReject nat string | WsRedirect string | WsUpgrade

text \<open>The last check: a pending or disconnected session is for its creator or an administrator.\<close>

definition owner_gate :: "WsRequest \<Rightarrow> Uuid \<Rightarrow> SessionManager \<Rightarrow> WsTicketStore \<Rightarrow> WsDecision \<times> WsTicketStore" where
  "owner_gate req sid m tickets =
     (if (is_session_pending sid m \<or> is_session_disconnected sid m) \<and>
         \<not> owner_path_authorized (wr_identity req) (get_session_creator sid m)
      then (WsReject 403 ''only the session owner or an administrator may connect to a pending or disconnected session'', tickets)
      else (WsUpgrade, tickets))"

text \<open>
  \<open>fresh\<close> is the random ticket of a redirect. The result is the response or the upgrade, with the
  ticket store after it.
\<close>

definition ws_handler ::
    "Crypto \<Rightarrow> TicketIo \<Rightarrow> (string \<Rightarrow> Uuid option) \<Rightarrow> string \<Rightarrow> WsRequest \<Rightarrow> Uuid \<Rightarrow> SessionManager \<Rightarrow> WsTicketStore \<Rightarrow>
     WsDecision \<times> WsTicketStore" where
  "ws_handler cr io parse_uuid fresh req sid m tickets =
     (let origin_error =
            (if wr_ticket_authenticated req then None
             else case wr_origin req of
                    None \<Rightarrow> Some ''WebSocket upgrade requires Origin header''
                  | Some origin \<Rightarrow>
                      if origin_host_matches origin (case wr_host req of Some h \<Rightarrow> h | None \<Rightarrow> [])
                      then None else Some ''cross-origin WebSocket request rejected'')
      in case origin_error of
           Some e \<Rightarrow> (WsReject 403 e, tickets)
         | None \<Rightarrow>
             if shutdown m then (WsReject 503 ''server is shutting down'', tickets)
             else case get_session parse_uuid sid m of
                    Some info \<Rightarrow>
                      if info_remote info
                      then (case info_owner_base_url info of
                              None \<Rightarrow> (WsReject 502 (''session is hosted by another instance that advertises no ha_base_url '' @
                                  [CHR 0xE2, CHR 0x80, CHR 0x94] @ '' configure ha_base_url on the owning instance''), tickets)
                            | Some base \<Rightarrow>
                                (case wr_identity req of
                                   None \<Rightarrow> (WsReject 403 ''authentication required to join a session on another instance'', tickets)
                                 | Some ident \<Rightarrow>
                                     (WsRedirect (redirect_location base sid fresh (kept_params (wr_query req))),
                                      ticket_forward cr io fresh ident tickets)))
                      else owner_gate req sid m tickets
                  | None \<Rightarrow> owner_gate req sid m tickets)"


section \<open>Becoming owner, viewer or shadow\<close>

datatype ConnectionKind = OwnerConn | ViewerConn | ShadowConn

record Admission =
  adm_stream :: GuacdStream
  adm_kind :: ConnectionKind
  adm_shadow_token :: "string option"

text \<open>
  The first part of \<open>handle_ws\<close>: the guacd connections are arguments as in the session manager. The
  result is the connection, if there is one, what is sent to a browser that is turned away, and the
  manager and the database after it.
\<close>

definition viewer_limit_message :: "32 word \<Rightarrow> 32 word \<Rightarrow> string" where
  "viewer_limit_message viewers cap =
     ''share viewer limit reached: '' @ show_nat (unat viewers) @ '' of '' @ show_nat (unat cap) @ '' viewers already connected''"

definition ws_join ::
    "(string \<Rightarrow> 32 word \<Rightarrow> 32 word \<Rightarrow> 32 word \<Rightarrow> bool \<Rightarrow> (GuacdStream, SessionError) result) \<Rightarrow> 32 word \<Rightarrow>
     string \<Rightarrow> bool \<Rightarrow> Uuid \<Rightarrow> SessionManager \<Rightarrow> Admission option \<times> string list \<times> SessionManager" where
  "ws_join join_conn max_viewers token read_only sid m =
     (case join_session_as_viewer join_conn sid max_viewers read_only m of
        (Inr stream, m1) \<Rightarrow>
          (Some \<lparr>adm_stream = stream, adm_kind = (if read_only then ShadowConn else ViewerConn),
                 adm_shadow_token = (if read_only then Some token else None)\<rparr>, [], m1)
      | (Inl (ViewerLimit viewers cap), m1) \<Rightarrow>
          (None, [encode (instruction_new ''error'' [viewer_limit_message viewers cap, ''512''])], m1)
      | (Inl _, m1) \<Rightarrow> (None, [], m1))"

definition ws_admit ::
    "Crypto \<Rightarrow> DateTime \<Rightarrow> (ConnectionParams \<Rightarrow> ConnectOutcome) \<Rightarrow>
     (string \<Rightarrow> 32 word \<Rightarrow> 32 word \<Rightarrow> 32 word \<Rightarrow> bool \<Rightarrow> (GuacdStream, SessionError) result) \<Rightarrow> string \<Rightarrow> 32 word \<Rightarrow>
     string option \<Rightarrow> Uuid \<Rightarrow> SessionManager \<Rightarrow> AuthDb option \<Rightarrow>
     Admission option \<times> string list \<times> SessionManager \<times> AuthDb option" where
  "ws_admit cr now guacd join_conn ip max_viewers token sid m database =
     (let owner = (\<lambda>stream. Some \<lparr>adm_stream = stream, adm_kind = OwnerConn, adm_shadow_token = None\<rparr>)
      in case take_guacd_stream now guacd sid m of
           (Some stream, m1) \<Rightarrow> (owner stream, [], m1, database)
         | (None, m1) \<Rightarrow>
             (case reconnect_session now guacd sid m1 of
                (Some stream, m2) \<Rightarrow> (owner stream, [], m2, database)
              | (None, m2) \<Rightarrow>
                  (case token of
                     None \<Rightarrow> (None, [], m2, database)
                   | Some t \<Rightarrow>
                       (case validate_share_token cr now sid t m2 of
                          Invalid \<Rightarrow> (None, [], m2, database)
                        | Owner \<Rightarrow> (case ws_join join_conn max_viewers t False sid m2 of (a, out, m3) \<Rightarrow> (a, out, m3, database))
                        | Shadow issuer \<Rightarrow>
                            let database1 = map_option (log_token_event now None None issuer ''shadow_used'' (Some ip)
                                  (Some (''session_id='' @ sid @ '', issued_by='' @ issuer))) database
                            in (case ws_join join_conn max_viewers t True sid m2 of (a, out, m3) \<Rightarrow> (a, out, m3, database1))))))"

text \<open>The timer of a shadow: whether the connection goes on.\<close>

definition shadow_still_valid :: "Crypto \<Rightarrow> DateTime \<Rightarrow> Uuid \<Rightarrow> Admission \<Rightarrow> SessionManager \<Rightarrow> bool" where
  "shadow_still_valid cr now sid a m =
     (case adm_shadow_token a of None \<Rightarrow> True | Some t \<Rightarrow> validate_share_token cr now sid t m \<noteq> Invalid)"

text \<open>
  The proxy of a connection: shadows are read-only, and only the owner records, when the session
  has recording enabled and the file was \<open>opened\<close>.
\<close>

definition ws_proxy :: "Admission \<Rightarrow> bool \<Rightarrow> Uuid \<Rightarrow> SessionManager \<Rightarrow> ProxyEvent list \<Rightarrow> Proxy" where
  "ws_proxy a opened sid m evs =
     proxy_ws_guacd (adm_kind a = ShadowConn) (adm_kind a = OwnerConn \<and> is_recording_enabled sid m \<and> opened) evs"

section \<open>The end of a connection\<close>

definition ended_quickly :: "nat \<Rightarrow> Proxy \<Rightarrow> bool" where
  "ended_quickly elapsed_secs st =
     (case proxy_result st of Some (GuacdEnded _) \<Rightarrow> elapsed_secs < 5 | _ \<Rightarrow> False)"

definition teardown_status ::
    "(string \<Rightarrow> Uuid option) \<Rightarrow> DateTime \<Rightarrow> nat \<Rightarrow> Proxy \<Rightarrow> Uuid \<Rightarrow> SessionManager \<Rightarrow> string \<times> SessionManager" where
  "teardown_status parse_uuid now elapsed_secs st sid m =
     (if ended_quickly elapsed_secs st then (''error'', error_session now sid m)
      else if server_disconnected st then (''completed'', complete_session now sid m)
      else case get_session parse_uuid sid m of
             Some info \<Rightarrow>
               if info_active_connections info = 0 then (''disconnected'', disconnect_session now sid m)
               else (''active'', m)
           | None \<Rightarrow> (''completed'', m))"

definition teardown_vdi :: "Proxy \<Rightarrow> Uuid \<Rightarrow> SessionManager \<Rightarrow> SessionManager" where
  "teardown_vdi st sid m =
     (case get_vdi_info sid m of
        Some (ty, Some _, _) \<Rightarrow> if ty = Vdi \<and> server_disconnected st then stop_vdi_container sid m else m
      | _ \<Rightarrow> m)"

definition teardown_history ::
    "(string \<Rightarrow> Uuid option) \<Rightarrow> DateTime \<Rightarrow> nat \<Rightarrow> bool \<Rightarrow> string \<Rightarrow> Uuid \<Rightarrow> SessionManager \<Rightarrow> SessionManager" where
  "teardown_history parse_uuid now elapsed_secs recorded ending sid m =
     (if ending = ''completed'' \<or> ending = ''error''
      then mgr_end_session_history now sid ending
             (case get_session parse_uuid sid m of
                Some info \<Rightarrow> word_of_int (max 0 (num_seconds (now - info_created_at info)))
              | None \<Rightarrow> of_nat elapsed_secs) recorded m
      else m)"

text \<open>
  What follows the proxy in \<open>handle_ws\<close>, but for the files of recordings and thumbnails.
  \<open>recorded\<close> is whether recording was enabled when the connection started.
\<close>

definition ws_teardown ::
    "(string \<Rightarrow> Uuid option) \<Rightarrow> DateTime \<Rightarrow> nat \<Rightarrow> bool \<Rightarrow> ConnectionKind \<Rightarrow> Proxy \<Rightarrow> Uuid \<Rightarrow> SessionManager \<Rightarrow> SessionManager" where
  "ws_teardown parse_uuid now elapsed_secs recorded kind st sid m =
     (let m1 = disconnect_viewer sid m;
          m2 = (if kind = OwnerConn then mark_owner_disconnected sid m1 else m1)
      in case teardown_status parse_uuid now elapsed_secs st sid m2 of
           (ending, m3) \<Rightarrow>
             teardown_history parse_uuid now elapsed_secs recorded ending sid (teardown_vdi st sid m3))"

section \<open>Transfers in the audit log\<close>

definition transfer_details :: "TransferAuditEvent \<Rightarrow> Value" where
  "transfer_details ev = Object [(''filename'', Str (ta_filename ev)), (''mimetype'', Str (ta_mimetype ev)),
     (''size'', Number (show_nat (ta_size ev)))]"

definition emit_transfer_audit ::
    "AuditEnv \<Rightarrow> DateTime \<Rightarrow> Uuid \<Rightarrow> string option \<Rightarrow> TransferAuditEvent \<Rightarrow> AuditDb option \<Rightarrow> AuditDb option" where
  "emit_transfer_audit env now sid user ev database =
     map_option (fire env now (Some (case user of Some u \<Rightarrow> u | None \<Rightarrow> ''unknown''))
       (case ta_kind ev of Upload \<Rightarrow> ''session.file.upload'' | Download \<Rightarrow> ''session.file.download'')
       (if ta_error ev then ''error'' else ''success'') (transfer_details ev) None (Some sid)) database"


section \<open>Who gets which connection\<close>

lemma owner_connect_other:
  assumes "entry_status sid m \<noteq> Some from"
  shows "owner_connect from fin now guacd sid m = (None, m)"
  using assms
  by (auto simp: owner_connect_def claim_deferred_def entry_status_def Let_def split: option.splits)

lemma owner_connect_fails:
  assumes "owner_connect from fin now guacd sid m = (None, m')" "entry_status sid m = Some from"
  shows "entry_status sid m' = Some from \<or> entry_status sid m' = Some Error"
  using assms
  by (auto simp: owner_connect_def claim_deferred_def install_stream_def mark_connect_failed_def entry_status_def frame_simps Let_def
      split: option.splits sum.splits prod.splits if_splits)

lemma take_other: "entry_status sid m \<noteq> Some SessionStatus.Pending \<Longrightarrow> take_guacd_stream now guacd sid m = (None, m)"
  by (simp add: take_guacd_stream_def owner_connect_other)

lemma reconnect_other: "entry_status sid m \<noteq> Some Disconnected \<Longrightarrow> reconnect_session now guacd sid m = (None, m)"
  by (simp add: reconnect_session_def owner_connect_other)

text \<open>An owner's stream is handed out only for a session that waits for its owner.\<close>

lemma owner_status:
  assumes "take_guacd_stream now guacd sid m = (r, m1)" "r \<noteq> None \<or> fst (reconnect_session now guacd sid m1) \<noteq> None"
  shows "is_session_pending sid m \<or> is_session_disconnected sid m"
proof (rule ccontr)
  assume "\<not> ?thesis"
  then have "entry_status sid m \<noteq> Some SessionStatus.Pending" "entry_status sid m \<noteq> Some Disconnected"
    by (auto simp: is_session_pending_def is_session_disconnected_def entry_status_def split: option.splits)
  with assms show False by (auto simp: take_other reconnect_other)
qed

text \<open>A session can be joined only if it was active all along, and then nothing had changed.\<close>

lemma join_status:
  assumes "take_guacd_stream now guacd sid m = (None, m1)" "reconnect_session now guacd sid m1 = (None, m2)"
    and "entry_status sid m2 = Some Active"
  shows "m2 = m"
proof (cases "entry_status sid m = Some SessionStatus.Pending")
  case True
  with assms(1) have "entry_status sid m1 = Some SessionStatus.Pending \<or> entry_status sid m1 = Some Error"
    unfolding take_guacd_stream_def by (rule owner_connect_fails)
  with assms(2,3) show ?thesis using reconnect_other [of sid m1 now guacd] by auto
next
  case False
  with assms(1) have m1: "m1 = m" by (simp add: take_other)
  show ?thesis
  proof (cases "entry_status sid m = Some Disconnected")
    case True
    with assms(2) m1 have "entry_status sid m2 = Some Disconnected \<or> entry_status sid m2 = Some Error"
      unfolding reconnect_session_def by (intro owner_connect_fails) auto
    with assms(3) show ?thesis by auto
  next
    case False
    with assms(2) m1 show ?thesis by (simp add: reconnect_other)
  qed
qed

lemma ws_join_admits:
  assumes "fst (ws_join join_conn cap t ro sid m) = Some a"
  shows "entry_status sid m = Some Active \<and> adm_kind a = (if ro then ShadowConn else ViewerConn) \<and>
     adm_shadow_token a = (if ro then Some t else None)"
  using assms
  by (auto simp: ws_join_def join_session_as_viewer_def reserve_viewer_slot_def entry_status_def
      split: option.splits sum.splits prod.splits SessionError.splits if_splits)

lemma ws_admit_cases:
  assumes "fst (ws_admit cr now guacd join_conn ip cap token sid m database) = Some a"
  obtains (owner) "adm_kind a = OwnerConn" "is_session_pending sid m \<or> is_session_disconnected sid m"
  | (viewer) t where "adm_kind a = ViewerConn" "token = Some t" "validate_share_token cr now sid t m = Owner" "entry_status sid m = Some Active"
  | (shadow) t issuer where "adm_kind a = ShadowConn" "token = Some t" "adm_shadow_token a = Some t"
      "validate_share_token cr now sid t m = Shadow issuer" "entry_status sid m = Some Active"
proof -
  obtain r1 m1 where t: "take_guacd_stream now guacd sid m = (r1, m1)" by fastforce
  obtain r2 m2 where r: "reconnect_session now guacd sid m1 = (r2, m2)" by fastforce
  show thesis
  proof (cases "r1 = None \<and> r2 = None")
    case False
    then have st: "is_session_pending sid m \<or> is_session_disconnected sid m"
      using owner_status [OF t] r by auto
    have "adm_kind a = OwnerConn"
      using assms t r False by (auto simp: ws_admit_def Let_def split: option.splits)
    with st owner show thesis by blast
  next
    case True
    then obtain tok where tok: "token = Some tok"
      using assms t r by (cases token) (auto simp: ws_admit_def Let_def)
    show thesis
    proof (cases "validate_share_token cr now sid tok m2")
      case Invalid
      with assms t r True tok show thesis by (simp add: ws_admit_def)
    next
      case Owner
      with assms t r True tok have "fst (ws_join join_conn cap tok False sid m2) = Some a"
        by (simp add: ws_admit_def split: prod.splits)
      from ws_join_admits [OF this] have a: "entry_status sid m2 = Some Active" "adm_kind a = ViewerConn" by simp_all
      with join_status t r True have "m2 = m" by simp
      with a tok Owner viewer show thesis by simp
    next
      case (Shadow issuer)
      with assms t r True tok have "fst (ws_join join_conn cap tok True sid m2) = Some a"
        by (simp add: ws_admit_def Let_def split: prod.splits)
      from ws_join_admits [OF this] have a: "entry_status sid m2 = Some Active" "adm_kind a = ShadowConn" "adm_shadow_token a = Some tok"
        by simp_all
      with join_status t r True have "m2 = m" by simp
      with a tok Shadow shadow show thesis by simp
    qed
  qed
qed

lemma upgrade_gate:
  assumes "fst (ws_handler cr io parse_uuid fresh req sid m tickets) = WsUpgrade"
  shows "\<not> shutdown m \<and>
     (wr_ticket_authenticated req \<or> (\<exists>origin. wr_origin req = Some origin \<and>
        origin_host_matches origin (case wr_host req of Some h \<Rightarrow> h | None \<Rightarrow> []))) \<and>
     (is_session_pending sid m \<or> is_session_disconnected sid m \<longrightarrow>
        owner_path_authorized (wr_identity req) (get_session_creator sid m))"
  using assms by (auto simp: ws_handler_def owner_gate_def Let_def split: if_splits option.splits)



definition demo_waiting :: SessionManager where
  "demo_waiting = exec (Register 0 (demo_session ''s'')) demo_mgr"

definition demo_page :: "AuthIdentity option \<Rightarrow> WsRequest" where
  "demo_page ident = \<lparr>wr_identity = ident, wr_origin = Some ''https://gw.example:8443/'', wr_host = Some ''GW.example'',
     wr_query = None, wr_ticket_authenticated = False\<rparr>"

definition demo_user :: "string \<Rightarrow> AuthIdentity option" where
  "demo_user name = Some (UserId name [] ''operator'' [])"

definition demo_ws_io :: TicketIo where
  "demo_ws_io = \<lparr>instant = 0, now_utc = 0, stored = True, fetched = True, deleted = True\<rparr>"

definition demo_answer :: "ConnectionParams \<Rightarrow> ConnectOutcome" where
  "demo_answer _ = Some (Inr (demo_stream, ''$3''))"

lemma demo_owner_connects:
  "fst (ws_handler demo_crypto demo_ws_io (\<lambda>_. None) ''f'' (demo_page (demo_user ''alice'')) ''s'' demo_waiting ([], None)) = WsUpgrade"
  "fst (ws_admit demo_crypto 5 demo_answer (\<lambda>_ _ _ _ _. Inl NotFound) ''ip'' 0 None ''s'' demo_waiting None) =
     Some \<lparr>adm_stream = demo_stream, adm_kind = OwnerConn, adm_shadow_token = None\<rparr>"
proof -
  have "(fst (ws_handler demo_crypto demo_ws_io (\<lambda>_. None) ''f'' (demo_page (demo_user ''alice'')) ''s'' demo_waiting ([], None)) = WsUpgrade) \<and>
       (fst (ws_admit demo_crypto 5 demo_answer (\<lambda>_ _ _ _ _. Inl NotFound) ''ip'' 0 None ''s'' demo_waiting None) =
     Some \<lparr>adm_stream = demo_stream, adm_kind = OwnerConn, adm_shadow_token = None\<rparr>)"
    by code_simp
  then show "fst (ws_handler demo_crypto demo_ws_io (\<lambda>_. None) ''f'' (demo_page (demo_user ''alice'')) ''s'' demo_waiting ([], None)) = WsUpgrade" "fst (ws_admit demo_crypto 5 demo_answer (\<lambda>_ _ _ _ _. Inl NotFound) ''ip'' 0 None ''s'' demo_waiting None) =
     Some \<lparr>adm_stream = demo_stream, adm_kind = OwnerConn, adm_shadow_token = None\<rparr>"
    by blast+
qed


text \<open>
  The check of the owner and the hand-out of the stream are two steps. A user without any right
  to the session and without a token passes the first while the session is active; when the
  owner disconnects before the second, the user is given the owner's stream.
\<close>

lemma owner_check_race:
  "let active = run (owner_ops False ''s'') demo_waiting;
       later = run [DisconnectViewer ''s'', OwnerGone ''s'', Disconnect 20 ''s''] active
   in \<not> owner_path_authorized (demo_user ''mallory'') (get_session_creator ''s'' active) \<and>
      fst (ws_handler demo_crypto demo_ws_io (\<lambda>_. None) ''f'' (demo_page (demo_user ''mallory'')) ''s'' active ([], None)) = WsUpgrade \<and>
      fst (ws_handler demo_crypto demo_ws_io (\<lambda>_. None) ''f'' (demo_page (demo_user ''mallory'')) ''s'' later ([], None)) \<noteq> WsUpgrade \<and>
      map_option adm_kind (fst (ws_admit demo_crypto 21 demo_answer (\<lambda>_ _ _ _ _. Inl NotFound) ''ip'' 0 None ''s'' later None)) = Some OwnerConn"
  by code_simp

section \<open>What a connection leaves behind\<close>

lemma error_session_entry:
  "get_entry k (error_session now sid m) =
     (if k = sid then map_option (\<lambda>s. if status s = Error then s else cleaned (s\<lparr>status := Error, guacd_stream := None\<rparr>)) (get_entry sid m)
      else get_entry k m)"
  by (auto simp: error_session_def frame_simps Let_def split: option.splits)

lemma complete_session_entry:
  "get_entry k (complete_session now sid m) =
     (if k = sid then map_option (\<lambda>s. if status s = Active \<or> status s = Disconnected then cleaned (s\<lparr>status := Completed\<rparr>) else s) (get_entry sid m)
      else get_entry k m)"
  by (auto simp: complete_session_def frame_simps Let_def split: option.splits)

lemma disconnect_session_entry:
  "get_entry k (disconnect_session now sid m) =
     (if k = sid then map_option (\<lambda>s. if status s = Active then cleaned (s\<lparr>status := Disconnected, guacd_stream := None\<rparr>) else s) (get_entry sid m)
      else get_entry k m)"
  by (auto simp: disconnect_session_def frame_simps Let_def split: option.splits)

lemma teardown_vdi_entry: "entry_status k (teardown_vdi st sid m) = entry_status k m" "k \<noteq> sid \<Longrightarrow> get_entry k (teardown_vdi st sid m) = get_entry k m"
  by (auto simp: teardown_vdi_def stop_vdi_container_def entry_status_def frame_simps Let_def split: option.splits prod.splits)

lemma teardown_history_entry: "get_entry k (teardown_history pu now el rec e sid m) = get_entry k m"
  by (simp add: teardown_history_def frame_simps)

lemma disconnect_viewer_entry:
  "get_entry k (disconnect_viewer sid m) =
     (if k = sid then map_option (\<lambda>s. s\<lparr>active_connections := saturating_sub (active_connections s) 1\<rparr>) (get_entry sid m)
      else get_entry k m)"
  by (auto simp: disconnect_viewer_def split: option.splits)



definition demo_shared :: SessionManager where
  "demo_shared = run (owner_ops False ''s'' @ [ReserveViewer ''s'' 0]) demo_waiting"

definition demo_refused :: Proxy where
  "demo_refused = (proxy_new False)\<lparr>guacd_loop := Finished None, proxy_result := Some (GuacdEnded None)\<rparr>"

lemma demo_shared_entry: "get_entry ''s'' demo_shared = Some (the (get_entry ''s'' demo_shared))"
  "status (the (get_entry ''s'' demo_shared)) = Active" "active_connections (the (get_entry ''s'' demo_shared)) = 2"
proof -
  have "(get_entry ''s'' demo_shared = Some (the (get_entry ''s'' demo_shared))) \<and>
       (status (the (get_entry ''s'' demo_shared)) = Active) \<and>
       (active_connections (the (get_entry ''s'' demo_shared)) = 2)"
    by code_simp
  then show "get_entry ''s'' demo_shared = Some (the (get_entry ''s'' demo_shared))" "status (the (get_entry ''s'' demo_shared)) = Active" "active_connections (the (get_entry ''s'' demo_shared)) = 2"
    by blast+
qed


text \<open>
  The same end within five seconds is taken for a failure of the session, whoever's connection it
  was: a viewer that guacd turns away puts the session of a connected owner into error.
\<close>

lemma viewer_fails_session:
  "owner_is_connected ''s'' demo_shared"
  "entry_status ''s'' (ws_teardown (\<lambda>_. None) 30 1 False ViewerConn demo_refused ''s'' demo_shared) = Some Error"
proof -
  have "(owner_is_connected ''s'' demo_shared) \<and>
       (entry_status ''s'' (ws_teardown (\<lambda>_. None) 30 1 False ViewerConn demo_refused ''s'' demo_shared) = Some Error)"
    by code_simp
  then show "owner_is_connected ''s'' demo_shared" "entry_status ''s'' (ws_teardown (\<lambda>_. None) 30 1 False ViewerConn demo_refused ''s'' demo_shared) = Some Error"
    by blast+
qed

text \<open>
  The parts of a connection that change the manager are runs of its steps, so that what holds of
  all runs holds for any number of connections in any order.
\<close>

lemma teardown_status_run: "\<exists>ops. snd (teardown_status pu now el st sid m) = run ops m"
proof -
  let ?m = "snd (teardown_status pu now el st sid m)"
  have "?m = error_session now sid m \<or> ?m = complete_session now sid m \<or> ?m = disconnect_session now sid m \<or> ?m = m"
    by (simp add: teardown_status_def split: option.splits)
  then have "?m = run [Fail now sid] m \<or> ?m = run [Complete now sid] m \<or> ?m = run [Disconnect now sid] m \<or> ?m = run [] m"
    by simp
  then show ?thesis by blast
qed

lemma ws_teardown_run: "\<exists>ops. ws_teardown pu now el rec kind st sid m = run ops m"
proof -
  define m2 where "m2 = (if kind = OwnerConn then mark_owner_disconnected sid (disconnect_viewer sid m) else disconnect_viewer sid m)"
  obtain ops2 where 2: "m2 = run ops2 m"
  proof -
    have "m2 = run (DisconnectViewer sid # (if kind = OwnerConn then [OwnerGone sid] else [])) m" by (simp add: m2_def)
    then show thesis by (rule that)
  qed
  obtain ops3 where 3: "snd (teardown_status pu now el st sid m2) = run ops3 m2" using teardown_status_run by blast
  let ?m3 = "run ops3 m2" and ?e = "fst (teardown_status pu now el st sid m2)"
  obtain ops4 where 4: "teardown_vdi st sid ?m3 = run ops4 ?m3"
  proof -
    have "teardown_vdi st sid ?m3 = run [StopVdi sid] ?m3 \<or> teardown_vdi st sid ?m3 = run [] ?m3"
      by (simp add: teardown_vdi_def split: option.splits prod.splits)
    then show thesis using that by blast
  qed
  obtain ops5 where 5: "teardown_history pu now el rec ?e sid (run ops4 ?m3) = run ops5 (run ops4 ?m3)"
  proof -
    have "\<exists>d. teardown_history pu now el rec ?e sid (run ops4 ?m3) = run [EndHistory now sid ?e d rec] (run ops4 ?m3) \<or>
        teardown_history pu now el rec ?e sid (run ops4 ?m3) = run [] (run ops4 ?m3)"
      by (auto simp: teardown_history_def)
    then show thesis using that by blast
  qed
  have "ws_teardown pu now el rec kind st sid m = run ops5 (run ops4 (run ops3 m2))"
    using 3 4 5 by (simp add: ws_teardown_def m2_def Let_def case_prod_beta)
  then have "ws_teardown pu now el rec kind st sid m = run (ops2 @ ops3 @ ops4 @ ops5) m" by (simp add: 2)
  then show ?thesis by blast
qed


lemma ws_admit_run:
  "\<exists>ops. fst (snd (snd (ws_admit cr now guacd join_conn ip cap token sid m database))) = run ops m"
proof -
  obtain r1 m1 where t: "take_guacd_stream now guacd sid m = (r1, m1)" by fastforce
  obtain r2 m2 where r: "reconnect_session now guacd sid m1 = (r2, m2)" by fastforce
  obtain o1 where 1: "m1 = run o1 m" using take_guacd_stream_run [of now guacd sid m] t by auto
  obtain o2 where 2: "m2 = run o2 m1" using reconnect_session_run [of now guacd sid m1] r by auto
  have join: "\<exists>ops. snd (snd (ws_join join_conn cap t ro sid m2)) = run ops m2" for t ro
  proof -
    have "snd (join_session_as_viewer join_conn sid cap ro m2) \<in> {run [ReserveViewer sid cap] m2, run [ReserveViewer sid cap, DisconnectViewer sid] m2}"
      by (auto simp: join_session_as_viewer_def split: prod.splits sum.splits option.splits)
    moreover have "snd (snd (ws_join join_conn cap t ro sid m2)) = snd (join_session_as_viewer join_conn sid cap ro m2)"
      by (simp add: ws_join_def split: prod.splits sum.splits SessionError.splits)
    ultimately show ?thesis unfolding insert_iff empty_iff by metis
  qed
  let ?m = "fst (snd (snd (ws_admit cr now guacd join_conn ip cap token sid m database)))"
  have "?m = m1 \<or> ?m = m2 \<or> (\<exists>t ro. ?m = snd (snd (ws_join join_conn cap t ro sid m2)))"
  proof (cases "r1 = None \<and> r2 = None \<and> token \<noteq> None")
    case False
    with t r show ?thesis by (cases r1; cases r2; cases token) (simp_all add: ws_admit_def)
  next
    case True
    then obtain tok where tok: "token = Some tok" by blast
    have "?m = m2 \<or> ?m = snd (snd (ws_join join_conn cap tok False sid m2)) \<or> ?m = snd (snd (ws_join join_conn cap tok True sid m2))"
      using t r True tok by (cases "validate_share_token cr now sid tok m2") (simp_all add: ws_admit_def Let_def split: prod.splits)
    then show ?thesis by blast
  qed
  then consider "?m = m1" | "?m = m2" | t ro where "?m = snd (snd (ws_join join_conn cap t ro sid m2))" by blast
  then show ?thesis
  proof cases
    case 3
    then obtain ops where "?m = run ops m2" using join by metis
    then have "?m = run (o1 @ o2 @ ops) m" by (simp add: 1 2)
    then show ?thesis by blast
  qed (use 1 2 in \<open>metis run_simps(3)\<close>)+
qed

section \<open>Every transfer of a connection is in the log\<close>

definition transfer_event :: "DateTime \<Rightarrow> Uuid \<Rightarrow> string option \<Rightarrow> TransferAuditEvent \<Rightarrow> AuditEvent" where
  "transfer_event now sid user ev = event_build now
     \<lparr>eb_event_type = (case ta_kind ev of Upload \<Rightarrow> ''session.file.upload'' | Download \<Rightarrow> ''session.file.download''),
      eb_user_id = Some (case user of Some u \<Rightarrow> u | None \<Rightarrow> ''unknown''), eb_source_ip = None,
      eb_outcome = (if ta_error ev then ''error'' else ''success''), eb_details = transfer_details ev, eb_session_id = Some sid\<rparr>"

lemma emit_transfer_audit_log:
  "emit_transfer_audit env now sid user ev (Some d) = Some (log_events env [transfer_event now sid user ev] d)"
  by (simp add: emit_transfer_audit_def fire_def log_events_def transfer_event_def event_builder_new_def Let_def)

definition emit_all ::
    "AuditEnv \<Rightarrow> Uuid \<Rightarrow> string option \<Rightarrow> (DateTime \<times> TransferAuditEvent) list \<Rightarrow> AuditDb option \<Rightarrow> AuditDb option" where
  "emit_all env sid user evs database = fold (\<lambda>(now, ev). emit_transfer_audit env now sid user ev) evs database"

lemma emit_all_log:
  "emit_all env sid user evs (Some d) = Some (log_events env (map (\<lambda>(now, ev). transfer_event now sid user ev) evs) d)"
  by (induction evs arbitrary: d) (auto simp: emit_all_def emit_transfer_audit_log log_events_def)




definition demo_upload :: TransferAuditEvent where
  "demo_upload = \<lparr>ta_kind = Upload, ta_filename = ''a.txt'', ta_mimetype = ''text/plain'', ta_size = 11, ta_error = False\<rparr>"

definition demo_upload_libs :: AuditEnv where
  "demo_upload_libs = demo_libs\<lparr>json_parse := (\<lambda>s. if s = demo_json (transfer_details demo_upload) then Some (transfer_details demo_upload) else None)\<rparr>"

definition demo_upload_run :: "(TransferDirection \<times> Instruction) list" where
  "demo_upload_run = (BrowserToGuacd, file_instr ''1'' ''text/plain'' ''a.txt'') # demo_transfer @ [(BrowserToGuacd, end_instr ''1'')]"

lemma demo_upload_audits: "audits (transfer_run demo_upload_run (proxy_new False)) = [demo_upload]"
  by code_simp

lemma demo_upload_reads: "env_reads demo_upload_libs (transfer_event 7 ''s'' (Some ''alice'') demo_upload)"
  by code_simp


end
