(* ===== verification/Secret_Values.thy ===== *)
theory Secret_Values
  imports Text_Util
begin

text \<open>
  Encryption at rest (\<open>src/src/crypto.rs\<close>): the storage key, the \<open>enc:v1:\<close> texts and raw blobs.
  AES-256-GCM, base64 and hexadecimal come from crates and are parameters; the random nonce of an
  encryption is an argument.
\<close>

section \<open>Keys, errors and values\<close>

type_synonym EncryptionKey = string

datatype CryptoError =
    InvalidEncryptionKey string
  | InvalidCiphertext string
  | EncryptionFailed string
  | DecryptionFailed string

fun show_crypto_error :: "CryptoError \<Rightarrow> string" where
  "show_crypto_error (InvalidEncryptionKey e) = ''invalid encryption key: '' @ e"
| "show_crypto_error (InvalidCiphertext e) = ''ciphertext format invalid: '' @ e"
| "show_crypto_error (EncryptionFailed e) = ''encryption failed: '' @ e"
| "show_crypto_error (DecryptionFailed e) = ''decryption failed: '' @ e"

record CipherLib =
  hex_bytes :: "string \<Rightarrow> (string, string) result"
  b64_encode :: "string \<Rightarrow> string"
  b64_decode :: "string \<Rightarrow> (string, string) result"
  aes_encrypt :: "string \<Rightarrow> string \<Rightarrow> string \<Rightarrow> (string, string) result"
  aes_decrypt :: "string \<Rightarrow> string \<Rightarrow> string \<Rightarrow> (string, string) result"
  utf8_error :: "string \<Rightarrow> string"

definition NONCE_LEN :: nat where
  "NONCE_LEN = 12"

definition TAG_LEN :: nat where
  "TAG_LEN = 16"

definition ENC_PREFIX :: string where
  "ENC_PREFIX = ''enc:v1:''"

definition key_from_hex :: "CipherLib \<Rightarrow> string \<Rightarrow> (EncryptionKey, CryptoError) result" where
  "key_from_hex lib hex_str =
     (case hex_bytes lib hex_str of
        Inl e \<Rightarrow> Inl (InvalidEncryptionKey e)
      | Inr bytes \<Rightarrow>
          if length bytes \<noteq> 32
          then Inl (InvalidEncryptionKey (''encryption key must be 32 bytes (got '' @ show_nat (length bytes) @ '')''))
          else Inr bytes)"

definition encrypt_value ::
    "CipherLib \<Rightarrow> string \<Rightarrow> EncryptionKey \<Rightarrow> string \<Rightarrow> (string, CryptoError) result" where
  "encrypt_value lib nonce key plaintext =
     (case aes_encrypt lib key nonce plaintext of
        Inl e \<Rightarrow> Inl (DecryptionFailed e)
      | Inr ciphertext \<Rightarrow> Inr (ENC_PREFIX @ b64_encode lib (nonce @ ciphertext)))"

definition decrypt_value :: "CipherLib \<Rightarrow> EncryptionKey \<Rightarrow> string \<Rightarrow> (string, CryptoError) result" where
  "decrypt_value lib key encrypted =
     (case strip_prefix ENC_PREFIX encrypted of
        None \<Rightarrow> Inl (InvalidCiphertext ''missing enc:v1: prefix'')
      | Some b64 \<Rightarrow>
          (case b64_decode lib b64 of
             Inl e \<Rightarrow> Inl (InvalidCiphertext e)
           | Inr raw \<Rightarrow>
               if length raw < NONCE_LEN + TAG_LEN
               then Inl (InvalidCiphertext (''encoded data too short ('' @ show_nat (length raw) @ '' bytes, need at least '' @
                      show_nat (NONCE_LEN + TAG_LEN) @ '')''))
               else (case aes_decrypt lib key (take NONCE_LEN raw) (drop NONCE_LEN raw) of
                       Inl e \<Rightarrow> Inl (DecryptionFailed e)
                     | Inr plaintext \<Rightarrow>
                         if utf8_valid plaintext then Inr plaintext
                         else Inl (DecryptionFailed (''invalid UTF-8: '' @ utf8_error lib plaintext)))))"

definition encrypt_bytes ::
    "CipherLib \<Rightarrow> string \<Rightarrow> EncryptionKey \<Rightarrow> string \<Rightarrow> (string, CryptoError) result" where
  "encrypt_bytes lib nonce key plaintext =
     (case aes_encrypt lib key nonce plaintext of
        Inl e \<Rightarrow> Inl (EncryptionFailed e)
      | Inr ciphertext \<Rightarrow> Inr (nonce @ ciphertext))"

definition decrypt_bytes :: "CipherLib \<Rightarrow> EncryptionKey \<Rightarrow> string \<Rightarrow> (string, CryptoError) result" where
  "decrypt_bytes lib key input =
     (if length input < NONCE_LEN + TAG_LEN
      then Inl (DecryptionFailed (''data too short ('' @ show_nat (length input) @ '' bytes, need at least '' @
             show_nat (NONCE_LEN + TAG_LEN) @ '')''))
      else case aes_decrypt lib key (take NONCE_LEN input) (drop NONCE_LEN input) of
             Inl e \<Rightarrow> Inl (DecryptionFailed e)
           | Inr plaintext \<Rightarrow> Inr plaintext)"

definition is_encrypted :: "string \<Rightarrow> bool" where
  "is_encrypted v = (strip_prefix ENC_PREFIX v \<noteq> None)"

section \<open>What is encrypted is read back\<close>

text \<open>
  What the crates promise: base64 reads its own output back; AES-GCM appends its tag, opens what
  it sealed under the same key and nonce, and opens nothing else: a blob that opens was sealed
  from the plaintext it opens to.
\<close>

definition cipher_laws :: "CipherLib \<Rightarrow> bool" where
  "cipher_laws lib \<longleftrightarrow>
     (\<forall>s. b64_decode lib (b64_encode lib s) = Inr s) \<and>
     (\<forall>k n p c. aes_encrypt lib k n p = Inr c \<longrightarrow> length c = length p + TAG_LEN \<and> aes_decrypt lib k n c = Inr p) \<and>
     (\<forall>k n c p. aes_decrypt lib k n c = Inr p \<longrightarrow> aes_encrypt lib k n p = Inr c)"

lemma encrypt_bytes_Inr: "encrypt_bytes lib nonce key p = Inr c \<longleftrightarrow> (\<exists>ct. aes_encrypt lib key nonce p = Inr ct \<and> c = nonce @ ct)"
  by (cases "aes_encrypt lib key nonce p") (auto simp: encrypt_bytes_def)

lemma encrypt_value_Inr:
  "encrypt_value lib nonce key p = Inr v \<longleftrightarrow>
     (\<exists>ct. aes_encrypt lib key nonce p = Inr ct \<and> v = ENC_PREFIX @ b64_encode lib (nonce @ ct))"
  by (cases "aes_encrypt lib key nonce p") (auto simp: encrypt_value_def)

lemma cipher_lawsD:
  assumes "cipher_laws lib"
  shows "b64_decode lib (b64_encode lib s) = Inr s"
    "aes_encrypt lib k n p = Inr c \<Longrightarrow> length c = length p + TAG_LEN"
    "aes_encrypt lib k n p = Inr c \<Longrightarrow> aes_decrypt lib k n c = Inr p"
    "aes_decrypt lib k n c = Inr p \<Longrightarrow> aes_encrypt lib k n p = Inr c"
  using assms unfolding cipher_laws_def by blast+

lemma decrypt_encrypt_bytes:
  assumes "cipher_laws lib" "length nonce = NONCE_LEN" "encrypt_bytes lib nonce key p = Inr c"
  shows "decrypt_bytes lib key c = Inr p"
proof -
  obtain ct where ct: "aes_encrypt lib key nonce p = Inr ct" "c = nonce @ ct"
    using assms(3) by (auto simp: encrypt_bytes_Inr)
  with cipher_lawsD(2,3) [OF assms(1) ct(1)] assms(2) show ?thesis by (simp add: decrypt_bytes_def)
qed

text \<open>
  A secret stored at rest is read back and cannot be swapped for another: what
  \<open>encrypt_value\<close> returns is marked as encrypted and \<open>decrypt_value\<close> under the same key gives the
  plaintext; and a text that decrypts under a key is the encryption, with the nonce it carries, of
  the plaintext it gives.
\<close>

theorem encrypted_values_read_back:
  assumes "cipher_laws lib" "length nonce = NONCE_LEN" "utf8_valid p" "encrypt_value lib nonce key p = Inr v"
  shows "is_encrypted v \<and> decrypt_value lib key v = Inr p \<and>
    (decrypt_value lib key w = Inr q \<longrightarrow>
       (\<exists>b raw. w = ENC_PREFIX @ b \<and> b64_decode lib b = Inr raw \<and>
         encrypt_bytes lib (take NONCE_LEN raw) key q = Inr raw))"
proof -
  obtain ct where ct: "aes_encrypt lib key nonce p = Inr ct" "v = ENC_PREFIX @ b64_encode lib (nonce @ ct)"
    using assms(4) by (auto simp: encrypt_value_Inr)
  then have "strip_prefix ENC_PREFIX v = Some (b64_encode lib (nonce @ ct))" by (simp add: strip_prefix_Some)
  then have "is_encrypted v" "decrypt_value lib key v = Inr p"
    using cipher_lawsD(2,3) [OF assms(1) ct(1)] assms(2,3)
    by (simp_all add: is_encrypted_def decrypt_value_def cipher_lawsD(1) [OF assms(1)])
  moreover have "\<exists>b raw. w = ENC_PREFIX @ b \<and> b64_decode lib b = Inr raw \<and>
         encrypt_bytes lib (take NONCE_LEN raw) key q = Inr raw" if w: "decrypt_value lib key w = Inr q"
  proof -
    obtain b raw where b: "strip_prefix ENC_PREFIX w = Some b" "b64_decode lib b = Inr raw"
        "aes_decrypt lib key (take NONCE_LEN raw) (drop NONCE_LEN raw) = Inr q"
      using w by (auto simp: decrypt_value_def split: option.splits sum.splits if_splits)
    have "encrypt_bytes lib (take NONCE_LEN raw) key q = Inr raw"
      using cipher_lawsD(4) [OF assms(1) b(3)] by (simp add: encrypt_bytes_Inr)
    moreover have "w = ENC_PREFIX @ b" using b(1) by (simp add: strip_prefix_Some)
    ultimately show ?thesis using b(2) by blast
  qed
  ultimately show ?thesis by blast
qed

text \<open>A cipher with these laws, for the witness: the tag repeats the lengths and the nonce.\<close>

definition demo_tag :: "string \<Rightarrow> string \<Rightarrow> string" where
  "demo_tag k n = take 16 (k @ n @ replicate 16 CHR ''t'')"

definition demo_cipher :: CipherLib where
  "demo_cipher = \<lparr>hex_bytes = Inr, b64_encode = rev, b64_decode = (\<lambda>s. Inr (rev s)),
     aes_encrypt = (\<lambda>k n p. Inr (p @ demo_tag k n)),
     aes_decrypt = (\<lambda>k n c. let p = take (length c - 16) c
        in if c = p @ demo_tag k n then Inr p else Inl ''aead::Error''),
     utf8_error = (\<lambda>_. [])\<rparr>"

lemma demo_cipher_laws: "cipher_laws demo_cipher"
  by (auto simp: cipher_laws_def demo_cipher_def demo_tag_def Let_def TAG_LEN_def split: if_splits)

theorem encrypted_values_read_back_witness:
  "\<exists>v. encrypt_value demo_cipher ''nonce-------'' ''key'' ''secret'' = Inr v \<and>
     is_encrypted v \<and> decrypt_value demo_cipher ''key'' v = Inr ''secret''"
proof -
  let ?v = "ENC_PREFIX @ rev (''nonce-------'' @ ''secret'' @ demo_tag ''key'' ''nonce-------'')"
  have v: "encrypt_value demo_cipher ''nonce-------'' ''key'' ''secret'' = Inr ?v"
    by (simp add: encrypt_value_def demo_cipher_def)
  have u: "utf8_valid ''secret''" by code_simp
  have n: "length ''nonce-------'' = NONCE_LEN" by (simp add: NONCE_LEN_def)
  from encrypted_values_read_back [OF demo_cipher_laws n u v] v show ?thesis by blast
qed

text \<open>An encryption that fails is reported as a failed decryption.\<close>

lemma encrypt_value_error:
  "encrypt_value lib nonce key p = Inl e \<Longrightarrow> \<exists>m. e = DecryptionFailed m"
  by (cases "aes_encrypt lib key nonce p") (auto simp: encrypt_value_def)

end
