(* ===== verification/Mfa_Store.thy ===== *)
theory Mfa_Store
  imports Auth_Store
begin

text \<open>
  The second factor of a login: the TOTP secrets and the pending logins of \<open>src/src/db.rs\<close> and the
  code checks of \<open>src/src/totp.rs\<close>. What the \<open>totp-rs\<close> crate computes (base32, the codes of a
  time, URLs and QR images) is a parameter. As in \<open>Auth_Store\<close> the tables are lists of rows, and
  the times the database writes are seconds.
\<close>

section \<open>The library and its configuration\<close>

datatype Algorithm = SHA1 | SHA256 | SHA512

record Totp =
  totp_algorithm :: Algorithm
  totp_digits :: "8 word"
  totp_skew :: "16 word"
  totp_step :: "64 word"
  totp_secret :: string
  totp_issuer :: "string option"
  totp_account :: string

text \<open>\<open>builder_new\<close> has the defaults of the crate; \<open>totp_build\<close> checks the parameters.\<close>

record TotpLib =
  from_base32 :: "string \<Rightarrow> string option"
  to_base32 :: "string \<Rightarrow> string"
  builder_new :: Totp
  totp_build :: "Totp \<Rightarrow> (Totp, string) result"
  totp_to_url :: "Totp \<Rightarrow> (string, string) result"
  totp_to_qr_png :: "Totp \<Rightarrow> (string, string) result"
  check_current :: "Totp \<Rightarrow> DateTime \<Rightarrow> string \<Rightarrow> bool"

datatype TotpEnforcement = EnforceOff | AdminsOnly | EnforceAll

fun show_enforcement :: "TotpEnforcement \<Rightarrow> string" where
  "show_enforcement EnforceOff = ''Off''"
| "show_enforcement AdminsOnly = ''AdminsOnly''"
| "show_enforcement EnforceAll = ''All''"

record TotpConfig =
  tc_issuer :: string
  tc_digits :: "8 word"
  tc_period :: "16 word"
  tc_algorithm :: Algorithm
  tc_skew :: "8 word"
  tc_enforcement :: TotpEnforcement

definition totp_config_default :: TotpConfig where
  "totp_config_default = \<lparr>tc_issuer = ''Persea'', tc_digits = 6, tc_period = 30, tc_algorithm = SHA1, tc_skew = 1,
     tc_enforcement = EnforceOff\<rparr>"

record TotpEnrollment =
  en_secret_b32 :: string
  en_otpauth_url :: string
  en_qr_png :: string

datatype TotpError = Generation string | QrCode string | TotpDatabase string

fun show_totp_error :: "TotpError \<Rightarrow> string" where
  "show_totp_error (Generation e) = ''TOTP generation failed: '' @ e"
| "show_totp_error (QrCode e) = ''QR code generation failed: '' @ e"
| "show_totp_error (TotpDatabase e) = ''Database error: '' @ e"

section \<open>The tables\<close>

record TotpSecret =
  ts_user_id :: int
  ts_secret_b32 :: string
  ts_algorithm :: string
  ts_digits :: "8 word"
  ts_period :: "16 word"
  ts_enabled :: bool

record PendingMfa =
  pm_user_id :: int
  pm_user_email :: string
  pm_user_name :: string
  pm_user_role :: string
  pm_oidc_subject :: "string option"
  pm_desktop :: bool
  pm_created_at :: RegistryTs
  pm_expires_at :: RegistryTs

record MfaDb =
  totp_secrets :: "TotpSecret list"
  auth_pending_mfa :: "(string \<times> PendingMfa) list"

definition mfa_db_new :: MfaDb where
  "mfa_db_new = \<lparr>totp_secrets = [], auth_pending_mfa = []\<rparr>"

definition store_totp_secret :: "int \<Rightarrow> string \<Rightarrow> string \<Rightarrow> 8 word \<Rightarrow> 16 word \<Rightarrow> MfaDb \<Rightarrow> MfaDb" where
  "store_totp_secret uid secret alg digits period d =
     (let row = \<lparr>ts_user_id = uid, ts_secret_b32 = secret, ts_algorithm = alg, ts_digits = digits,
            ts_period = period, ts_enabled = True\<rparr>
      in if list_ex (\<lambda>s. ts_user_id s = uid) (totp_secrets d)
         then d\<lparr>totp_secrets := map (\<lambda>s. if ts_user_id s = uid then row else s) (totp_secrets d)\<rparr>
         else d\<lparr>totp_secrets := totp_secrets d @ [row]\<rparr>)"

definition get_totp_secret :: "int \<Rightarrow> MfaDb \<Rightarrow> TotpSecret option" where
  "get_totp_secret uid d = find (\<lambda>s. ts_user_id s = uid) (totp_secrets d)"

definition set_totp_enabled :: "int \<Rightarrow> bool \<Rightarrow> MfaDb \<Rightarrow> bool \<times> MfaDb" where
  "set_totp_enabled uid b d =
     (list_ex (\<lambda>s. ts_user_id s = uid) (totp_secrets d),
      d\<lparr>totp_secrets := map (\<lambda>s. if ts_user_id s = uid then s\<lparr>ts_enabled := b\<rparr> else s) (totp_secrets d)\<rparr>)"

definition delete_totp_secret :: "int \<Rightarrow> MfaDb \<Rightarrow> bool \<times> MfaDb" where
  "delete_totp_secret uid d =
     (list_ex (\<lambda>s. ts_user_id s = uid) (totp_secrets d),
      d\<lparr>totp_secrets := filter (\<lambda>s. ts_user_id s \<noteq> uid) (totp_secrets d)\<rparr>)"

definition user_totp_enabled :: "int \<Rightarrow> MfaDb \<Rightarrow> bool" where
  "user_totp_enabled uid d = (case get_totp_secret uid d of None \<Rightarrow> False | Some s \<Rightarrow> ts_enabled s)"

text \<open>\<open>token\<close> is the random key of \<open>generate_key\<close>; its hash is the primary key of the table.\<close>

definition create_pending_mfa_inner ::
    "Crypto \<Rightarrow> DateTime \<Rightarrow> string \<Rightarrow> int \<Rightarrow> string \<Rightarrow> string \<Rightarrow> string \<Rightarrow> string option \<Rightarrow> nat \<Rightarrow> bool \<Rightarrow> MfaDb \<Rightarrow>
     string option \<times> MfaDb" where
  "create_pending_mfa_inner cr now token uid email name role subject ttl_secs desktop d =
     (if list_ex (\<lambda>(h, _). h = hash_key cr token) (auth_pending_mfa d) then (None, d)
      else (Some token,
            d\<lparr>auth_pending_mfa := auth_pending_mfa d @
                [(hash_key cr token,
                  \<lparr>pm_user_id = uid, pm_user_email = email, pm_user_name = name, pm_user_role = role,
                   pm_oidc_subject = subject, pm_desktop = desktop, pm_created_at = registry_ts now,
                   pm_expires_at = registry_ts now + int ttl_secs\<rparr>)]\<rparr>))"

definition create_pending_mfa ::
    "Crypto \<Rightarrow> DateTime \<Rightarrow> string \<Rightarrow> int \<Rightarrow> string \<Rightarrow> string \<Rightarrow> string \<Rightarrow> string option \<Rightarrow> nat \<Rightarrow> MfaDb \<Rightarrow>
     string option \<times> MfaDb" where
  "create_pending_mfa cr now token uid email name role subject ttl_secs =
     create_pending_mfa_inner cr now token uid email name role subject ttl_secs False"

definition create_pending_mfa_desktop ::
    "Crypto \<Rightarrow> DateTime \<Rightarrow> string \<Rightarrow> int \<Rightarrow> string \<Rightarrow> string \<Rightarrow> string \<Rightarrow> string option \<Rightarrow> nat \<Rightarrow> MfaDb \<Rightarrow>
     string option \<times> MfaDb" where
  "create_pending_mfa_desktop cr now token uid email name role subject ttl_secs =
     create_pending_mfa_inner cr now token uid email name role subject ttl_secs True"

definition get_pending_mfa :: "Crypto \<Rightarrow> DateTime \<Rightarrow> string \<Rightarrow> MfaDb \<Rightarrow> PendingMfa option" where
  "get_pending_mfa cr now token d =
     map_option snd (find (\<lambda>(h, p). h = hash_key cr token \<and> registry_ts now < pm_expires_at p) (auth_pending_mfa d))"

definition delete_pending_mfa :: "Crypto \<Rightarrow> string \<Rightarrow> MfaDb \<Rightarrow> bool \<times> MfaDb" where
  "delete_pending_mfa cr token d =
     (list_ex (\<lambda>(h, _). h = hash_key cr token) (auth_pending_mfa d),
      d\<lparr>auth_pending_mfa := filter (\<lambda>(h, _). h \<noteq> hash_key cr token) (auth_pending_mfa d)\<rparr>)"

definition cleanup_expired_pending_mfa :: "DateTime \<Rightarrow> MfaDb \<Rightarrow> nat \<times> MfaDb" where
  "cleanup_expired_pending_mfa now d =
     (length (filter (\<lambda>(_, p). pm_expires_at p \<le> registry_ts now) (auth_pending_mfa d)),
      d\<lparr>auth_pending_mfa := filter (\<lambda>(_, p). registry_ts now < pm_expires_at p) (auth_pending_mfa d)\<rparr>)"

section \<open>Codes\<close>

definition algorithm_from_str :: "string \<Rightarrow> Algorithm" where
  "algorithm_from_str s = (if s = ''SHA256'' then SHA256 else if s = ''SHA512'' then SHA512 else SHA1)"

text \<open>\<open>secret\<close> is the random secret of \<open>Secret::generate\<close>.\<close>

definition generate_enrollment ::
    "TotpLib \<Rightarrow> string \<Rightarrow> string \<Rightarrow> string \<Rightarrow> (TotpEnrollment, TotpError) result" where
  "generate_enrollment lib secret user_email issuer =
     (case totp_build lib ((builder_new lib)\<lparr>totp_algorithm := SHA1, totp_digits := 6, totp_skew := 1, totp_step := 30,
             totp_secret := secret, totp_issuer := Some issuer, totp_account := user_email\<rparr>) of
        Inl e \<Rightarrow> Inl (Generation e)
      | Inr totp \<Rightarrow>
          (case totp_to_url lib totp of
             Inl e \<Rightarrow> Inl (Generation e)
           | Inr link \<Rightarrow>
               (case totp_to_qr_png lib totp of
                  Inl e \<Rightarrow> Inl (QrCode e)
                | Inr png \<Rightarrow> Inr \<lparr>en_secret_b32 = to_base32 lib secret, en_otpauth_url = link, en_qr_png = png\<rparr>)))"

definition verify_code ::
    "TotpLib \<Rightarrow> DateTime \<Rightarrow> string \<Rightarrow> string \<Rightarrow> Algorithm \<Rightarrow> 8 word \<Rightarrow> 16 word \<Rightarrow> 8 word \<Rightarrow> bool" where
  "verify_code lib now secret_b32 code alg digits period skew =
     (case from_base32 lib secret_b32 of
        None \<Rightarrow> False
      | Some secret \<Rightarrow>
          (case totp_build lib ((builder_new lib)\<lparr>totp_algorithm := alg, totp_digits := digits, totp_skew := ucast skew,
                  totp_step := ucast period, totp_secret := secret\<rparr>) of
             Inl _ \<Rightarrow> False
           | Inr totp \<Rightarrow> check_current lib totp now code))"

definition secret_accepts :: "TotpLib \<Rightarrow> DateTime \<Rightarrow> 8 word \<Rightarrow> string \<Rightarrow> TotpSecret \<Rightarrow> bool" where
  "secret_accepts lib now skew code s =
     verify_code lib now (ts_secret_b32 s) code (algorithm_from_str (ts_algorithm s)) (ts_digits s) (ts_period s) skew"

definition verify_user_code :: "TotpLib \<Rightarrow> DateTime \<Rightarrow> int \<Rightarrow> string \<Rightarrow> 8 word \<Rightarrow> MfaDb \<Rightarrow> bool" where
  "verify_user_code lib now uid code skew d =
     (case get_totp_secret uid d of
        None \<Rightarrow> False
      | Some s \<Rightarrow> if ts_enabled s then secret_accepts lib now skew code s else False)"

section \<open>The tables, one user at a time\<close>

lemma find_map_same:
  "(\<And>x. P (f x) = P x) \<Longrightarrow> find P (map f xs) = map_option f (find P xs)"
  by (induction xs) auto

lemma find_append_new: "find P (xs @ ys) = (case find P xs of None \<Rightarrow> find P ys | Some x \<Rightarrow> Some x)"
  by (induction xs) auto

lemma find_filter_imp: "(\<And>x. P x \<Longrightarrow> Q x) \<Longrightarrow> find P (filter Q xs) = find P xs"
  by (induction xs) auto

lemma list_ex_find: "list_ex P xs \<longleftrightarrow> find P xs \<noteq> None"
  by (induction xs) auto

lemma get_store_totp_secret:
  "get_totp_secret v (store_totp_secret uid secret alg digits period d) =
     (if v = uid then Some \<lparr>ts_user_id = uid, ts_secret_b32 = secret, ts_algorithm = alg, ts_digits = digits,
            ts_period = period, ts_enabled = True\<rparr> else get_totp_secret v d)"
proof (cases "list_ex (\<lambda>s. ts_user_id s = uid) (totp_secrets d)")
  case True
  then show ?thesis
    by (auto simp: store_totp_secret_def get_totp_secret_def Let_def find_map_same list_ex_find
        map_option_case dest: find_SomeD split: option.splits)
next
  case False
  then show ?thesis
    by (auto simp: store_totp_secret_def get_totp_secret_def Let_def find_append_new list_ex_find
        split: option.splits)
qed

lemma get_set_totp_enabled:
  "get_totp_secret v (snd (set_totp_enabled uid b d)) =
     (if v = uid then map_option (\<lambda>s. s\<lparr>ts_enabled := b\<rparr>) (get_totp_secret v d) else get_totp_secret v d)"
  by (auto simp: set_totp_enabled_def get_totp_secret_def find_map_same map_option_case
      dest: find_SomeD split: option.splits)

lemma get_delete_totp_secret:
  "get_totp_secret v (snd (delete_totp_secret uid d)) = (if v = uid then None else get_totp_secret v d)"
  by (auto simp: delete_totp_secret_def get_totp_secret_def find_None_iff intro: find_filter_imp)

lemma pending_frames [simp]:
  "auth_pending_mfa (store_totp_secret uid secret alg digits period d) = auth_pending_mfa d"
  "auth_pending_mfa (snd (set_totp_enabled uid b d)) = auth_pending_mfa d"
  "auth_pending_mfa (snd (delete_totp_secret uid d)) = auth_pending_mfa d"
  by (simp_all add: store_totp_secret_def set_totp_enabled_def delete_totp_secret_def Let_def)

lemma secrets_frames [simp]:
  "totp_secrets (snd (create_pending_mfa_inner cr now token uid email name role subject ttl desktop d)) = totp_secrets d"
  "totp_secrets (snd (delete_pending_mfa cr token d)) = totp_secrets d"
  by (simp_all add: create_pending_mfa_inner_def delete_pending_mfa_def)

text \<open>A pending login is found by its token until it expires, and no longer once it is deleted.\<close>

lemma get_created_pending:
  assumes "create_pending_mfa_inner cr now token uid email name role subject ttl desktop d = (Some tok, d')"
  shows "get_pending_mfa cr t tok d' =
     (if registry_ts t < registry_ts now + int ttl
      then Some \<lparr>pm_user_id = uid, pm_user_email = email, pm_user_name = name, pm_user_role = role,
        pm_oidc_subject = subject, pm_desktop = desktop, pm_created_at = registry_ts now,
        pm_expires_at = registry_ts now + int ttl\<rparr>
      else None)"
  using assms
  by (auto simp: create_pending_mfa_inner_def get_pending_mfa_def find_append_new list_ex_iff find_None_iff
      split: if_splits option.splits dest!: find_SomeD)

lemma get_deleted_pending: "get_pending_mfa cr t tok (snd (delete_pending_mfa cr tok d)) = None"
  by (auto simp: delete_pending_mfa_def get_pending_mfa_def find_None_iff)

lemma get_pending_Some:
  "get_pending_mfa cr t tok d = Some p \<Longrightarrow> (hash_key cr tok, p) \<in> set (auth_pending_mfa d) \<and> registry_ts t < pm_expires_at p"
  by (auto simp: get_pending_mfa_def dest: find_SomeD)

end
