(* ===== verification/Passwords.thy ===== *)
theory Passwords
  imports Mfa_Store Identity
begin

text \<open>
  Passwords of local accounts (\<open>src/src/password.rs\<close> and their lookups in \<open>src/src/db.rs\<close>): the
  policy, the history that forbids reuse, the change by the user (\<open>src/src/handlers/account.rs\<close>)
  and the reset on the command line (\<open>src/src/main.rs\<close>). Argon2id is a parameter; the salt of a
  hash is an argument. The history is in the order of its AUTOINCREMENT ids.
\<close>

section \<open>Hashes and the policy\<close>

record PwLib =
  phc_error :: "string \<Rightarrow> string option"
  argon2_verify :: "string \<Rightarrow> string \<Rightarrow> bool"
  argon2_hash :: "string \<Rightarrow> string \<Rightarrow> (string, string) result"

definition hash_password :: "PwLib \<Rightarrow> string \<Rightarrow> string \<Rightarrow> (string, string) result" where
  "hash_password lib salt password = argon2_hash lib salt password"

definition verify_password :: "PwLib \<Rightarrow> string \<Rightarrow> string \<Rightarrow> (bool, string) result" where
  "verify_password lib password h =
     (case phc_error lib h of Some e \<Rightarrow> Inl e | None \<Rightarrow> Inr (argon2_verify lib password h))"

text \<open>What the library promises: a hash is a readable text that accepts its own password.\<close>

definition pw_laws :: "PwLib \<Rightarrow> bool" where
  "pw_laws lib \<longleftrightarrow> (\<forall>salt p h. argon2_hash lib salt p = Inr h \<longrightarrow> h \<noteq> [] \<and> phc_error lib h = None \<and> argon2_verify lib p h)"

record PasswordPolicy =
  min_length :: nat
  history :: nat

definition password_policy_default :: PasswordPolicy where
  "password_policy_default = \<lparr>min_length = 15, history = 5\<rparr>"

definition check_length :: "PasswordPolicy \<Rightarrow> string \<Rightarrow> (unit, string) result" where
  "check_length policy password =
     (if length (chars password) < min_length policy
      then Inl (''password must be at least '' @ show_nat (min_length policy) @ '' characters long'')
      else Inr ())"

section \<open>The history\<close>

record PasswordRow =
  ph_id :: int
  ph_user_id :: int
  ph_password_hash :: string
  ph_created_at :: DateTime

record AccountDb =
  acc_auth :: AuthDb
  acc_history :: "PasswordRow list"
  acc_history_seq :: int

definition recent_password_hashes :: "int \<Rightarrow> nat \<Rightarrow> AccountDb \<Rightarrow> string list" where
  "recent_password_hashes uid keep d =
     (if keep = 0 then []
      else take keep (map ph_password_hash (rev (filter (\<lambda>r. ph_user_id r = uid) (acc_history d)))))"

definition password_is_recent :: "PwLib \<Rightarrow> int \<Rightarrow> string \<Rightarrow> nat \<Rightarrow> AccountDb \<Rightarrow> bool" where
  "password_is_recent lib uid password keep d =
     list_ex (\<lambda>h. verify_password lib password h = Inr True) (recent_password_hashes uid keep d)"

text \<open>The insert, then the deletion of all but the newest \<open>keep\<close> rows of the user.\<close>

definition newest_ids :: "int \<Rightarrow> nat \<Rightarrow> PasswordRow list \<Rightarrow> int list" where
  "newest_ids uid keep rows = take keep (map ph_id (rev (filter (\<lambda>r. ph_user_id r = uid) rows)))"

definition record_password_history :: "DateTime \<Rightarrow> int \<Rightarrow> string \<Rightarrow> nat \<Rightarrow> AccountDb \<Rightarrow> AccountDb" where
  "record_password_history now uid h keep d =
     (if keep = 0 then d
      else let rows = acc_history d @
                 [\<lparr>ph_id = acc_history_seq d + 1, ph_user_id = uid, ph_password_hash = h, ph_created_at = now\<rparr>]
           in d\<lparr>acc_history := filter (\<lambda>r. ph_user_id r \<noteq> uid \<or> ph_id r \<in> set (newest_ids uid keep rows)) rows,
                acc_history_seq := acc_history_seq d + 1\<rparr>)"

definition update_user_password_hash :: "int \<Rightarrow> string \<Rightarrow> AccountDb \<Rightarrow> AccountDb" where
  "update_user_password_hash uid h d =
     d\<lparr>acc_auth := (acc_auth d)\<lparr>users := map (\<lambda>(u, p). (u, if u_id u = uid then Some h else p)) (users (acc_auth d))\<rparr>\<rparr>"

section \<open>Lookups\<close>

definition get_user_login_info :: "string \<Rightarrow> AuthDb \<Rightarrow> (int \<times> string \<times> string \<times> string \<times> bool \<times> string option) option" where
  "get_user_login_info email d =
     map_option (\<lambda>(u, h). (u_id u, u_email u, u_name u, u_role u, u_disabled u, h))
       (find (\<lambda>(u, _). u_email u = email) (users d))"

definition get_user_auth_source :: "string \<Rightarrow> AuthDb \<Rightarrow> string option" where
  "get_user_auth_source email d = map_option u_auth_source (get_user_by_email email d)"

definition touch_user_last_login :: "DateTime \<Rightarrow> int \<Rightarrow> AuthDb \<Rightarrow> AuthDb" where
  "touch_user_last_login now uid d =
     d\<lparr>users := map (\<lambda>(u, h). (if u_id u = uid then u\<lparr>u_last_login_at := Some (registry_ts now)\<rparr> else u, h)) (users d)\<rparr>"

section \<open>Changing a password\<close>

text \<open>
  The part of \<open>change_password\<close> that runs in one blocking task: the check of the current password,
  the check of the history, and the writes.
\<close>

definition current_password_valid :: "PwLib \<Rightarrow> string \<Rightarrow> string option \<Rightarrow> (bool, string) result" where
  "current_password_valid lib current stored_hash =
     (case stored_hash of
        Some h \<Rightarrow> if h \<noteq> [] then verify_password lib current h else Inr False
      | None \<Rightarrow> Inr False)"

definition replace_password ::
    "PwLib \<Rightarrow> DateTime \<Rightarrow> string \<Rightarrow> nat \<Rightarrow> string \<Rightarrow> string \<Rightarrow> string \<Rightarrow> AccountDb \<Rightarrow> (unit, AppError) result \<times> AccountDb" where
  "replace_password lib now salt keep email current new_password d =
     (case get_user_login_info email (acc_auth d) of
        None \<Rightarrow> (Inl (AppSession ''user not found''), d)
      | Some (uid, _, _, _, _, stored_hash) \<Rightarrow>
          (case current_password_valid lib current stored_hash of
             Inl e \<Rightarrow> (Inl (AppInternal e), d)
           | Inr valid \<Rightarrow>
               if \<not> valid then (Inl (AppValidation ''current password is incorrect''), d)
               else if password_is_recent lib uid new_password keep d
               then (Inl (AppValidation (''password must differ from your last '' @ show_nat keep @ '' passwords'')), d)
               else (case hash_password lib salt new_password of
                       Inl e \<Rightarrow> (Inl (AppInternal e), d)
                     | Inr h \<Rightarrow> (Inr (), record_password_history now uid h keep (update_user_password_hash uid h d)))))"

text \<open>
  \<open>change_password\<close>, up to the audit event it fires on success. A missing policy extension stands
  for the default policy.
\<close>

definition change_password ::
    "PwLib \<Rightarrow> DateTime \<Rightarrow> string \<Rightarrow> AuthIdentity option \<Rightarrow> PasswordPolicy option \<Rightarrow> string \<Rightarrow> string \<Rightarrow> AccountDb \<Rightarrow>
     (unit, AppError) result \<times> AccountDb" where
  "change_password lib now salt identity policy current new_password d =
     (case identity of
        None \<Rightarrow> (Inl (AppForbidden ''authentication required''), d)
      | Some (ApiKey _) \<Rightarrow> (Inl (AppForbidden ''API-key sessions cannot change the account password''), d)
      | Some (UserId email _ _ _) \<Rightarrow>
          (case get_user_auth_source email (acc_auth d) of
             None \<Rightarrow> (Inl (AppSession ''user not found''), d)
           | Some auth_source \<Rightarrow>
               if auth_source \<noteq> ''database''
               then (Inl (AppValidation ''password is managed by the identity provider for this user''), d)
               else let policy = (case policy of Some p \<Rightarrow> p | None \<Rightarrow> password_policy_default)
                    in case check_length policy new_password of
                         Inl e \<Rightarrow> (Inl (AppValidation e), d)
                       | Inr _ \<Rightarrow> replace_password lib now salt (history policy) email current new_password d))"

text \<open>\<open>no_user\<close> is the text of the missing row of the database library.\<close>

definition cmd_set_password ::
    "PwLib \<Rightarrow> DateTime \<Rightarrow> string \<Rightarrow> string \<Rightarrow> PasswordPolicy \<Rightarrow> string \<Rightarrow> string \<Rightarrow> AccountDb \<Rightarrow> (unit, string) result \<times> AccountDb" where
  "cmd_set_password lib now salt no_user policy email new_password d =
     (case check_length policy new_password of
        Inl e \<Rightarrow> (Inl e, d)
      | Inr _ \<Rightarrow>
          (case get_user_by_email email (acc_auth d) of
             None \<Rightarrow> (Inl (''no user with email '' @ [CHR 39] @ email @ [CHR 39] @ '' ('' @ no_user @ '')''), d)
           | Some user \<Rightarrow>
               if password_is_recent lib (u_id user) new_password (history policy) d
               then (Inl (''password must differ from the user'' @ [CHR 39] @ ''s last '' @ show_nat (history policy) @
                       '' passwords''), d)
               else (case hash_password lib salt new_password of
                       Inl e \<Rightarrow> (Inl (''error hashing password: '' @ e), d)
                     | Inr h \<Rightarrow>
                         let d' = record_password_history now (u_id user) h (history policy)
                               (update_user_password_hash (u_id user) h d)
                         in (Inr (), d'\<lparr>acc_auth := clear_user_failed_attempts email (acc_auth d')\<rparr>))))"

definition cmd_unlock_user :: "string \<Rightarrow> AuthDb \<Rightarrow> (unit, string) result \<times> AuthDb" where
  "cmd_unlock_user email d =
     (case get_user_by_email email d of
        None \<Rightarrow> (Inl (''no user with email '' @ [CHR 39] @ email @ [CHR 39]), d)
      | Some _ \<Rightarrow> (Inr (), clear_user_failed_attempts email d))"


section \<open>The history keeps the newest hashes\<close>

definition history_inv :: "AccountDb \<Rightarrow> bool" where
  "history_inv d \<longleftrightarrow> distinct (map ph_id (acc_history d)) \<and> (\<forall>r \<in> set (acc_history d). ph_id r \<le> acc_history_seq d)"

lemma filter_first_keys:
  "distinct (map f xs) \<Longrightarrow> filter (\<lambda>x. f x \<in> set (take k (map f xs))) xs = take k xs"
proof (induction xs arbitrary: k)
  case (Cons x xs)
  show ?case
  proof (cases k)
    case 0
    then show ?thesis by simp
  next
    case (Suc n)
    have "filter (\<lambda>y. f y \<in> insert (f x) (set (take n (map f xs)))) xs = filter (\<lambda>y. f y \<in> set (take n (map f xs))) xs"
      using Cons.prems by (intro filter_cong) (auto simp: image_iff)
    then show ?thesis using Cons Suc by simp
  qed
qed simp

definition user_rows :: "int \<Rightarrow> AccountDb \<Rightarrow> PasswordRow list" where
  "user_rows uid d = rev (filter (\<lambda>r. ph_user_id r = uid) (acc_history d))"

lemma recent_user_rows:
  "recent_password_hashes uid keep d = take keep (map ph_password_hash (user_rows uid d))"
  by (simp add: recent_password_hashes_def user_rows_def)

lemma user_rows_record:
  assumes "history_inv d" "0 < keep"
  shows "user_rows v (record_password_history now uid h keep d) =
     (if v = uid then take keep (\<lparr>ph_id = acc_history_seq d + 1, ph_user_id = uid, ph_password_hash = h, ph_created_at = now\<rparr>
          # user_rows uid d)
      else user_rows v d)"
proof -
  let ?new = "\<lparr>ph_id = acc_history_seq d + 1, ph_user_id = uid, ph_password_hash = h, ph_created_at = now\<rparr>"
  let ?rows = "?new # user_rows uid d"
  have dist: "distinct (map ph_id ?rows)"
    using assms(1) by (force simp: history_inv_def user_rows_def rev_map distinct_map inj_on_def)
  have newest: "newest_ids uid keep (acc_history d @ [?new]) = take keep (map ph_id ?rows)"
    by (simp add: newest_ids_def user_rows_def)
  have "user_rows uid (record_password_history now uid h keep d) = filter (\<lambda>r. ph_id r \<in> set (take keep (map ph_id ?rows))) ?rows"
    using assms(2) by (simp add: user_rows_def record_password_history_def Let_def newest [unfolded user_rows_def]
        rev_filter) (intro filter_cong, auto)
  also have "\<dots> = take keep ?rows" using dist by (rule filter_first_keys)
  finally have same: "user_rows uid (record_password_history now uid h keep d) = take keep ?rows" .
  have "user_rows v (record_password_history now uid h keep d) = user_rows v d" if "v \<noteq> uid"
    using that assms(2)
    by (simp add: user_rows_def record_password_history_def Let_def) (intro filter_cong, auto)
  with same show ?thesis by simp
qed

lemma recent_record:
  assumes "history_inv d" "0 < keep"
  shows "recent_password_hashes v keep (record_password_history now uid h keep d) =
     (if v = uid then take keep (h # recent_password_hashes uid keep d) else recent_password_hashes v keep d)"
  using assms by (cases keep) (simp_all add: recent_user_rows user_rows_record take_map)

lemma history_inv_record: "history_inv d \<Longrightarrow> history_inv (record_password_history now uid h keep d)"
  by (fastforce simp: history_inv_def record_password_history_def Let_def distinct_map inj_on_def)

lemma update_hash_frames [simp]:
  "acc_history (update_user_password_hash uid h d) = acc_history d"
  "acc_history_seq (update_user_password_hash uid h d) = acc_history_seq d"
  "history_inv (update_user_password_hash uid h d) = history_inv d"
  "recent_password_hashes v keep (update_user_password_hash uid h d) = recent_password_hashes v keep d"
  by (simp_all add: update_user_password_hash_def history_inv_def recent_password_hashes_def)

lemma record_auth [simp]: "acc_auth (record_password_history now uid h keep d) = acc_auth d"
  by (simp add: record_password_history_def Let_def)

lemma find_user_update:
  "find (\<lambda>(u, _). u_email u = email) (map (\<lambda>(u, p). (u, if u_id u = uid then Some h else p)) us) =
     map_option (\<lambda>(u, p). (u, if u_id u = uid then Some h else p)) (find (\<lambda>(u, _). u_email u = email) us)"
  by (subst find_map_same) auto

lemma login_info_update:
  "get_user_login_info email (acc_auth (update_user_password_hash uid h d)) =
     map_option (\<lambda>(i, e, n, r, dis, p). (i, e, n, r, dis, if i = uid then Some h else p))
       (get_user_login_info email (acc_auth d))"
  by (auto simp: get_user_login_info_def update_user_password_hash_def find_user_update option.map_comp comp_def
      split: prod.splits intro!: option.map_cong)

section \<open>What a change does\<close>

lemma replace_password_cases:
  obtains (refused) e where "replace_password lib now salt keep email current new d = (Inl e, d)"
  | (changed) uid em nm r dis h0 h where "get_user_login_info email (acc_auth d) = Some (uid, em, nm, r, dis, Some h0)"
      "verify_password lib current h0 = Inr True" "\<not> password_is_recent lib uid new keep d"
      "hash_password lib salt new = Inr h"
      "replace_password lib now salt keep email current new d =
        (Inr (), record_password_history now uid h keep (update_user_password_hash uid h d))"
proof (cases "get_user_login_info email (acc_auth d)")
  case None
  then have "replace_password lib now salt keep email current new d = (Inl (AppSession ''user not found''), d)"
    by (simp add: replace_password_def)
  then show ?thesis by (rule refused)
next
  case (Some info)
  obtain uid em nm r dis sh where info: "info = (uid, em, nm, r, dis, sh)" by (metis prod_cases6)
  let ?R = "replace_password lib now salt keep email current new d"
  have eq: "?R = (case current_password_valid lib current sh of
      Inl e \<Rightarrow> (Inl (AppInternal e), d)
    | Inr valid \<Rightarrow> if \<not> valid then (Inl (AppValidation ''current password is incorrect''), d)
        else if password_is_recent lib uid new keep d
        then (Inl (AppValidation (''password must differ from your last '' @ show_nat keep @ '' passwords'')), d)
        else (case hash_password lib salt new of
                Inl e \<Rightarrow> (Inl (AppInternal e), d)
              | Inr h \<Rightarrow> (Inr (), record_password_history now uid h keep (update_user_password_hash uid h d))))"
    using Some info by (simp add: replace_password_def)
  show ?thesis
  proof (cases "current_password_valid lib current sh = Inr True \<and> \<not> password_is_recent lib uid new keep d \<and>
      (\<exists>h. hash_password lib salt new = Inr h)")
    case True
    then obtain h0 h where "sh = Some h0" "verify_password lib current h0 = Inr True" "hash_password lib salt new = Inr h"
      by (auto simp: current_password_valid_def split: option.splits if_splits)
    with True Some info eq changed show ?thesis by simp
  next
    case False
    then have "\<exists>e. ?R = (Inl e, d)"
      unfolding eq by (cases "current_password_valid lib current sh"; cases "hash_password lib salt new") simp_all
    then show ?thesis using refused by blast
  qed
qed

lemma change_password_cases:
  obtains (refused) e where "change_password lib now salt ident policy current new d = (Inl e, d)"
  | (changed) email n r g uid em nm ro dis h0 h keep where "ident = Some (UserId email n r g)"
      "keep = history (case policy of Some p \<Rightarrow> p | None \<Rightarrow> password_policy_default)"
      "get_user_auth_source email (acc_auth d) = Some ''database''"
      "min_length (case policy of Some p \<Rightarrow> p | None \<Rightarrow> password_policy_default) \<le> length (chars new)"
      "get_user_login_info email (acc_auth d) = Some (uid, em, nm, ro, dis, Some h0)"
      "verify_password lib current h0 = Inr True" "\<not> password_is_recent lib uid new keep d"
      "hash_password lib salt new = Inr h"
      "change_password lib now salt ident policy current new d =
        (Inr (), record_password_history now uid h keep (update_user_password_hash uid h d))"
proof (cases "\<exists>email n r g. ident = Some (UserId email n r g) \<and> get_user_auth_source email (acc_auth d) = Some ''database'' \<and>
    min_length (case policy of Some p \<Rightarrow> p | None \<Rightarrow> password_policy_default) \<le> length (chars new)")
  case True
  then obtain email n r g where t: "ident = Some (UserId email n r g)" "get_user_auth_source email (acc_auth d) = Some ''database''"
    "min_length (case policy of Some p \<Rightarrow> p | None \<Rightarrow> password_policy_default) \<le> length (chars new)" by blast
  let ?keep = "history (case policy of Some p \<Rightarrow> p | None \<Rightarrow> password_policy_default)"
  have eq: "change_password lib now salt ident policy current new d = replace_password lib now salt ?keep email current new d"
    using t by (simp add: change_password_def check_length_def Let_def)
  show ?thesis
  proof (rule replace_password_cases [of lib now salt ?keep email current new d])
    fix uid em nm r' dis h0 h
    assume "get_user_login_info email (acc_auth d) = Some (uid, em, nm, r', dis, Some h0)"
      "verify_password lib current h0 = Inr True" "\<not> password_is_recent lib uid new ?keep d" "hash_password lib salt new = Inr h"
      "replace_password lib now salt ?keep email current new d =
        (Inr (), record_password_history now uid h ?keep (update_user_password_hash uid h d))"
    with changed [OF t(1) refl t(2,3)] eq show ?thesis by simp
  qed (use refused eq in simp)
next
  case False
  then have "\<exists>e. change_password lib now salt ident policy current new d = (Inl e, d)"
    by (auto simp: change_password_def check_length_def Let_def split: option.splits AuthIdentity.splits)
  then show ?thesis using refused by blast
qed


section \<open>Passwords are not reused\<close>

text \<open>A sequence of requests by any users: time, salt, identity, current and new password.\<close>

definition change_run ::
    "PwLib \<Rightarrow> PasswordPolicy option \<Rightarrow> (DateTime \<times> string \<times> AuthIdentity option \<times> string \<times> string) list \<Rightarrow> AccountDb \<Rightarrow> AccountDb" where
  "change_run lib policy cs = fold (\<lambda>(now, salt, ident, cur, new) d. snd (change_password lib now salt ident policy cur new d)) cs"

definition user_id_of :: "string \<Rightarrow> AccountDb \<Rightarrow> int option" where
  "user_id_of email d = map_option fst (get_user_login_info email (acc_auth d))"

lemma user_id_of_update [simp]: "user_id_of email (update_user_password_hash uid h d) = user_id_of email d"
  by (auto simp: user_id_of_def login_info_update option.map_comp comp_def split: prod.splits intro!: option.map_cong)

lemma user_id_of_record [simp]: "user_id_of email (record_password_history now uid h keep d) = user_id_of email d"
  by (simp add: user_id_of_def)

lemma change_step:
  assumes "history_inv d" "0 < history pol"
  shows "history_inv (snd (change_password lib now salt ident (Some pol) cur new d))"
    and "user_id_of email (snd (change_password lib now salt ident (Some pol) cur new d)) = user_id_of email d"
    and "\<exists>x. recent_password_hashes uid (history pol) (snd (change_password lib now salt ident (Some pol) cur new d)) \<in>
       {recent_password_hashes uid (history pol) d, take (history pol) (x # recent_password_hashes uid (history pol) d)}"
proof -
  let ?d = "snd (change_password lib now salt ident (Some pol) cur new d)"
  have "history_inv ?d \<and> user_id_of email ?d = user_id_of email d \<and>
    (\<exists>x. recent_password_hashes uid (history pol) ?d \<in>
       {recent_password_hashes uid (history pol) d, take (history pol) (x # recent_password_hashes uid (history pol) d)})"
    by (rule change_password_cases [of lib now salt ident "Some pol" cur new d])
      (use assms in \<open>auto simp: history_inv_record recent_record\<close>)
  then show "history_inv ?d" "user_id_of email ?d = user_id_of email d"
    "\<exists>x. recent_password_hashes uid (history pol) ?d \<in>
       {recent_password_hashes uid (history pol) d, take (history pol) (x # recent_password_hashes uid (history pol) d)}"
    by blast+
qed

lemma change_run_keeps:
  assumes "history_inv d" "h \<in> set (take (Suc i) (recent_password_hashes uid (history pol) d))" "i + length cs < history pol"
  shows "h \<in> set (recent_password_hashes uid (history pol) (change_run lib (Some pol) cs d)) \<and>
    user_id_of email (change_run lib (Some pol) cs d) = user_id_of email d"
  using assms
proof (induction cs arbitrary: d i)
  case Nil
  then show ?case using set_take_subset by (force simp: change_run_def)
next
  case (Cons c cs)
  obtain now salt ident cur new where c: "c = (now, salt, ident, cur, new)" by (metis prod_cases5)
  let ?d = "snd (change_password lib now salt ident (Some pol) cur new d)"
  have pos: "0 < history pol" using Cons.prems by simp
  note step = change_step [OF Cons.prems(1) pos, where lib = lib and now = now and salt = salt and ident = ident and cur = cur and new = new]
  obtain x where x: "recent_password_hashes uid (history pol) ?d = recent_password_hashes uid (history pol) d \<or>
      recent_password_hashes uid (history pol) ?d = take (history pol) (x # recent_password_hashes uid (history pol) d)"
    using step(3) [where uid = uid] by blast
  have min: "min (Suc (Suc i)) (history pol) = Suc (Suc i)" using Cons.prems(3) by simp
  have "h \<in> set (take (Suc (Suc i)) (recent_password_hashes uid (history pol) ?d))"
    using x
  proof
    assume "recent_password_hashes uid (history pol) ?d = recent_password_hashes uid (history pol) d"
    then show ?thesis using subsetD [OF set_take_subset_set_take [of "Suc i" "Suc (Suc i)"] Cons.prems(2)] by simp
  next
    assume "recent_password_hashes uid (history pol) ?d = take (history pol) (x # recent_password_hashes uid (history pol) d)"
    then show ?thesis using Cons.prems(2) min by (simp only: take_take) simp
  qed
  from Cons.IH [OF step(1) this] Cons.prems(3) show ?case by (simp add: change_run_def c step(2))
qed

text \<open>
  Claim C16. A password change takes effect and its password is not used again: when a user
  changes the password, the stored hash of that account accepts the new password, the request
  proved the old one and met the minimum length; and after fewer further requests than the
  history is long, by any users, changing back to the same password is refused and changes
  nothing.
\<close>

theorem password_change_enforced:
  assumes "pw_laws lib" "history_inv d" "0 < history pol"
    and "change_password lib now salt (Some (UserId email n r g)) (Some pol) cur p d = (Inr (), d1)"
    and "length cs < history pol"
  shows "(\<exists>uid em nm ro dis h0 h. get_user_login_info email (acc_auth d) = Some (uid, em, nm, ro, dis, Some h0) \<and>
      verify_password lib cur h0 = Inr True \<and> min_length pol \<le> length (chars p) \<and>
      get_user_login_info email (acc_auth d1) = Some (uid, em, nm, ro, dis, Some h) \<and>
      h \<noteq> [] \<and> verify_password lib p h = Inr True) \<and>
    (let d2 = change_run lib (Some pol) cs d1
     in \<exists>e. change_password lib now' salt' (Some (UserId email n' r' g')) (Some pol) cur' p d2 = (Inl e, d2))"
proof (rule change_password_cases [of lib now salt "Some (UserId email n r g)" "Some pol" cur p d])
  fix e assume "change_password lib now salt (Some (UserId email n r g)) (Some pol) cur p d = (Inl e, d)"
  with assms(4) show ?thesis by simp
next
  fix email' n2 r2 g2 uid em nm ro dis h0 h keep
  assume ident: "Some (UserId email n r g) = Some (UserId email' n2 r2 g2)"
    and keep0: "keep = history (case Some pol of Some p \<Rightarrow> p | None \<Rightarrow> password_policy_default)"
    and len: "min_length (case Some pol of Some p \<Rightarrow> p | None \<Rightarrow> password_policy_default) \<le> length (chars p)"
    and info: "get_user_login_info email' (acc_auth d) = Some (uid, em, nm, ro, dis, Some h0)"
    and cur: "verify_password lib cur h0 = Inr True" and hash: "hash_password lib salt p = Inr h"
    and eq: "change_password lib now salt (Some (UserId email n r g)) (Some pol) cur p d =
        (Inr (), record_password_history now uid h keep (update_user_password_hash uid h d))"
  have d1: "d1 = record_password_history now uid h (history pol) (update_user_password_hash uid h d)"
    using eq assms(4) keep0 by simp
  have h: "h \<noteq> []" "verify_password lib p h = Inr True"
    using hash assms(1) by (auto simp: pw_laws_def hash_password_def verify_password_def)
  have info1: "get_user_login_info email (acc_auth d1) = Some (uid, em, nm, ro, dis, Some h)"
    using info ident by (simp add: d1 login_info_update)
  let ?d2 = "change_run lib (Some pol) cs d1"
  have "recent_password_hashes uid (history pol) d1 = take (history pol) (h # recent_password_hashes uid (history pol) d)"
    using recent_record [of "update_user_password_hash uid h d" "history pol" uid now uid h] assms(2,3) by (simp add: d1)
  then have "h \<in> set (take (Suc 0) (recent_password_hashes uid (history pol) d1))"
    using assms(3) by (cases "history pol") simp_all
  moreover have "history_inv d1" using assms(2) by (simp add: d1 history_inv_record)
  ultimately have kept: "h \<in> set (recent_password_hashes uid (history pol) ?d2)" "user_id_of email ?d2 = user_id_of email d1"
    using change_run_keeps [of d1 h 0 uid pol cs lib email] assms(5) by simp_all
  have recent: "password_is_recent lib uid p (history pol) ?d2"
    using kept(1) h(2) by (auto simp: password_is_recent_def list_ex_iff)
  have "\<exists>e. change_password lib now' salt' (Some (UserId email n' r' g')) (Some pol) cur' p ?d2 = (Inl e, ?d2)"
    by (rule change_password_cases [of lib now' salt' "Some (UserId email n' r' g')" "Some pol" cur' p ?d2])
      (use kept(2) recent info1 in \<open>auto simp: user_id_of_def\<close>)
  with info info1 cur len h ident show ?thesis by (auto simp: Let_def)
qed


definition demo_pw :: PwLib where
  "demo_pw = \<lparr>phc_error = (\<lambda>_. None), argon2_verify = (\<lambda>p h. h = ''h:'' @ p), argon2_hash = (\<lambda>_ p. Inr (''h:'' @ p))\<rparr>"

definition demo_account :: AccountDb where
  "demo_account = \<lparr>acc_auth = demo_auth_db\<lparr>users := [(demo_user, Some ''h:old'')]\<rparr>, acc_history = [], acc_history_seq = 0\<rparr>"

definition demo_policy :: PasswordPolicy where
  "demo_policy = \<lparr>min_length = 3, history = 2\<rparr>"

theorem password_change_enforced_witness:
  "\<exists>d1. change_password demo_pw 0 [] (Some (UserId ''a@x'' [] [] [])) (Some demo_policy) ''old'' ''new'' demo_account = (Inr (), d1) \<and>
     (\<exists>e. let d2 = change_run demo_pw (Some demo_policy) [(1, [], Some (UserId ''a@x'' [] [] []), ''new'', ''next'')] d1
       in change_password demo_pw 2 [] (Some (UserId ''a@x'' [] [] [])) (Some demo_policy) ''next'' ''new'' d2 = (Inl e, d2))"
proof -
  let ?r = "change_password demo_pw 0 [] (Some (UserId ''a@x'' [] [] [])) (Some demo_policy) ''old'' ''new'' demo_account"
  have ok: "fst ?r = Inr ()" by code_simp
  then have r: "?r = (Inr (), snd ?r)" by (metis prod.collapse)
  have laws: "pw_laws demo_pw" by (simp add: pw_laws_def demo_pw_def)
  have inv: "history_inv demo_account" by (simp add: history_inv_def demo_account_def)
  show ?thesis
    using r password_change_enforced [OF laws inv _ r, of "[(1, [], Some (UserId ''a@x'' [] [] []), ''new'', ''next'')]" 2 "[]" "[]" "[]" "[]" "''next''"]
    by (auto simp: demo_policy_def Let_def)
qed

end
