(* ===== verification/Auth_Chain.thy ===== *)
theory Auth_Chain
  imports Mfa_Store
begin

text \<open>
  The pluggable login: the provider interface (\<open>src/src/auth_provider.rs\<close>) and the ordered chain
  of providers (\<open>src/src/auth_chain.rs\<close>). A provider is a record of its methods over a state: what
  it answers may depend on the store and change it. The LDAP, RADIUS and SAML providers talk to
  servers and enter as arbitrary values of that record.
\<close>

unbundle bit_operations_syntax

section \<open>Capabilities\<close>

type_synonym Capabilities = "32 word"

definition AUTHENTICATE :: Capabilities where "AUTHENTICATE = 1"

definition MFA :: Capabilities where "MFA = 2"

definition REDIRECT :: Capabilities where "REDIRECT = 4"

definition STORE_PASSWORDS :: Capabilities where "STORE_PASSWORDS = 8"

definition RESOLVE_GROUPS :: Capabilities where "RESOLVE_GROUPS = 16"

definition AUTO_CREATE_USER :: Capabilities where "AUTO_CREATE_USER = 32"

definition caps_contains :: "Capabilities \<Rightarrow> Capabilities \<Rightarrow> bool" where
  "caps_contains c f = (c AND f = f)"

definition show_capabilities :: "Capabilities \<Rightarrow> string" where
  "show_capabilities c =
     (let names = map snd (filter (\<lambda>(f, _). caps_contains c f)
            [(AUTHENTICATE, ''AUTHENTICATE''), (MFA, ''MFA''), (REDIRECT, ''REDIRECT''),
             (STORE_PASSWORDS, ''STORE_PASSWORDS''), (RESOLVE_GROUPS, ''RESOLVE_GROUPS''),
             (AUTO_CREATE_USER, ''AUTO_CREATE_USER'')])
      in if names = [] then ''(empty)'' else join '' | '' names)"

section \<open>Requests, results and providers\<close>

datatype AuthResult =
    AuthSuccess string string "string list" "string option"
  | AuthFailure string
  | AuthRedirect string
  | AuthUnavailable string

fun show_auth_result :: "AuthResult \<Rightarrow> string" where
  "show_auth_result (AuthSuccess subject _ _ _) = ''Success('' @ subject @ '')''"
| "show_auth_result (AuthFailure msg) = ''Failure('' @ msg @ '')''"
| "show_auth_result (AuthRedirect to) = ''Redirect('' @ to @ '')''"
| "show_auth_result (AuthUnavailable msg) = ''Unavailable('' @ msg @ '')''"

record AuthRequest =
  rq_client_ip :: IpAddr
  rq_username :: "string option"
  rq_password :: "string option"
  rq_callback_params :: "(string \<times> string) list option"
  rq_bearer_token :: "string option"
  rq_relay_state :: "string option"
  rq_headers :: "(string \<times> string) list"

text \<open>The default address is 127.0.0.1.\<close>

definition auth_request_default :: AuthRequest where
  "auth_request_default = \<lparr>rq_client_ip = V4 2130706433, rq_username = None, rq_password = None,
     rq_callback_params = None, rq_bearer_token = None, rq_relay_state = None, rq_headers = []\<rparr>"

record UserInfo =
  ui_subject :: string
  ui_display_name :: string
  ui_email :: "string option"
  ui_groups :: "string list"

record 's AuthProvider =
  p_id :: string
  p_capabilities :: Capabilities
  p_authenticate :: "AuthRequest \<Rightarrow> 's \<Rightarrow> AuthResult \<times> 's"
  p_verify_second_factor :: "string \<Rightarrow> string \<Rightarrow> 's \<Rightarrow> bool"
  p_lookup_user :: "string \<Rightarrow> 's \<Rightarrow> UserInfo option"
  p_inline_login_form :: bool

text \<open>The default methods of the trait.\<close>

definition provider_default ::
    "string \<Rightarrow> Capabilities \<Rightarrow> (AuthRequest \<Rightarrow> 's \<Rightarrow> AuthResult \<times> 's) \<Rightarrow> 's AuthProvider" where
  "provider_default pid caps auth = \<lparr>p_id = pid, p_capabilities = caps, p_authenticate = auth,
     p_verify_second_factor = (\<lambda>_ _ _. False), p_lookup_user = (\<lambda>_ _. None), p_inline_login_form = False\<rparr>"

section \<open>The chain\<close>

record 's AuthChain =
  ch_providers :: "'s AuthProvider list"
  ch_mfa_provider :: "'s AuthProvider option"

definition chain_empty :: "'s AuthChain" where
  "chain_empty = \<lparr>ch_providers = [], ch_mfa_provider = None\<rparr>"

definition chain_new :: "'s AuthProvider list \<Rightarrow> 's AuthChain" where
  "chain_new ps = \<lparr>ch_providers = ps, ch_mfa_provider = None\<rparr>"

definition with_mfa :: "'s AuthProvider \<Rightarrow> 's AuthChain \<Rightarrow> 's AuthChain" where
  "with_mfa p c = c\<lparr>ch_mfa_provider := Some p\<rparr>"

text \<open>The loop of \<open>from_config\<close>: each provider leaves the map when a method takes it.\<close>

fun from_config_loop ::
    "string list \<Rightarrow> (string \<rightharpoonup> 's AuthProvider) \<Rightarrow> 's AuthProvider list \<Rightarrow> 's AuthProvider option \<Rightarrow>
     ('s AuthChain, string) result" where
  "from_config_loop [] providers primary mfa = Inr \<lparr>ch_providers = primary, ch_mfa_provider = mfa\<rparr>"
| "from_config_loop (m # ms) providers primary mfa =
     (if m = ''totp''
      then if mfa \<noteq> None then Inl ''only one MFA provider allowed''
           else case providers m of
                  None \<Rightarrow> Inl ''totp configured but provider not provided''
                | Some p \<Rightarrow> from_config_loop ms (providers(m := None)) primary (Some p)
      else case providers m of
             Some p \<Rightarrow> from_config_loop ms (providers(m := None)) (primary @ [p]) mfa
           | None \<Rightarrow> Inl (''unknown auth method: '' @ m))"

definition from_config :: "string list \<Rightarrow> (string \<rightharpoonup> 's AuthProvider) \<Rightarrow> ('s AuthChain, string) result" where
  "from_config methods providers = from_config_loop methods providers [] None"

fun try_providers :: "'s AuthProvider list \<Rightarrow> AuthRequest \<Rightarrow> 's \<Rightarrow> AuthResult \<times> 's" where
  "try_providers [] req s = (AuthFailure ''no provider could authenticate'', s)"
| "try_providers (p # ps) req s =
     (case p_authenticate p req s of
        (AuthSuccess u n g r, s') \<Rightarrow> (AuthSuccess u n g r, s')
      | (AuthRedirect to, s') \<Rightarrow> (AuthRedirect to, s')
      | (AuthFailure _, s') \<Rightarrow> try_providers ps req s'
      | (AuthUnavailable _, s') \<Rightarrow> try_providers ps req s')"

definition chain_authenticate :: "'s AuthChain \<Rightarrow> AuthRequest \<Rightarrow> 's \<Rightarrow> AuthResult \<times> 's" where
  "chain_authenticate c = try_providers (ch_providers c)"

definition chain_verify_second_factor :: "'s AuthChain \<Rightarrow> string \<Rightarrow> string \<Rightarrow> 's \<Rightarrow> bool" where
  "chain_verify_second_factor c subject factor s =
     (case ch_mfa_provider c of Some mfa \<Rightarrow> p_verify_second_factor mfa subject factor s | None \<Rightarrow> False)"

definition chain_has_inline_login_form :: "'s AuthChain \<Rightarrow> bool" where
  "chain_has_inline_login_form c = list_ex p_inline_login_form (ch_providers c)"

fun lookup_in :: "'s AuthProvider list \<Rightarrow> string \<Rightarrow> 's \<Rightarrow> UserInfo option" where
  "lookup_in [] subject s = None"
| "lookup_in (p # ps) subject s =
     (case p_lookup_user p subject s of Some info \<Rightarrow> Some info | None \<Rightarrow> lookup_in ps subject s)"

definition chain_lookup_user :: "'s AuthChain \<Rightarrow> string \<Rightarrow> 's \<Rightarrow> UserInfo option" where
  "chain_lookup_user c = lookup_in (ch_providers c)"

definition provider_count :: "'s AuthChain \<Rightarrow> nat" where
  "provider_count c = length (ch_providers c)"

definition provider_ids :: "'s AuthChain \<Rightarrow> string list" where
  "provider_ids c = map p_id (ch_providers c)"

section \<open>Which chain a configuration gives\<close>

definition config_chain :: "string list \<Rightarrow> (string \<rightharpoonup> 's AuthProvider) \<Rightarrow> 's AuthChain" where
  "config_chain methods providers =
     \<lparr>ch_providers = map (\<lambda>m. the (providers m)) (filter (\<lambda>m. m \<noteq> ''totp'') methods),
      ch_mfa_provider = (if ''totp'' \<in> set methods then providers ''totp'' else None)\<rparr>"

lemma from_config_loop_Inr:
  assumes "mfa \<noteq> None \<longrightarrow> providers ''totp'' = None"
  shows "from_config_loop ms providers primary mfa = Inr c \<longleftrightarrow>
    distinct ms \<and> set ms \<subseteq> dom providers \<and>
    c = \<lparr>ch_providers = primary @ ch_providers (config_chain ms providers),
         ch_mfa_provider = (if ''totp'' \<in> set ms then providers ''totp'' else mfa)\<rparr>"
  using assms
proof (induction ms arbitrary: providers primary mfa)
  case (Cons m ms)
  define P where "P = providers(m := None)"
  have P: "P m = None" "\<And>x. x \<noteq> m \<Longrightarrow> P x = providers x" by (simp_all add: P_def)
  have upd: "ch_providers (config_chain ms P) = ch_providers (config_chain ms providers)" if "m \<notin> set ms"
  proof -
    have "P x = providers x" if "x \<in> set ms" for x using P(2) [of x] \<open>m \<notin> set ms\<close> that by blast
    then show ?thesis by (simp add: config_chain_def)
  qed
  have dom: "set ms \<subseteq> dom P \<longleftrightarrow> m \<notin> set ms \<and> set ms \<subseteq> dom providers" by (auto simp: P_def)
  have cfg: "ch_providers (config_chain (m # ms) providers) =
      (if m = ''totp'' then ch_providers (config_chain ms providers)
       else the (providers m) # ch_providers (config_chain ms providers))"
    by (simp add: config_chain_def)
  show ?case
  proof (cases "providers m")
    case None
    then show ?thesis by (auto simp: domIff)
  next
    case (Some p)
    then have in_dom: "m \<in> dom providers" by blast
    show ?thesis
    proof (cases "m = ''totp''")
      case True
      have mfa: "mfa = None" using Some Cons.prems True by (cases mfa) simp_all
      have eq: "from_config_loop (m # ms) providers primary mfa = from_config_loop ms P primary (Some p)"
        using True Some mfa by (simp add: P_def)
      have "P ''totp'' = None" using P(1) True by simp
      then show ?thesis
        unfolding eq using Cons.IH [of "Some p" P primary] upd in_dom Some True cfg
        by (cases "m \<in> set ms") (simp_all add: dom)
    next
      case False
      have eq: "from_config_loop (m # ms) providers primary mfa = from_config_loop ms P (primary @ [p]) mfa"
        using False Some by (simp add: P_def)
      have "P ''totp'' = providers ''totp''" using P(2) False by metis
      then show ?thesis
        unfolding eq using Cons.IH [of mfa P "primary @ [p]"] Cons.prems upd in_dom Some False
        by (cases "m \<in> set ms") (auto simp: cfg dom)
    qed
  qed
qed (auto simp: config_chain_def)

lemma from_config_Inr:
  "from_config ms providers = Inr c \<longleftrightarrow> distinct ms \<and> set ms \<subseteq> dom providers \<and> c = config_chain ms providers"
  using from_config_loop_Inr [of None providers ms "[]" c] by (simp add: from_config_def config_chain_def)

section \<open>The first provider that answers decides\<close>

definition decides :: "AuthResult \<Rightarrow> bool" where
  "decides r = (case r of AuthSuccess _ _ _ _ \<Rightarrow> True | AuthRedirect _ \<Rightarrow> True | _ \<Rightarrow> False)"

lemma try_providers_Cons:
  "try_providers (p # ps) req s =
     (if decides (fst (p_authenticate p req s)) then p_authenticate p req s
      else try_providers ps req (snd (p_authenticate p req s)))"
proof -
  obtain r s' where "p_authenticate p req s = (r, s')" by fastforce
  then show ?thesis by (cases r) (simp_all add: decides_def)
qed

declare try_providers.simps(2) [simp del] try_providers_Cons [simp]

text \<open>The state a provider sees: that left by those before it.\<close>

fun states_before :: "'s AuthProvider list \<Rightarrow> AuthRequest \<Rightarrow> 's \<Rightarrow> 's list" where
  "states_before [] req s = []"
| "states_before (p # ps) req s = s # states_before ps req (snd (p_authenticate p req s))"

lemma states_before_length [simp]: "length (states_before ps req s) = length ps"
  by (induction ps arbitrary: s) auto

lemma try_providers_decides:
  "decides (fst (try_providers ps req s)) \<Longrightarrow>
   \<exists>i < length ps. p_authenticate (ps ! i) req (states_before ps req s ! i) = try_providers ps req s \<and>
     (\<forall>j < i. \<not> decides (fst (p_authenticate (ps ! j) req (states_before ps req s ! j))))"
proof (induction ps arbitrary: s)
  case (Cons p ps)
  show ?case
  proof (cases "decides (fst (p_authenticate p req s))")
    case True
    then show ?thesis by (intro exI [of _ 0]) simp
  next
    case False
    let ?s = "snd (p_authenticate p req s)"
    obtain i where "i < length ps" "p_authenticate (ps ! i) req (states_before ps req ?s ! i) = try_providers ps req ?s"
        "\<forall>j < i. \<not> decides (fst (p_authenticate (ps ! j) req (states_before ps req ?s ! j)))"
      using Cons.IH [of ?s] Cons.prems False by auto
    then show ?thesis using False
      by (intro exI [of _ "Suc i"]) (simp add: All_less_Suc2)
  qed
qed (simp add: decides_def)

lemma try_providers_undecided:
  "\<not> decides (fst (try_providers ps req s)) \<Longrightarrow> fst (try_providers ps req s) = AuthFailure ''no provider could authenticate''"
  by (induction ps arbitrary: s) (simp_all split: if_splits)

text \<open>The chain never reports that a provider is unavailable.\<close>

lemma chain_never_unavailable: "fst (chain_authenticate c req s) \<noteq> AuthUnavailable m"
proof
  assume u: "fst (chain_authenticate c req s) = AuthUnavailable m"
  then have "\<not> decides (fst (try_providers (ch_providers c) req s))" by (simp add: chain_authenticate_def decides_def)
  from try_providers_undecided [OF this] u show False by (simp add: chain_authenticate_def)
qed

lemma try_providers_invariant:
  assumes "list_all (\<lambda>p. \<forall>req s. R s (snd (p_authenticate p req s))) ps" "\<And>s. R s s" "\<And>a b c. R a b \<Longrightarrow> R b c \<Longrightarrow> R a c"
  shows "R s (snd (try_providers ps req s))"
  using assms(1)
proof (induction ps arbitrary: s)
  case (Cons p ps)
  let ?s = "snd (p_authenticate p req s)"
  have step: "R s ?s" using Cons.prems by simp
  have "R ?s (snd (try_providers ps req ?s))" using Cons by simp
  with step have "R s (snd (try_providers ps req ?s))" by (rule assms(3))
  with step show ?case by simp
qed (simp add: assms(2))

end
