(* ===== verification/Pairing.thy ===== *)
theory Pairing
  imports Http_Request Identity
begin

text \<open>
  Device pairing and desktop tokens (\<open>src/src/api/pairing.rs\<close>): the rate limiter, the pairing
  codes, the table of pairings, the three handlers and the minting of scoped tokens. Timestamps
  of the table are texts of a fixed format that the database compares as texts; \<open>chrono\<close>'s
  formatting and the random bytes are arguments, as are the database's error texts. The steps of
  a handler run without interference, except where a lemma says otherwise.
\<close>

section \<open>Addresses as text\<close>

definition hex_digit :: "nat \<Rightarrow> char" where
  "hex_digit d = char_of (if d < 10 then 48 + d else 87 + d)"

fun show_hex :: "nat \<Rightarrow> string" where
  "show_hex n = (if n < 16 then [hex_digit n] else show_hex (n div 16) @ [hex_digit (n mod 16)])"

declare show_hex.simps [simp del]

definition be_digits :: "nat \<Rightarrow> nat \<Rightarrow> nat \<Rightarrow> nat list" where
  "be_digits base count n = map (\<lambda>i. n div base ^ (count - 1 - i) mod base) [0..<count]"

text \<open>The longest run of zero segments, the first of several, as its start and length.\<close>

fun zero_span :: "nat \<Rightarrow> nat \<times> nat \<Rightarrow> nat \<times> nat \<Rightarrow> nat list \<Rightarrow> nat \<times> nat" where
  "zero_span i current longest [] = longest"
| "zero_span i current longest (s # ss) =
     (if s = 0
      then let cur = (if snd current = 0 then i else fst current, snd current + 1)
           in zero_span (i + 1) cur (if snd longest < snd cur then cur else longest) ss
      else zero_span (i + 1) (0, 0) longest ss)"

definition show_segments :: "nat list \<Rightarrow> string" where
  "show_segments segs = join '':'' (map show_hex segs)"

definition show_ipv4 :: "nat \<Rightarrow> string" where
  "show_ipv4 n = join ''.'' (map show_nat (be_digits 256 4 n))"

fun show_ip :: "IpAddr \<Rightarrow> string" where
  "show_ip (V4 a) = show_ipv4 (unat a)"
| "show_ip (V6 a) =
     (let segs = be_digits 65536 8 (unat a)
      in if take 6 segs = [0, 0, 0, 0, 0, 65535] then ''::ffff:'' @ show_ipv4 (unat a mod 2 ^ 32)
         else case zero_span 0 (0, 0) (0, 0) segs of (start, len) \<Rightarrow>
           if 1 < len then show_segments (take start segs) @ ''::'' @ show_segments (drop (start + len) segs)
           else show_segments segs)"

section \<open>The rate limiter\<close>

type_synonym Hits = "(string \<times> int list) list"

definition hits_of :: "string \<Rightarrow> Hits \<Rightarrow> int list" where
  "hits_of key h = (case map_of h key of Some ts \<Rightarrow> ts | None \<Rightarrow> [])"

text \<open>The bound on the number of buckets, and times of a monotonic clock.\<close>

definition allow :: "int \<Rightarrow> nat \<Rightarrow> int \<Rightarrow> string \<Rightarrow> Hits \<Rightarrow> bool \<times> Hits" where
  "allow window max_hits now key h =
     (let kept = filter (\<lambda>t. now - t < window) (hits_of key h)
      in if max_hits \<le> length kept then (False, AList.update key kept h)
         else let h' = AList.update key (kept @ [now]) h
              in (True, if 512 < length h'
                        then filter (\<lambda>(_, v). v \<noteq> [] \<and> now - last v < 2 * window) h' else h'))"

definition PAIR_CREATE_PER_MIN :: nat where "PAIR_CREATE_PER_MIN = 5"

definition PAIR_STATUS_PER_MIN :: nat where "PAIR_STATUS_PER_MIN = 10"

section \<open>Codes and names\<close>

definition CODE_ALPHABET :: string where
  "CODE_ALPHABET = ''ABCDEFGHJKMNPQRSTUVWXYZ23456789''"

definition CODE_LEN :: nat where "CODE_LEN = 8"

definition HOSTNAME_MAX_LEN :: nat where "HOSTNAME_MAX_LEN = 64"

definition pairing_hash :: "Crypto \<Rightarrow> string \<Rightarrow> string" where
  "pairing_hash cr s = hex_encode cr (sha256 cr s)"

text \<open>One character for each of the random bytes.\<close>

definition generate_code :: "nat list \<Rightarrow> string" where
  "generate_code bytes = map (\<lambda>b. CODE_ALPHABET ! (b mod length CODE_ALPHABET)) bytes"

definition to_ascii_uppercase :: "char \<Rightarrow> char" where
  "to_ascii_uppercase c = (if 97 \<le> byte c \<and> byte c \<le> 122 then char_of (byte c - 32) else c)"

definition normalize_code :: "string \<Rightarrow> string" where
  "normalize_code raw =
     map to_ascii_uppercase (concat (filter (\<lambda>c. \<not> is_whitespace c \<and> c \<noteq> ''-'') (chars raw)))"

definition valid_code_shape :: "string \<Rightarrow> bool" where
  "valid_code_shape code = (length code = CODE_LEN \<and> list_all (\<lambda>b. b \<in> set CODE_ALPHABET) code)"

definition hostname_char :: "string \<Rightarrow> bool" where
  "hostname_char c = (case c of [b] \<Rightarrow> is_ascii_alphanumeric b \<or> b \<in> set ''-_.: ()[]'' | _ \<Rightarrow> False)"

definition sanitize_hostname :: "string \<Rightarrow> string" where
  "sanitize_hostname raw = trim (concat (take HOSTNAME_MAX_LEN (filter hostname_char (chars raw))))"

definition token_name :: "string \<Rightarrow> string" where
  "token_name host =
     (let h = sanitize_hostname host
      in if h = [] then ''Persea Desktop'' else ''Persea Desktop ('' @ h @ '')'')"

definition LOGIN_TOKEN_NAME :: string where
  "LOGIN_TOKEN_NAME = ''Persea Desktop (login)''"

section \<open>Desktop tokens\<close>

definition revoke_tokens_named :: "int \<Rightarrow> string \<Rightarrow> AuthDb \<Rightarrow> nat \<times> AuthDb" where
  "revoke_tokens_named uid name = delete_tokens (\<lambda>t. t_user_id t = uid \<and> t_name t = name)"

definition user_identity_by_id :: "int \<Rightarrow> AuthDb \<Rightarrow> (string \<times> string) option" where
  "user_identity_by_id uid d =
     map_option (\<lambda>(u, _). (u_email u, u_role u)) (find (\<lambda>(u, _). u_id u = uid) (users d))"

definition mint_desktop_token ::
    "Crypto \<Rightarrow> DateTime \<Rightarrow> string \<Rightarrow> int \<Rightarrow> string \<Rightarrow> string option \<Rightarrow> IpAddr \<Rightarrow> string \<Rightarrow> AuthDb \<Rightarrow>
     (int \<times> string \<times> string \<times> string, AppError) result \<times> AuthDb" where
  "mint_desktop_token cr now raw_key uid name expiry ip note d =
     (let d1 = snd (revoke_tokens_named uid name d)
      in case user_identity_by_id uid d1 of
           None \<Rightarrow> (Inl (AppNotFound ''user not found''), d1)
         | Some (email, role) \<Rightarrow>
             (case create_scoped_user_token cr now raw_key uid name (Some role) expiry d1 of
                (None, d2) \<Rightarrow>
                  (Inl (AppConflict (''token name already exists '' @ [CHR 0xE2, CHR 0x80, CHR 0x94] @
                     '' revoke the previous desktop token and sign in again'')), d2)
              | (Some (tid, plaintext), d2) \<Rightarrow>
                  (Inr (tid, plaintext, name, role),
                   log_token_event now (Some tid) (Some name) email ''created'' (Some (show_ip ip)) (Some note) d2)))"

definition mint_paired_token ::
    "Crypto \<Rightarrow> DateTime \<Rightarrow> string \<Rightarrow> int \<Rightarrow> string \<Rightarrow> IpAddr \<Rightarrow> AuthDb \<Rightarrow>
     (int \<times> string \<times> string \<times> string, AppError) result \<times> AuthDb" where
  "mint_paired_token cr now raw_key uid host ip d =
     mint_desktop_token cr now raw_key uid (token_name host) None ip ''device pairing (desktop shell)'' d"

definition SCOPED_TOKEN_TTL_HOURS :: int where "SCOPED_TOKEN_TTL_HOURS = 12"

text \<open>\<open>db_ts\<close> is \<open>chrono\<close>'s text of a time; the caller also gets the expiry itself.\<close>

definition mint_login_scoped_token ::
    "Crypto \<Rightarrow> (DateTime \<Rightarrow> string) \<Rightarrow> DateTime \<Rightarrow> string \<Rightarrow> int \<Rightarrow> IpAddr \<Rightarrow> AuthDb \<Rightarrow>
     (int \<times> string \<times> string \<times> string \<times> DateTime, AppError) result \<times> AuthDb" where
  "mint_login_scoped_token cr db_ts now raw_key uid ip d =
     (let expires = now + SCOPED_TOKEN_TTL_HOURS * 3600 * nanos
      in case mint_desktop_token cr now raw_key uid LOGIN_TOKEN_NAME (Some (db_ts expires)) ip
                ''interactive login (desktop shell)'' d of
           (Inl e, d') \<Rightarrow> (Inl e, d')
         | (Inr (tid, plaintext, name, role), d') \<Rightarrow> (Inr (tid, plaintext, name, role, expires), d'))"

section \<open>The table of pairings\<close>

record PairingRow =
  pr_code_hash :: string
  pr_user_id :: "int option"
  pr_hostname :: string
  pr_expires_at :: string
  pr_consumed_at :: "string option"

definition insert_pairing :: "string \<Rightarrow> string \<Rightarrow> string \<Rightarrow> PairingRow list \<Rightarrow> bool \<times> PairingRow list" where
  "insert_pairing code_hash host expiry rows =
     (if list_ex (\<lambda>r. pr_code_hash r = code_hash) rows then (False, rows)
      else (True, rows @ [\<lparr>pr_code_hash = code_hash, pr_user_id = None, pr_hostname = host,
              pr_expires_at = expiry, pr_consumed_at = None\<rparr>]))"

definition lookup_pairing :: "string \<Rightarrow> PairingRow list \<Rightarrow> PairingRow option" where
  "lookup_pairing code_hash rows = find (\<lambda>r. pr_code_hash r = code_hash) rows"

definition update_pairings ::
    "(PairingRow \<Rightarrow> bool) \<Rightarrow> (PairingRow \<Rightarrow> PairingRow) \<Rightarrow> PairingRow list \<Rightarrow> bool \<times> PairingRow list" where
  "update_pairings sel f rows = (list_ex sel rows, map (\<lambda>r. if sel r then f r else r) rows)"

definition bind_pairing :: "string \<Rightarrow> int \<Rightarrow> string \<Rightarrow> PairingRow list \<Rightarrow> bool \<times> PairingRow list" where
  "bind_pairing code_hash uid now_db =
     update_pairings (\<lambda>r. pr_code_hash r = code_hash \<and> pr_user_id r = None \<and> pr_consumed_at r = None \<and>
         \<not> text_le (pr_expires_at r) now_db) (\<lambda>r. r\<lparr>pr_user_id := Some uid\<rparr>)"

definition claim_pairing :: "string \<Rightarrow> string \<Rightarrow> PairingRow list \<Rightarrow> bool \<times> PairingRow list" where
  "claim_pairing code_hash now_db =
     update_pairings (\<lambda>r. pr_code_hash r = code_hash \<and> pr_user_id r \<noteq> None \<and> pr_consumed_at r = None \<and>
         \<not> text_le (pr_expires_at r) now_db) (\<lambda>r. r\<lparr>pr_consumed_at := Some now_db\<rparr>)"

definition is_expired :: "AuthEnv \<Rightarrow> string \<Rightarrow> DateTime \<Rightarrow> bool" where
  "is_expired env expiry now =
     (case parse_naive env ''%Y-%m-%d %H:%M:%S'' expiry of Some dt \<Rightarrow> dt \<le> now | None \<Rightarrow> True)"

section \<open>The handlers\<close>

datatype PairingError = RateLimited | Gone string | PairApp AppError

fun pairing_error_response :: "PairingError \<Rightarrow> nat \<times> string" where
  "pairing_error_response RateLimited = (429, ''too many requests, try again later'')"
| "pairing_error_response (Gone msg) = (410, msg)"
| "pairing_error_response (PairApp e) = response_of e"

record PairState =
  ps_auth :: AuthDb
  ps_pairings :: "PairingRow list"
  ps_create_hits :: Hits
  ps_status_hits :: Hits

text \<open>The surroundings of a request: its clocks and texts, and the address of the client.\<close>

record PairCtx =
  pc_env :: AuthEnv
  pc_db_ts :: "DateTime \<Rightarrow> string"
  pc_now :: DateTime
  pc_instant :: int
  pc_ip :: IpAddr
  pc_unique_error :: string

definition PAIR_TTL_SECS :: int where "PAIR_TTL_SECS = 600"

definition create_pairing ::
    "PairCtx \<Rightarrow> nat list \<Rightarrow> string option \<Rightarrow> PairState \<Rightarrow> (string \<times> DateTime, PairingError) result \<times> PairState" where
  "create_pairing ctx bytes host st =
     (case allow (60 * nanos) PAIR_CREATE_PER_MIN (pc_instant ctx) (show_ip (pc_ip ctx)) (ps_create_hits st) of
        (False, h) \<Rightarrow> (Inl RateLimited, st\<lparr>ps_create_hits := h\<rparr>)
      | (True, h) \<Rightarrow>
          let code = generate_code bytes; expires = pc_now ctx + PAIR_TTL_SECS * nanos
          in case insert_pairing (pairing_hash (env_crypto (pc_env ctx)) code)
                    (case host of Some n \<Rightarrow> sanitize_hostname n | None \<Rightarrow> []) (pc_db_ts ctx expires) (ps_pairings st) of
               (False, _) \<Rightarrow>
                 (Inl (PairApp (AppInternal (''database error: '' @ pc_unique_error ctx))), st\<lparr>ps_create_hits := h\<rparr>)
             | (True, rows) \<Rightarrow> (Inr (code, expires), st\<lparr>ps_create_hits := h, ps_pairings := rows\<rparr>))"

text \<open>\<open>lookup_error\<close>: any failure of the user lookup, a missing row included, is this error.\<close>

definition confirm_pairing ::
    "PairCtx \<Rightarrow> AuthIdentity option \<Rightarrow> string \<Rightarrow> PairState \<Rightarrow> (string, PairingError) result \<times> PairState" where
  "confirm_pairing ctx identity raw st =
     (case identity of
        None \<Rightarrow> (Inl (PairApp (AppAuth ''authentication required'')), st)
      | Some ident \<Rightarrow>
          if \<not> has_role ident ''poweruser''
          then (Inl (PairApp (AppForbidden ''poweruser role or higher required to approve device pairing'')), st)
          else case ident of
            ApiKey _ \<Rightarrow> (Inl (PairApp (AppInternal ''API key identities cannot approve device pairing'')), st)
          | UserId email _ _ _ \<Rightarrow>
              let code = normalize_code raw
              in if \<not> valid_code_shape code then (Inl (PairApp (AppValidation ''invalid pairing code'')), st)
                 else let code_hash = pairing_hash (env_crypto (pc_env ctx)) code
                      in case get_user_by_email email (ps_auth st) of
                           None \<Rightarrow> (Inl (PairApp (AppInternal ''failed to look up user'')), st)
                         | Some user \<Rightarrow>
                             (case lookup_pairing code_hash (ps_pairings st) of
                                None \<Rightarrow> (Inl (PairApp (AppNotFound ''pairing code not found'')), st)
                              | Some row \<Rightarrow>
                                  if is_expired (pc_env ctx) (pr_expires_at row) (pc_now ctx)
                                  then (Inl (Gone ''pairing code expired''), st)
                                  else if pr_user_id row \<noteq> None \<or> pr_consumed_at row \<noteq> None
                                  then (Inl (Gone ''pairing code already used''), st)
                                  else (case bind_pairing code_hash (u_id user) (pc_db_ts ctx (pc_now ctx)) (ps_pairings st) of
                                          (bound, rows) \<Rightarrow>
                                            (if bound then Inr (pr_hostname row)
                                             else Inl (Gone ''pairing code already used''),
                                             st\<lparr>ps_pairings := rows\<rparr>))))"

record Approval =
  ap_token :: string
  ap_token_id :: int
  ap_name :: string
  ap_max_role :: string
  ap_device_name :: string

text \<open>\<open>pairing_status\<close>: \<open>Inr None\<close> is the pending answer.\<close>

definition pairing_status ::
    "PairCtx \<Rightarrow> string \<Rightarrow> string \<Rightarrow> PairState \<Rightarrow> (Approval option, PairingError) result \<times> PairState" where
  "pairing_status ctx raw_key raw st =
     (let code = normalize_code raw
      in if \<not> valid_code_shape code then (Inl (PairApp (AppNotFound ''pairing code not found'')), st)
         else let cr = env_crypto (pc_env ctx); code_hash = pairing_hash cr code
              in case allow (60 * nanos) PAIR_STATUS_PER_MIN (pc_instant ctx) code_hash (ps_status_hits st) of
                   (False, h) \<Rightarrow> (Inl RateLimited, st\<lparr>ps_status_hits := h\<rparr>)
                 | (True, h) \<Rightarrow>
                     let st1 = st\<lparr>ps_status_hits := h\<rparr>
                     in case lookup_pairing code_hash (ps_pairings st1) of
                          None \<Rightarrow> (Inl (PairApp (AppNotFound ''pairing code not found'')), st1)
                        | Some row \<Rightarrow>
                            if is_expired (pc_env ctx) (pr_expires_at row) (pc_now ctx)
                            then (Inl (Gone ''pairing code expired''), st1)
                            else if pr_consumed_at row \<noteq> None then (Inl (Gone ''pairing code already used''), st1)
                            else (case pr_user_id row of
                              None \<Rightarrow> (Inr None, st1)
                            | Some uid \<Rightarrow>
                                (case claim_pairing code_hash (pc_db_ts ctx (pc_now ctx)) (ps_pairings st1) of
                                   (False, _) \<Rightarrow> (Inl (Gone ''pairing code already used''), st1)
                                 | (True, rows) \<Rightarrow>
                                     (case mint_paired_token cr (pc_now ctx) raw_key uid (pr_hostname row) (pc_ip ctx)
                                             (ps_auth st1) of
                                        (Inl e, d) \<Rightarrow> (Inl (PairApp e), st1\<lparr>ps_pairings := rows, ps_auth := d\<rparr>)
                                      | (Inr (tid, plaintext, name, role), d) \<Rightarrow>
                                          (Inr (Some \<lparr>ap_token = plaintext, ap_token_id = tid, ap_name = name,
                                             ap_max_role = role, ap_device_name = pr_hostname row\<rparr>),
                                           st1\<lparr>ps_pairings := rows, ps_auth := d\<rparr>)))))"


section \<open>The limiter's bound\<close>

text \<open>The times at which a sequence of hits on any keys was allowed for one key.\<close>

fun allowed_times :: "int \<Rightarrow> nat \<Rightarrow> string \<Rightarrow> (int \<times> string) list \<Rightarrow> Hits \<Rightarrow> int list" where
  "allowed_times window max_hits k [] h = []"
| "allowed_times window max_hits k ((now, key) # ops) h =
     (case allow window max_hits now key h of (ok, h') \<Rightarrow>
        (if ok \<and> key = k then [now] else []) @ allowed_times window max_hits k ops h')"

definition window_bounded :: "int \<Rightarrow> nat \<Rightarrow> int list \<Rightarrow> bool" where
  "window_bounded w m ts \<longleftrightarrow> (\<forall>t. length (filter (\<lambda>s. t - w < s \<and> s \<le> t) ts) \<le> m)"

lemma length_filter_le_imp:
  "(\<And>x. x \<in> set xs \<Longrightarrow> P x \<Longrightarrow> Q x) \<Longrightarrow> length (filter P xs) \<le> length (filter Q xs)"
  by (induction xs) (auto intro: le_SucI)

lemma window_bounded_snoc:
  assumes "window_bounded w m ts" "\<forall>s \<in> set ts. s \<le> now" "length (filter (\<lambda>s. now - s < w) ts) < m"
  shows "window_bounded w m (ts @ [now])"
  unfolding window_bounded_def
proof
  fix t
  show "length (filter (\<lambda>s. t - w < s \<and> s \<le> t) (ts @ [now])) \<le> m"
  proof (cases "now \<le> t")
    case True
    then have "length (filter (\<lambda>s. t - w < s \<and> s \<le> t) ts) \<le> length (filter (\<lambda>s. now - s < w) ts)"
      by (intro length_filter_le_imp) auto
    then show ?thesis using assms(3) by simp
  next
    case False
    then show ?thesis using assms(1) by (simp add: window_bounded_def)
  qed
qed

lemma map_of_filter_values:
  "distinct (map fst h) \<Longrightarrow>
     map_of (filter (\<lambda>(_, v). Q v) h) k = (case map_of h k of Some v \<Rightarrow> if Q v then Some v else None | None \<Rightarrow> None)"
  by (induction h) (auto split: option.splits simp: map_of_eq_None_iff image_iff)

text \<open>What is remembered of a key agrees, inside the window, with what was allowed.\<close>

definition hits_inv :: "int \<Rightarrow> string \<Rightarrow> int \<Rightarrow> int list \<Rightarrow> Hits \<Rightarrow> bool" where
  "hits_inv w k now ts h \<longleftrightarrow> distinct (map fst h) \<and> sorted (hits_of k h) \<and> (\<forall>s \<in> set (hits_of k h). s \<le> now) \<and>
     (\<forall>s \<in> set ts. s \<le> now) \<and> filter (\<lambda>s. now - s < w) (hits_of k h) = filter (\<lambda>s. now - s < w) ts"

lemma hits_inv_later:
  assumes "hits_inv w k now ts h" "now \<le> now'"
  shows "hits_inv w k now' ts h"
proof -
  have "filter (\<lambda>s. now' - s < w) xs = filter (\<lambda>s. now' - s < w) (filter (\<lambda>s. now - s < w) xs)" for xs :: "int list"
    using assms(2) by (auto intro: filter_cong)
  then show ?thesis using assms unfolding hits_inv_def by (metis order.trans)
qed

lemma sorted_le_last: "sorted v \<Longrightarrow> s \<in> set v \<Longrightarrow> s \<le> last (v :: int list)"
  by (induction v) auto

lemma hits_of_update: "hits_of k (AList.update key v h) = (if key = k then v else hits_of k h)"
  by (simp add: hits_of_def update_conv)

lemma hits_inv_prune:
  assumes "hits_inv w k now ts h" "0 < w"
  shows "hits_inv w k now ts (filter (\<lambda>(_, v). v \<noteq> [] \<and> now - last v < 2 * w) h)"
proof (cases "map_of h k")
  case None
  then show ?thesis using assms(1)
    by (auto simp: hits_inv_def hits_of_def map_of_filter_values [where Q = "\<lambda>v. v \<noteq> [] \<and> now - last v < 2 * w"] distinct_map_filter)
next
  case (Some v)
  have old: "filter (\<lambda>s. now - s < w) v = []" if "\<not> (v \<noteq> [] \<and> now - last v < 2 * w)"
  proof -
    have "s \<le> last v" if "s \<in> set v" for s
      using assms(1) Some that by (simp add: hits_inv_def hits_of_def sorted_le_last)
    then show ?thesis using that assms(2) by (force simp: filter_empty_conv)
  qed
  show ?thesis using assms(1) Some old
    by (cases "v \<noteq> [] \<and> now - last v < 2 * w") (simp_all add: hits_inv_def hits_of_def map_of_filter_values [where Q = "\<lambda>v. v \<noteq> [] \<and> now - last v < 2 * w"] distinct_map_filter)
qed

lemma allow_step:
  assumes "hits_inv w k now ts h" "window_bounded w m ts" "0 < w" "allow w m now key h = (ok, h')"
  shows "hits_inv w k now (ts @ (if ok \<and> key = k then [now] else [])) h' \<and>
    window_bounded w m (ts @ (if ok \<and> key = k then [now] else []))"
proof -
  let ?kept = "filter (\<lambda>t. now - t < w) (hits_of key h)"
  let ?ts = "ts @ (if ok \<and> key = k then [now] else [])"
  have sk: "sorted (filter (\<lambda>s. now - s < w) ts)"
    using assms(1) sorted_wrt_filter unfolding hits_inv_def by metis
  have upd: "hits_inv w k now ts (AList.update key ?kept h)"
    using assms(1) sk by (auto simp: hits_inv_def hits_of_update distinct_update sorted_wrt_filter)
  show ?thesis
  proof (cases "m \<le> length ?kept")
    case True
    then show ?thesis using upd assms(2,4) by (simp add: allow_def Let_def)
  next
    case False
    let ?h = "AList.update key (?kept @ [now]) h"
    have ok: "ok" and h': "h' = (if 512 < length ?h then filter (\<lambda>(_, v). v \<noteq> [] \<and> now - last v < 2 * w) ?h else ?h)"
      using assms(4) False by (simp_all add: allow_def Let_def)
    have inv: "hits_inv w k now ?ts ?h"
    proof (cases "key = k")
      case True
      then show ?thesis using assms(1,3) ok sk
        by (auto simp: hits_inv_def hits_of_update distinct_update sorted_wrt_filter sorted_append)
    next
      case other: False
      then show ?thesis using assms(1) by (simp add: hits_inv_def hits_of_update distinct_update)
    qed
    have "window_bounded w m ?ts"
    proof (cases "key = k")
      case True
      then have "length (filter (\<lambda>s. now - s < w) ts) < m" using False assms(1) by (simp add: hits_inv_def)
      then show ?thesis using window_bounded_snoc [OF assms(2)] assms(1) True ok by (simp add: hits_inv_def)
    next
      case other: False
      then show ?thesis using assms(2) by simp
    qed
    with inv hits_inv_prune [OF inv assms(3)] h' show ?thesis by simp
  qed
qed

lemma allowed_times_bounded:
  "hits_inv w k start ts h \<Longrightarrow> window_bounded w m ts \<Longrightarrow> 0 < w \<Longrightarrow> sorted (start # map fst ops) \<Longrightarrow>
     window_bounded w m (ts @ allowed_times w m k ops h)"
proof (induction ops arbitrary: start ts h)
  case (Cons op ops)
  obtain now key where op: "op = (now, key)" by fastforce
  obtain ok h' where a: "allow w m now key h = (ok, h')" by fastforce
  have "hits_inv w k now ts h" using Cons.prems(1,4) hits_inv_later by (simp add: op)
  note step = allow_step [OF this Cons.prems(2,3) a]
  then have "window_bounded w m ((ts @ (if ok \<and> key = k then [now] else [])) @ allowed_times w m k ops h')"
    using Cons.IH [of now "ts @ (if ok \<and> key = k then [now] else [])" h'] Cons.prems(3,4) by (simp add: op)
  then show ?case by (simp add: op a)
qed simp

text \<open>
  Claim C17. The rate limiter holds its bound for every key: over any sequence of hits on any keys
  at non-decreasing times, and although buckets of idle keys are dropped, no window of the
  configured length contains more than the configured number of allowed hits of a key.
\<close>

theorem limiter_bounds_hits:
  assumes "0 < window" "sorted (map fst ops)"
  shows "length (filter (\<lambda>s. t - window < s \<and> s \<le> t) (allowed_times window max_hits k ops [])) \<le> max_hits"
proof (cases ops)
  case (Cons op ops')
  have "hits_inv window k (fst op) [] []" by (simp add: hits_inv_def hits_of_def)
  then have "window_bounded window max_hits ([] @ allowed_times window max_hits k ops [])"
    using allowed_times_bounded [of window k "fst op" "[]" "[]" max_hits ops] assms Cons by (simp add: window_bounded_def)
  then show ?thesis by (simp add: window_bounded_def)
qed simp

theorem limiter_bounds_hits_witness:
  "allowed_times 10 2 ''k'' [(0, ''k''), (1, ''k''), (2, ''k''), (12, ''k'')] [] = [0, 1, 12] \<and>
   length (filter (\<lambda>s. 9 - 10 < s \<and> s \<le> 9) (allowed_times 10 2 ''k'' [(0, ''k''), (1, ''k''), (2, ''k''), (12, ''k'')] [])) \<le> 2"
proof
  show "allowed_times 10 2 ''k'' [(0, ''k''), (1, ''k''), (2, ''k''), (12, ''k'')] [] = [0, 1, 12]"
    by (simp add: allow_def hits_of_def Let_def)
  show "length (filter (\<lambda>s. 9 - 10 < s \<and> s \<le> 9) (allowed_times 10 2 ''k'' [(0, ''k''), (1, ''k''), (2, ''k''), (12, ''k'')] [])) \<le> 2"
    by (rule limiter_bounds_hits) simp_all
qed


section \<open>What the handlers do to the table\<close>

lemma update_pairings_False: "update_pairings sel f rows = (False, rows') \<Longrightarrow> rows' = rows"
  by (auto simp: update_pairings_def list_ex_iff intro!: map_idI)

lemma confirm_pairing_cases:
  obtains (refused) e where "confirm_pairing ctx ident raw st = (Inl e, st)"
  | (bound) email n r g user dev rows where "ident = Some (UserId email n r g)" "has_role (UserId email n r g) ''poweruser''"
      "get_user_by_email email (ps_auth st) = Some user"
      "bind_pairing (pairing_hash (env_crypto (pc_env ctx)) (normalize_code raw)) (u_id user) (pc_db_ts ctx (pc_now ctx))
         (ps_pairings st) = (True, rows)"
      "confirm_pairing ctx ident raw st = (Inr dev, st\<lparr>ps_pairings := rows\<rparr>)"
proof -
  let ?k = "pairing_hash (env_crypto (pc_env ctx)) (normalize_code raw)"
  show ?thesis
  proof (cases "\<exists>email n r g user row. ident = Some (UserId email n r g) \<and> has_role (UserId email n r g) ''poweruser'' \<and>
      get_user_by_email email (ps_auth st) = Some user \<and> valid_code_shape (normalize_code raw) \<and>
      lookup_pairing ?k (ps_pairings st) = Some row \<and> \<not> is_expired (pc_env ctx) (pr_expires_at row) (pc_now ctx) \<and>
      pr_user_id row = None \<and> pr_consumed_at row = None")
    case True
    then obtain email n r g user row where t: "ident = Some (UserId email n r g)" "has_role (UserId email n r g) ''poweruser''"
      "get_user_by_email email (ps_auth st) = Some user" "valid_code_shape (normalize_code raw)"
      "lookup_pairing ?k (ps_pairings st) = Some row" "\<not> is_expired (pc_env ctx) (pr_expires_at row) (pc_now ctx)"
      "pr_user_id row = None" "pr_consumed_at row = None" by blast
    obtain b rows where b: "bind_pairing ?k (u_id user) (pc_db_ts ctx (pc_now ctx)) (ps_pairings st) = (b, rows)" by fastforce
    have eq: "confirm_pairing ctx ident raw st =
        (if b then Inr (pr_hostname row) else Inl (Gone ''pairing code already used''), st\<lparr>ps_pairings := rows\<rparr>)"
      using t b by (simp add: confirm_pairing_def)
    show ?thesis
    proof (cases b)
      case True
      with b eq show ?thesis using bound [OF t(1-3), of rows "pr_hostname row"] by simp
    next
      case False
      then have "rows = ps_pairings st" using b update_pairings_False by (auto simp: bind_pairing_def)
      with refused eq False show ?thesis by simp
    qed
  next
    case False
    then have "\<exists>e. confirm_pairing ctx ident raw st = (Inl e, st)"
      unfolding confirm_pairing_def Let_def by (auto split: option.splits AuthIdentity.splits)
    then show ?thesis using refused by blast
  qed
qed

text \<open>
  A poll either leaves the table alone, or claims an approved row; then it hands out a token,
  unless minting fails.
\<close>

lemma pairing_status_cases:
  obtains (unclaimed) r h where "pairing_status ctx key raw st = (r, st\<lparr>ps_status_hits := h\<rparr>)" "\<And>a. r \<noteq> Inr (Some a)"
  | (claimed) row uid rows r h where "lookup_pairing (pairing_hash (env_crypto (pc_env ctx)) (normalize_code raw)) (ps_pairings st) = Some row"
      "pr_user_id row = Some uid" "pr_consumed_at row = None"
      "claim_pairing (pairing_hash (env_crypto (pc_env ctx)) (normalize_code raw)) (pc_db_ts ctx (pc_now ctx)) (ps_pairings st) = (True, rows)"
      "pairing_status ctx key raw st = (r, st\<lparr>ps_status_hits := h, ps_pairings := rows,
         ps_auth := snd (mint_paired_token (env_crypto (pc_env ctx)) (pc_now ctx) key uid (pr_hostname row) (pc_ip ctx) (ps_auth st))\<rparr>)"
      "\<And>a. r = Inr (Some a) \<Longrightarrow> fst (mint_paired_token (env_crypto (pc_env ctx)) (pc_now ctx) key uid (pr_hostname row) (pc_ip ctx) (ps_auth st)) =
         Inr (ap_token_id a, ap_token a, ap_name a, ap_max_role a)"
proof -
  let ?cr = "env_crypto (pc_env ctx)"
  let ?k = "pairing_hash ?cr (normalize_code raw)"
  obtain ok h where al: "allow (60 * nanos) PAIR_STATUS_PER_MIN (pc_instant ctx) ?k (ps_status_hits st) = (ok, h)" by fastforce
  obtain b rows where cl: "claim_pairing ?k (pc_db_ts ctx (pc_now ctx)) (ps_pairings st) = (b, rows)" by fastforce
  show ?thesis
  proof (cases "valid_code_shape (normalize_code raw) \<and> ok \<and> b \<and> (\<exists>row uid. lookup_pairing ?k (ps_pairings st) = Some row \<and>
      \<not> is_expired (pc_env ctx) (pr_expires_at row) (pc_now ctx) \<and> pr_consumed_at row = None \<and> pr_user_id row = Some uid)")
    case True
    then obtain row uid where t: "lookup_pairing ?k (ps_pairings st) = Some row" "pr_user_id row = Some uid" "pr_consumed_at row = None"
      "\<not> is_expired (pc_env ctx) (pr_expires_at row) (pc_now ctx)" by blast
    obtain m d where m: "mint_paired_token ?cr (pc_now ctx) key uid (pr_hostname row) (pc_ip ctx) (ps_auth st) = (m, d)" by fastforce
    show ?thesis
    proof (cases m)
      case (Inl e)
      then have "pairing_status ctx key raw st = (Inl (PairApp e), st\<lparr>ps_status_hits := h, ps_pairings := rows, ps_auth := d\<rparr>)"
        using True t al cl m by (simp add: pairing_status_def Let_def)
      with claimed [OF t(1-3), of rows] True cl m show ?thesis by simp
    next
      case (Inr x)
      obtain tid tok name role where x: "x = (tid, tok, name, role)" by (metis prod_cases4)
      have "pairing_status ctx key raw st = (Inr (Some \<lparr>ap_token = tok, ap_token_id = tid, ap_name = name, ap_max_role = role,
          ap_device_name = pr_hostname row\<rparr>), st\<lparr>ps_status_hits := h, ps_pairings := rows, ps_auth := d\<rparr>)"
        using True t al cl m Inr x by (simp add: pairing_status_def Let_def)
      with claimed [OF t(1-3), of rows] True cl m Inr x show ?thesis by simp
    qed
  next
    case False
    have "\<exists>r h. pairing_status ctx key raw st = (r, st\<lparr>ps_status_hits := h\<rparr>) \<and> (\<forall>a. r \<noteq> Inr (Some a))"
    proof (cases "valid_code_shape (normalize_code raw) \<and> ok")
      case True
      with False al cl show ?thesis unfolding pairing_status_def Let_def
        by (auto split: option.splits bool.splits)
    next
      case bad: False
      show ?thesis
      proof (cases "valid_code_shape (normalize_code raw)")
        case True
        with bad al show ?thesis unfolding pairing_status_def Let_def by auto
      next
        case False
        then show ?thesis unfolding pairing_status_def Let_def
          by (intro exI [of _ "Inl (PairApp (AppNotFound ''pairing code not found''))"] exI [of _ "ps_status_hits st"]) simp
      qed
    qed
    then show ?thesis using unclaimed by blast
  qed
qed


section \<open>Every order of requests\<close>

datatype PairOp =
    CreatePairing PairCtx "nat list" "string option"
  | ConfirmPairing PairCtx "AuthIdentity option" string
  | PollPairing PairCtx string string

text \<open>
  What a request made of a code, named by its hash: bound to a user by an identity, or a token
  handed out for the bound user.
\<close>

datatype PairEvent =
    Confirmed string AuthIdentity int
  | Handed string int Approval
  | Quiet

fun pair_step :: "Crypto \<Rightarrow> PairOp \<Rightarrow> PairState \<Rightarrow> PairEvent \<times> PairState" where
  "pair_step cr (CreatePairing ctx bytes host) st = (Quiet, snd (create_pairing ctx bytes host st))"
| "pair_step cr (ConfirmPairing ctx ident raw) st =
     (case confirm_pairing ctx ident raw st of
        (Inl _, st') \<Rightarrow> (Quiet, st')
      | (Inr _, st') \<Rightarrow>
          (case ident of
             Some (UserId email n r g) \<Rightarrow>
               (case get_user_by_email email (ps_auth st) of
                  Some u \<Rightarrow> Confirmed (pairing_hash cr (normalize_code raw)) (UserId email n r g) (u_id u)
                | None \<Rightarrow> Quiet)
           | _ \<Rightarrow> Quiet, st'))"
| "pair_step cr (PollPairing ctx key raw) st =
     (case pairing_status ctx key raw st of
        (Inr (Some a), st') \<Rightarrow>
          (case lookup_pairing (pairing_hash cr (normalize_code raw)) (ps_pairings st) of
             Some row \<Rightarrow>
               (case pr_user_id row of
                  Some uid \<Rightarrow> Handed (pairing_hash cr (normalize_code raw)) uid a
                | None \<Rightarrow> Quiet)
           | None \<Rightarrow> Quiet, st')
      | (_, st') \<Rightarrow> (Quiet, st'))"

fun pair_run :: "Crypto \<Rightarrow> PairOp list \<Rightarrow> PairState \<Rightarrow> PairEvent list" where
  "pair_run cr [] st = []"
| "pair_run cr (op # ops) st = (case pair_step cr op st of (ev, st') \<Rightarrow> ev # pair_run cr ops st')"

fun pair_op_crypto :: "PairOp \<Rightarrow> Crypto" where
  "pair_op_crypto (CreatePairing ctx _ _) = env_crypto (pc_env ctx)"
| "pair_op_crypto (ConfirmPairing ctx _ _) = env_crypto (pc_env ctx)"
| "pair_op_crypto (PollPairing ctx _ _) = env_crypto (pc_env ctx)"

definition pairing_inv :: "PairEvent list \<Rightarrow> PairState \<Rightarrow> bool" where
  "pairing_inv evs st \<longleftrightarrow> distinct (map pr_code_hash (ps_pairings st)) \<and>
     (\<forall>r \<in> set (ps_pairings st). \<forall>uid. pr_user_id r = Some uid \<longrightarrow>
        (\<exists>ident. Confirmed (pr_code_hash r) ident uid \<in> set evs \<and> has_role ident ''poweruser'')) \<and>
     (\<forall>k uid a. Handed k uid a \<in> set evs \<longrightarrow> (\<exists>r \<in> set (ps_pairings st). pr_code_hash r = k \<and> pr_consumed_at r \<noteq> None))"

lemma pairing_inv_frame:
  "pairing_inv evs st \<Longrightarrow> ps_pairings st' = ps_pairings st \<Longrightarrow> pairing_inv (evs @ [Quiet]) st'"
  unfolding pairing_inv_def by (fastforce simp: Un_iff)

lemma pairing_inv_created:
  assumes "pairing_inv evs st"
  shows "pairing_inv (evs @ [Quiet]) (snd (create_pairing ctx bytes host st))"
proof -
  let ?k = "pairing_hash (env_crypto (pc_env ctx)) (generate_code bytes)"
  let ?st = "snd (create_pairing ctx bytes host st)"
  have "ps_pairings ?st = ps_pairings st \<or> (\<exists>row. ps_pairings ?st = ps_pairings st @ [row] \<and>
      pr_code_hash row \<notin> pr_code_hash ` set (ps_pairings st) \<and> pr_user_id row = None)"
    by (auto simp: create_pairing_def insert_pairing_def list_ex_iff Let_def split: prod.splits bool.splits if_splits)
  then show ?thesis
  proof
    assume "ps_pairings ?st = ps_pairings st"
    then show ?thesis by (rule pairing_inv_frame [OF assms])
  next
    assume "\<exists>row. ps_pairings ?st = ps_pairings st @ [row] \<and>
      pr_code_hash row \<notin> pr_code_hash ` set (ps_pairings st) \<and> pr_user_id row = None"
    then show ?thesis using assms unfolding pairing_inv_def by fastforce
  qed
qed

lemma update_pairings_True:
  "update_pairings sel f rows = (b, rows') \<Longrightarrow> rows' = map (\<lambda>r. if sel r then f r else r) rows"
  by (simp add: update_pairings_def)

lemma pairing_inv_bound:
  assumes "pairing_inv evs st" "bind_pairing k uid now_db (ps_pairings st) = (b, rows)" "has_role ident ''poweruser''"
  shows "pairing_inv (evs @ [Confirmed k ident uid]) (st\<lparr>ps_pairings := rows\<rparr>)"
proof -
  have rows: "rows = map (\<lambda>r. if pr_code_hash r = k \<and> pr_user_id r = None \<and> pr_consumed_at r = None \<and>
       \<not> text_le (pr_expires_at r) now_db then r\<lparr>pr_user_id := Some uid\<rparr> else r) (ps_pairings st)"
    using update_pairings_True assms(2) by (simp add: bind_pairing_def)
  have "map pr_code_hash rows = map pr_code_hash (ps_pairings st)" by (simp add: rows)
  moreover have "\<exists>i. Confirmed (pr_code_hash r') i v \<in> set (evs @ [Confirmed k ident uid]) \<and> has_role i ''poweruser''"
    if "r' \<in> set rows" "pr_user_id r' = Some v" for r' v
    using that assms(1,3) unfolding rows pairing_inv_def by (auto split: if_splits) blast
  moreover have "\<exists>r' \<in> set rows. pr_code_hash r' = j \<and> pr_consumed_at r' \<noteq> None"
    if old: "Handed j v a \<in> set (evs @ [Confirmed k ident uid])" for j v a
  proof -
    obtain r where r: "r \<in> set (ps_pairings st)" "pr_code_hash r = j" "pr_consumed_at r \<noteq> None"
      using old assms(1) unfolding pairing_inv_def by fastforce
    then have "r \<in> set rows" unfolding rows by (force simp: image_iff)
    with r show ?thesis by blast
  qed
  ultimately show ?thesis using assms(1) unfolding pairing_inv_def by simp
qed

lemma pairing_inv_claimed:
  assumes "pairing_inv evs st" "claim_pairing k now_db (ps_pairings st) = (True, rows)" "ps_pairings st' = rows"
    "ev = Quiet \<or> (\<exists>uid a. ev = Handed k uid a)"
  shows "pairing_inv (evs @ [ev]) st'"
proof -
  let ?sel = "\<lambda>r. pr_code_hash r = k \<and> pr_user_id r \<noteq> None \<and> pr_consumed_at r = None \<and> \<not> text_le (pr_expires_at r) now_db"
  have rows: "rows = map (\<lambda>r. if ?sel r then r\<lparr>pr_consumed_at := Some now_db\<rparr> else r) (ps_pairings st)"
    and some: "list_ex ?sel (ps_pairings st)"
    using assms(2) by (auto simp: claim_pairing_def update_pairings_def)
  have "map pr_code_hash rows = map pr_code_hash (ps_pairings st)" by (simp add: rows)
  moreover have "\<exists>i. Confirmed (pr_code_hash r') i v \<in> set (evs @ [ev]) \<and> has_role i ''poweruser''"
    if r': "r' \<in> set rows" "pr_user_id r' = Some v" for r' v
  proof -
    obtain r where "r \<in> set (ps_pairings st)" "pr_code_hash r' = pr_code_hash r" "pr_user_id r = Some v"
      using r' unfolding rows by (fastforce split: if_splits)
    then have "\<exists>i. Confirmed (pr_code_hash r') i v \<in> set evs \<and> has_role i ''poweruser''"
      using assms(1) unfolding pairing_inv_def by metis
    then show ?thesis by auto
  qed
  moreover have "\<exists>r' \<in> set rows. pr_code_hash r' = j \<and> pr_consumed_at r' \<noteq> None"
    if "Handed j v a \<in> set (evs @ [ev])" for j v a
  proof (cases "Handed j v a \<in> set evs")
    case True
    then obtain r where r: "r \<in> set (ps_pairings st)" "pr_code_hash r = j" "pr_consumed_at r \<noteq> None"
      using assms(1) unfolding pairing_inv_def by blast
    then have "r \<in> set rows" unfolding rows by (force simp: image_iff)
    with r show ?thesis by blast
  next
    case False
    then have "j = k" using that assms(4) by auto
    moreover obtain r where r: "r \<in> set (ps_pairings st)" "?sel r" using some by (auto simp: list_ex_iff)
    moreover from this have "r\<lparr>pr_consumed_at := Some now_db\<rparr> \<in> set rows" unfolding rows by (force simp: image_iff)
    ultimately show ?thesis by (intro bexI [of _ "r\<lparr>pr_consumed_at := Some now_db\<rparr>"]) simp_all
  qed
  ultimately show ?thesis using assms(1,3) unfolding pairing_inv_def by simp
qed

lemma pair_step_inv:
  assumes "pairing_inv evs st" "pair_step cr op st = (ev, st')" "pair_op_crypto op = cr"
  shows "pairing_inv (evs @ [ev]) st'"
proof (cases op)
  case (CreatePairing ctx bytes host)
  then show ?thesis using assms pairing_inv_created by auto
next
  case (ConfirmPairing ctx ident raw)
  show ?thesis
  proof (rule confirm_pairing_cases [of ctx ident raw st])
    fix e assume "confirm_pairing ctx ident raw st = (Inl e, st)"
    then show ?thesis using assms(1,2) ConfirmPairing pairing_inv_frame by auto
  next
    fix email n r g user dev rows
    assume "ident = Some (UserId email n r g)" "has_role (UserId email n r g) ''poweruser''"
      "get_user_by_email email (ps_auth st) = Some user"
      "bind_pairing (pairing_hash (env_crypto (pc_env ctx)) (normalize_code raw)) (u_id user) (pc_db_ts ctx (pc_now ctx))
         (ps_pairings st) = (True, rows)"
      "confirm_pairing ctx ident raw st = (Inr dev, st\<lparr>ps_pairings := rows\<rparr>)"
    then show ?thesis using assms(2,3) ConfirmPairing pairing_inv_bound [OF assms(1)] by auto
  qed
next
  case (PollPairing ctx key raw)
  show ?thesis
  proof (rule pairing_status_cases [of ctx key raw st])
    fix r h assume "pairing_status ctx key raw st = (r, st\<lparr>ps_status_hits := h\<rparr>)" "\<And>a. r \<noteq> Inr (Some a)"
    then show ?thesis using assms(1,2) PollPairing pairing_inv_frame by (auto split: sum.splits option.splits)
  next
    fix row uid rows r h
    assume row: "lookup_pairing (pairing_hash (env_crypto (pc_env ctx)) (normalize_code raw)) (ps_pairings st) = Some row"
        "pr_user_id row = Some uid"
      and cl: "claim_pairing (pairing_hash (env_crypto (pc_env ctx)) (normalize_code raw)) (pc_db_ts ctx (pc_now ctx)) (ps_pairings st) = (True, rows)"
      and eq: "pairing_status ctx key raw st = (r, st\<lparr>ps_status_hits := h, ps_pairings := rows,
         ps_auth := snd (mint_paired_token (env_crypto (pc_env ctx)) (pc_now ctx) key uid (pr_hostname row) (pc_ip ctx) (ps_auth st))\<rparr>)"
    have "ps_pairings st' = rows" "ev = Quiet \<or> (\<exists>uid a. ev = Handed (pairing_hash cr (normalize_code raw)) uid a)"
      using assms(2,3) row eq PollPairing by (auto split: sum.splits option.splits)
    then show ?thesis using pairing_inv_claimed [OF assms(1) cl] assms(3) PollPairing by simp
  qed
qed

lemma pair_step_handed:
  assumes "pairing_inv evs st" "pair_step cr op st = (Handed k uid a, st')" "pair_op_crypto op = cr"
  shows "(\<exists>ident. Confirmed k ident uid \<in> set evs \<and> has_role ident ''poweruser'') \<and> Handed k uid' a' \<notin> set evs"
proof (cases op)
  case (PollPairing ctx key raw)
  show ?thesis
  proof (rule pairing_status_cases [of ctx key raw st])
    fix r h assume "pairing_status ctx key raw st = (r, st\<lparr>ps_status_hits := h\<rparr>)" "\<And>a. r \<noteq> Inr (Some a)"
    then show ?thesis using assms(2) PollPairing by (auto split: sum.splits option.splits)
  next
    fix row uid2 rows r h
    assume row: "lookup_pairing (pairing_hash (env_crypto (pc_env ctx)) (normalize_code raw)) (ps_pairings st) = Some row"
        "pr_user_id row = Some uid2" "pr_consumed_at row = None"
      and eq: "pairing_status ctx key raw st = (r, st\<lparr>ps_status_hits := h, ps_pairings := rows,
         ps_auth := snd (mint_paired_token (env_crypto (pc_env ctx)) (pc_now ctx) key uid2 (pr_hostname row) (pc_ip ctx) (ps_auth st))\<rparr>)"
    have k: "k = pairing_hash cr (normalize_code raw)" "uid2 = uid"
      using assms(2,3) row eq PollPairing by (auto split: sum.splits option.splits)
    have mem: "row \<in> set (ps_pairings st)" "pr_code_hash row = k"
      using row(1) k(1) assms(3) PollPairing find_SomeD by (force simp: lookup_pairing_def)+
    have "r' = row" if "r' \<in> set (ps_pairings st)" "pr_code_hash r' = k" for r'
      using assms(1) mem that unfolding pairing_inv_def by (metis distinct_map inj_onD)
    then show ?thesis using assms(1) mem row(2,3) k(2) unfolding pairing_inv_def by (metis (lifting))
  qed
qed (use assms(2) in \<open>auto split: prod.splits sum.splits option.splits AuthIdentity.splits\<close>)

lemma pair_run_handed:
  assumes "pairing_inv pre st" "list_all (\<lambda>op. pair_op_crypto op = cr) ops" "i < length (pair_run cr ops st)"
    "pair_run cr ops st ! i = Handed k uid a"
  shows "(\<exists>ident. Confirmed k ident uid \<in> set (pre @ take i (pair_run cr ops st)) \<and> has_role ident ''poweruser'') \<and>
    Handed k uid' a' \<notin> set (pre @ take i (pair_run cr ops st))"
  using assms
proof (induction ops arbitrary: pre st i)
  case (Cons op ops)
  obtain ev st' where step: "pair_step cr op st = (ev, st')" by fastforce
  show ?case
  proof (cases i)
    case 0
    then show ?thesis using pair_step_handed [OF Cons.prems(1), of cr op k uid a st'] Cons.prems(2,4) step by simp
  next
    case (Suc n)
    have "pairing_inv (pre @ [ev]) st'" using pair_step_inv [OF Cons.prems(1) step] Cons.prems(2) by simp
    then show ?thesis using Cons.IH [of "pre @ [ev]" st' n] Cons.prems(2-4) Suc step by simp
  qed
qed simp

text \<open>
  Claim C15. A pairing code hands out one token, to the device of the user who approved it: in any
  sequence of pairing requests from an empty table, when a poll answers with a token, an identity
  of at least the role poweruser confirmed that code for that user before, and no other poll of
  the sequence is answered with a token for the code.
\<close>

theorem pairing_token_once:
  assumes "ps_pairings st = []" "list_all (\<lambda>op. pair_op_crypto op = cr) ops"
    "i < length (pair_run cr ops st)" "pair_run cr ops st ! i = Handed k uid a"
  shows "(\<exists>j < i. \<exists>ident. pair_run cr ops st ! j = Confirmed k ident uid \<and> has_role ident ''poweruser'') \<and>
    (\<forall>j uid' a'. j < length (pair_run cr ops st) \<and> pair_run cr ops st ! j = Handed k uid' a' \<longrightarrow> j = i)"
proof -
  have inv: "pairing_inv [] st" using assms(1) by (simp add: pairing_inv_def)
  note handed = pair_run_handed [OF inv assms(2)]
  obtain ident where ident: "Confirmed k ident uid \<in> set (take i (pair_run cr ops st))" "has_role ident ''poweruser''"
    using handed [OF assms(3,4)] by auto
  then obtain j where "j < i" "pair_run cr ops st ! j = Confirmed k ident uid"
    using assms(3) by (auto simp: in_set_conv_nth)
  with ident(2) have "\<exists>j < i. \<exists>ident. pair_run cr ops st ! j = Confirmed k ident uid \<and> has_role ident ''poweruser''" by blast
  moreover have "\<not> m < n" if n: "n < length (pair_run cr ops st)" "pair_run cr ops st ! n = Handed k u x"
    and m: "pair_run cr ops st ! m = Handed k v y" for m n u v x y
  proof
    assume "m < n"
    then have "Handed k v y \<in> set (take n (pair_run cr ops st))"
      using n(1) m nth_mem [of m "take n (pair_run cr ops st)"] by simp
    then show False using handed [OF n, of v y] by simp
  qed
  ultimately show ?thesis using assms(3,4) by (meson linorder_neqE_nat)
qed

definition demo_pair_ctx :: PairCtx where
  "demo_pair_ctx = \<lparr>pc_env = demo_env\<lparr>parse_naive := (\<lambda>_ s. Some (if s = ''b'' then 600 * nanos else 0))\<rparr>,
     pc_db_ts = (\<lambda>t. if t < 600 * nanos then ''a'' else ''b''), pc_now = 0, pc_instant = 0, pc_ip = V4 1, pc_unique_error = []\<rparr>"

definition demo_pair_state :: PairState where
  "demo_pair_state = \<lparr>ps_auth = demo_auth_db, ps_pairings = [], ps_create_hits = [], ps_status_hits = []\<rparr>"

definition demo_pair_ops :: "PairOp list" where
  "demo_pair_ops = [CreatePairing demo_pair_ctx (replicate 8 0) (Some ''dev''),
     ConfirmPairing demo_pair_ctx (Some (UserId ''a@x'' [] ''admin'' [])) ''aaaa-aaaa'',
     PollPairing demo_pair_ctx ''key'' ''AAAAAAAA'', PollPairing demo_pair_ctx ''key2'' ''AAAAAAAA'']"

theorem pairing_token_once_witness:
  "\<exists>k a. pair_run (env_crypto demo_env) demo_pair_ops demo_pair_state ! 2 = Handed k 7 a \<and>
     (\<exists>j < 2. \<exists>ident. pair_run (env_crypto demo_env) demo_pair_ops demo_pair_state ! j = Confirmed k ident 7 \<and>
        has_role ident ''poweruser'')"
proof -
  let ?evs = "pair_run (env_crypto demo_env) demo_pair_ops demo_pair_state"
  have run: "2 < length ?evs \<and> (case ?evs ! 2 of Handed _ uid _ \<Rightarrow> uid = 7 | _ \<Rightarrow> False) \<and> ps_pairings demo_pair_state = []"
    by code_simp
  then obtain k a where ev: "?evs ! 2 = Handed k 7 a" by (auto split: PairEvent.splits)
  have cr: "list_all (\<lambda>op. pair_op_crypto op = env_crypto demo_env) demo_pair_ops"
    by (simp add: demo_pair_ops_def demo_pair_ctx_def)
  show ?thesis
    using pairing_token_once [OF _ cr _ ev] run ev by blast
qed

section \<open>A code is read as it was shown\<close>

lemma code_chars:
  assumes "c \<in> set CODE_ALPHABET"
  shows "byte c < 128" "\<not> is_whitespace [c]" "c \<noteq> CHR ''-''" "to_ascii_uppercase c = c"
proof -
  have "list_all (\<lambda>c. byte c < 128 \<and> \<not> is_whitespace [c] \<and> c \<noteq> CHR ''-'' \<and> to_ascii_uppercase c = c) CODE_ALPHABET"
    by code_simp
  then show "byte c < 128" "\<not> is_whitespace [c]" "c \<noteq> CHR ''-''" "to_ascii_uppercase c = c"
    using assms by (simp_all add: list_all_iff)
qed

text \<open>
  A generated code has the shape the handlers ask for and is its own normal form, also with a
  hyphen in the middle.
\<close>

lemma generated_code_accepted:
  assumes "length bytes = CODE_LEN"
  shows "valid_code_shape (generate_code bytes)" "normalize_code (generate_code bytes) = generate_code bytes"
    "normalize_code (take n (generate_code bytes) @ ''-'' @ drop n (generate_code bytes)) = generate_code bytes"
proof -
  have "0 < length CODE_ALPHABET" by (simp add: CODE_ALPHABET_def)
  then have alpha: "set (generate_code bytes) \<subseteq> set CODE_ALPHABET"
    by (auto simp: generate_code_def intro!: nth_mem mod_less_divisor)
  then show "valid_code_shape (generate_code bytes)"
    using assms by (auto simp: valid_code_shape_def list_all_iff generate_code_def)
  have norm: "normalize_code s = filter (\<lambda>c. c \<noteq> CHR ''-'') s" if "set s \<subseteq> insert CHR ''-'' (set CODE_ALPHABET)" for s
  proof -
    have "is_ascii s" using that code_chars(1) by (force simp: is_ascii_def list_all_iff byte_def)
    then have c: "chars s = map (\<lambda>c. [c]) s" by (rule chars_ascii)
    have "filter (\<lambda>c. \<not> is_whitespace c \<and> c \<noteq> ''-'') (map (\<lambda>c. [c]) s) = map (\<lambda>c. [c]) (filter (\<lambda>c. c \<noteq> CHR ''-'') s)"
      using that code_chars(2) by (induction s) (auto simp: comp_def)
    moreover have "map to_ascii_uppercase (filter (\<lambda>c. c \<noteq> CHR ''-'') s) = filter (\<lambda>c. c \<noteq> CHR ''-'') s"
      using that code_chars(4) by (intro map_idI) auto
    ultimately show ?thesis by (simp add: normalize_code_def c concat_map_singleton)
  qed
  have plain: "filter (\<lambda>c. c \<noteq> CHR ''-'') s = s" if "set s \<subseteq> set CODE_ALPHABET" for s
    using that code_chars(3) by (auto intro!: filter_True)
  show "normalize_code (generate_code bytes) = generate_code bytes"
    using norm [of "generate_code bytes"] plain [OF alpha] alpha by auto
  have "set (take n (generate_code bytes)) \<subseteq> set CODE_ALPHABET" "set (drop n (generate_code bytes)) \<subseteq> set CODE_ALPHABET"
    using alpha by (meson order_trans set_take_subset set_drop_subset)+
  then show "normalize_code (take n (generate_code bytes) @ ''-'' @ drop n (generate_code bytes)) = generate_code bytes"
    using plain by (subst norm) auto
qed

text \<open>
  The alphabet has 31 characters, not 32, so the first characters of it are more frequent; and a
  device may choose a host name whose pairing token has the name of the login token.
\<close>

lemma alphabet_biased: "length CODE_ALPHABET = 31" "256 mod length CODE_ALPHABET = 8"
  by (simp_all add: CODE_ALPHABET_def)

lemma pairing_name_clashes: "token_name ''login'' = LOGIN_TOKEN_NAME"
  by code_simp

end
