(* ===== verification/Spec2Isabelle.thy ===== *)
theory Spec2Isabelle
  imports Guacd Session_Store Event_Bus Credentials Session_Caps Auth Personal_Folders Audit_Reports Ws_Handler
    Secret_Values Passwords Auth_Chain Pairing
begin

text \<open>
  Persea is a remote desktop gateway: browsers talk to it over HTTP and WebSocket, it talks
  the Guacamole protocol to \<open>guacd\<close>.
\<close>

end
